theory Spec2Isabelle
  imports Complex_Main
begin

chapter \<open>Model of the interaction scripting engine\<close>

section \<open>JavaScript values, strings and property tables\<close>

text \<open>
  The game is written in JavaScript. Property values coming from the level editor are
  booleans, numbers or strings; a missing property reads as \<open>undefined\<close>. Numbers are
  modelled as integers (the level data of the claims uses integer amounts; fractional
  property values are outside the model). A leading underscore of a private method name
  (\<open>_flagKey\<close>, \<open>_getNumberedKeys\<close>, ...) is dropped, since an Isabelle name cannot start
  with one.
\<close>

datatype jsval = JUndefined | JNull | JBool bool | JNum int | JStr string

type_synonym props = "string \<rightharpoonup> jsval"

definition getp :: "props \<Rightarrow> string \<Rightarrow> jsval" where
  \<comment> \<open>\<open>props[k]\<close>: a missing key reads as \<open>undefined\<close>\<close>
  "getp props k = (case props k of None \<Rightarrow> JUndefined | Some v \<Rightarrow> v)"

definition nullish :: "jsval \<Rightarrow> jsval \<Rightarrow> jsval" where
  \<comment> \<open>\<open>a ?? b\<close>\<close>
  "nullish a b = (case a of JUndefined \<Rightarrow> b | JNull \<Rightarrow> b | _ \<Rightarrow> a)"

definition digit_char :: "nat \<Rightarrow> char" where
  "digit_char n = ''0123456789'' ! (n mod 10)"

function string_of_nat :: "nat \<Rightarrow> string" where
  "string_of_nat n =
     (if n < 10 then [digit_char n] else string_of_nat (n div 10) @ [digit_char n])"
  by pat_completeness auto
termination
  by (relation "measure id") auto

declare string_of_nat.simps [simp del]

definition string_of_int :: "int \<Rightarrow> string" where
  "string_of_int i = (if i < 0 then ''-'' @ string_of_nat (nat (- i)) else string_of_nat (nat i))"

fun String_js :: "jsval \<Rightarrow> string" where
  \<comment> \<open>\<open>String(v)\<close>\<close>
  "String_js JUndefined = ''undefined''"
| "String_js JNull = ''null''"
| "String_js (JBool b) = (if b then ''true'' else ''false'')"
| "String_js (JNum n) = string_of_int n"
| "String_js (JStr s) = s"

fun Boolean_js :: "jsval \<Rightarrow> bool" where
  \<comment> \<open>\<open>Boolean(v)\<close>, the truthiness of a value\<close>
  "Boolean_js JUndefined = False"
| "Boolean_js JNull = False"
| "Boolean_js (JBool b) = b"
| "Boolean_js (JNum n) = (n \<noteq> 0)"
| "Boolean_js (JStr s) = (s \<noteq> [])"

definition is_space :: "char \<Rightarrow> bool" where
  "is_space c = (c \<in> set [CHR '' '', CHR 0x09, CHR 0x0A, CHR 0x0B, CHR 0x0C, CHR 0x0D])"

definition trim :: "string \<Rightarrow> string" where
  \<comment> \<open>\<open>s.trim()\<close> on ASCII white space\<close>
  "trim s = rev (dropWhile is_space (rev (dropWhile is_space s)))"

definition lower_char :: "char \<Rightarrow> char" where
  "lower_char c =
     (case map_of (zip ''ABCDEFGHIJKLMNOPQRSTUVWXYZ'' ''abcdefghijklmnopqrstuvwxyz'') c of
        None \<Rightarrow> c | Some d \<Rightarrow> d)"

definition toLowerCase :: "string \<Rightarrow> string" where
  "toLowerCase s = map lower_char s"

definition str :: "jsval \<Rightarrow> string" where
  \<comment> \<open>the idiom \<open>String(v ?? "").trim()\<close>\<close>
  "str v = trim (String_js (nullish v (JStr [])))"

definition isTrue :: "jsval \<Rightarrow> bool" where
  \<comment> \<open>the idiom \<open>v === true || String(v ?? "").toLowerCase() === "true"\<close>\<close>
  "isTrue v = (v = JBool True \<or> toLowerCase (String_js (nullish v (JStr []))) = ''true'')"

fun join_js :: "string \<Rightarrow> string list \<Rightarrow> string" where
  \<comment> \<open>\<open>xs.join(sep)\<close> on an array of strings\<close>
  "join_js sep [] = []"
| "join_js sep [x] = x"
| "join_js sep (x # y # ys) = x @ sep @ join_js sep (y # ys)"


section \<open>FlagKey codec\<close>

text \<open>
  \<open>BaseExploreScene._flagKey(prefix, ...parts)\<close> returns
  \<open>`${prefix}__${parts.map((p) => String(p)).join("__")}`\<close>.
\<close>

definition flagKey :: "string \<Rightarrow> jsval list \<Rightarrow> string" where
  "flagKey prefix parts = prefix @ ''__'' @ join_js ''__'' (map String_js parts)"

text \<open>
  The module-level \<open>flagKey(...parts)\<close> of the interaction helpers returns
  \<open>parts.filter(Boolean).join("|")\<close>.
\<close>

definition flagKey_interactions :: "jsval list \<Rightarrow> string" where
  "flagKey_interactions parts = join_js ''|'' (map String_js (filter Boolean_js parts))"

text \<open>
  A component is separator-safe when it has no two consecutive underscores and does not
  end with an underscore; it is pipe-safe when it is non-empty and has no \<open>|\<close>.
\<close>

fun key_safe :: "string \<Rightarrow> bool" where
  "key_safe [] = True"
| "key_safe [c] = (c \<noteq> CHR ''_'')"
| "key_safe (c # d # r) = ((c \<noteq> CHR ''_'' \<or> d \<noteq> CHR ''_'') \<and> key_safe (d # r))"

definition pipe_safe :: "string \<Rightarrow> bool" where
  "pipe_safe s = (s \<noteq> [] \<and> CHR ''|'' \<notin> set s)"

text \<open>
  The categories that the scene passes to \<open>_flagKey\<close> as \<open>prefix\<close> (every call site of the
  source), and the relation between two categories that lets a key of one read as a key of
  the other: the second continues the first with an underscore.
\<close>

definition sceneFlagCategories :: "string list" where
  "sceneFlagCategories =
     [''__layer_init'', ''__tile_removed'', ''__collider_removed'', ''__take_once'', ''__npcFlipY'',
      ''__npc_pos'', ''__line_effect_once'', ''__int_forced_disabled'', ''__int_forced_enabled'',
      ''__req_satisfied'', ''__set_music_once'', ''__give_once'']"

definition continuesCategory :: "string \<Rightarrow> string \<Rightarrow> bool" where
  "continuesCategory c c' = (take (Suc (length c)) c' = c @ ''_'')"


section \<open>Numbered property groups\<close>

text \<open>
  \<open>_getNumberedKeys(props, baseKey)\<close>: the base key when it is defined, then the loop
  \<open>for (let i = 2; i <= 99; i++)\<close> that breaks at the first undefined \<open>baseKey + i\<close>.
\<close>

function numberedFrom :: "props \<Rightarrow> string \<Rightarrow> nat \<Rightarrow> string list" where
  "numberedFrom props baseKey i =
     (if i \<le> 99 then
        (if getp props (baseKey @ string_of_nat i) = JUndefined then []
         else (baseKey @ string_of_nat i) # numberedFrom props baseKey (i + 1))
      else [])"
  by pat_completeness auto
termination
  by (relation "measure (\<lambda>(props, baseKey, i). 100 - i)") auto

declare numberedFrom.simps [simp del]

definition getNumberedKeys :: "props \<Rightarrow> string \<Rightarrow> string list" where
  "getNumberedKeys props baseKey =
     (if getp props baseKey \<noteq> JUndefined then [baseKey] else []) @ numberedFrom props baseKey 2"

text \<open>
  \<open>_getNumberedPropLines(props, baseKey)\<close> of the follower-dialogue helpers collects the
  trimmed non-blank values: the base key first, then the loop
  \<open>for (let i = 2; i <= 50; i += 1)\<close> that breaks at the first key not in the table.
\<close>

definition lineOf :: "jsval \<Rightarrow> string list" where
  \<comment> \<open>\<open>if (v !== undefined && String(v).trim()) out.push(String(v).trim())\<close>\<close>
  "lineOf v = (if v \<noteq> JUndefined \<and> trim (String_js v) \<noteq> [] then [trim (String_js v)] else [])"

function propLinesFrom :: "props \<Rightarrow> string \<Rightarrow> nat \<Rightarrow> string list" where
  "propLinesFrom props k0 i =
     (if i \<le> 50 then
        (if props (k0 @ string_of_nat i) = None then []
         else lineOf (getp props (k0 @ string_of_nat i)) @ propLinesFrom props k0 (i + 1))
      else [])"
  by pat_completeness auto
termination
  by (relation "measure (\<lambda>(props, k0, i). 51 - i)") auto

declare propLinesFrom.simps [simp del]

definition getNumberedPropLines :: "props \<Rightarrow> jsval \<Rightarrow> string list" where
  "getNumberedPropLines props baseKey =
     (let k0 = toLowerCase (str baseKey) in
      if k0 = [] then []
      else lineOf (getp props k0) @ propLinesFrom props k0 2)"


section \<open>GameState: the shared session store\<close>

text \<open>
  \<open>GameState\<close> is one mutable object shared by all scenes; every function below takes
  it and returns it updated. Elapsed time, clock readings and positions are reals.
  \<open>interactLockUntil\<close> is \<open>GameState.input.interactLockUntil\<close>; \<open>counts\<close>, \<open>disabled\<close> and
  \<open>choices\<close> are the three maps of \<open>GameState.interactions\<close>; \<open>sceneMusicOverride\<close> is the
  object kept under \<open>GameState.flags.__sceneMusicOverride\<close>, the only flag that is not a
  scalar.
\<close>

record GameState =
  score :: int
  helpScore :: int
  realTimeMs :: real
  interactLockUntil :: real
  inventory :: "string \<rightharpoonup> int"
  counts :: "string \<rightharpoonup> int"
  disabled :: "string \<rightharpoonup> bool"
  choices :: "string \<rightharpoonup> int"
  hiddenLayers :: "string \<rightharpoonup> (string \<rightharpoonup> bool)"
  flags :: "string \<rightharpoonup> jsval"
  sceneMusicOverride :: "string \<rightharpoonup> string"
  npcsHelped :: "string \<rightharpoonup> bool"

definition addItem :: "string \<Rightarrow> int \<Rightarrow> GameState \<Rightarrow> GameState" where
  "addItem item count gs =
     (let k = trim item in
      if k = [] then gs
      else gs\<lparr>inventory := (inventory gs)(k \<mapsto> (case inventory gs k of None \<Rightarrow> 0 | Some n \<Rightarrow> n) + count)\<rparr>)"

definition removeItem :: "string \<Rightarrow> int \<Rightarrow> GameState \<Rightarrow> GameState" where
  "removeItem item count gs =
     (let k = trim item in
      if k = [] then gs
      else gs\<lparr>inventory :=
        (inventory gs)(k \<mapsto> max 0 ((case inventory gs k of None \<Rightarrow> 0 | Some n \<Rightarrow> n) - count))\<rparr>)"

definition hasItem :: "string \<Rightarrow> GameState \<Rightarrow> bool" where
  "hasItem item gs =
     (let k = trim item in
      if k = [] then False
      else (case inventory gs k of None \<Rightarrow> 0 | Some n \<Rightarrow> n) \<ge> 1)"

definition incrementInteractionCount :: "string \<Rightarrow> GameState \<Rightarrow> int \<times> GameState" where
  "incrementInteractionCount ident gs =
     (let k = trim ident in
      if k = [] then (0, gs)
      else (let n = (case counts gs k of None \<Rightarrow> 0 | Some n \<Rightarrow> n) + 1
            in (n, gs\<lparr>counts := (counts gs)(k \<mapsto> n)\<rparr>)))"

definition disableInteraction :: "string \<Rightarrow> GameState \<Rightarrow> GameState" where
  "disableInteraction ident gs =
     (let k = trim ident in
      if k = [] then gs else gs\<lparr>disabled := (disabled gs)(k \<mapsto> True)\<rparr>)"

definition isInteractionDisabled :: "string \<Rightarrow> GameState \<Rightarrow> bool" where
  "isInteractionDisabled ident gs =
     (let k = trim ident in
      if k = [] then False else disabled gs k = Some True)"

definition setLayerHidden :: "string \<Rightarrow> string \<Rightarrow> bool \<Rightarrow> GameState \<Rightarrow> GameState" where
  "setLayerHidden sceneKey layerName hidden gs =
     (let sk = trim sceneKey; ln = trim layerName in
      if sk = [] \<or> ln = [] then gs
      else gs\<lparr>hiddenLayers := (hiddenLayers gs)
             (sk \<mapsto> (case hiddenLayers gs sk of None \<Rightarrow> Map.empty | Some m \<Rightarrow> m)(ln \<mapsto> hidden))\<rparr>)"

definition addHelp :: "int \<Rightarrow> GameState \<Rightarrow> GameState" where
  "addHelp n gs = gs\<lparr>helpScore := helpScore gs + n\<rparr>"

definition addScore :: "int \<Rightarrow> GameState \<Rightarrow> GameState" where
  "addScore n gs = gs\<lparr>score := score gs + n\<rparr>"

definition markHelped :: "string \<Rightarrow> bool \<Rightarrow> GameState \<Rightarrow> GameState" where
  "markHelped npcName v gs =
     (let k = trim npcName in
      if k = [] then gs else gs\<lparr>npcsHelped := (npcsHelped gs)(k \<mapsto> v)\<rparr>)"

definition isHelped :: "string \<Rightarrow> GameState \<Rightarrow> bool" where
  "isHelped npcName gs = (npcsHelped gs (trim npcName) = Some True)"

definition lockInteract :: "real \<Rightarrow> real \<Rightarrow> GameState \<Rightarrow> GameState" where
  \<comment> \<open>\<open>lockInteract(scene, ms)\<close> at clock reading \<open>now\<close>\<close>
  "lockInteract now ms gs = gs\<lparr>interactLockUntil := max (interactLockUntil gs) (now + ms)\<rparr>"

definition canWorldInteract :: "real \<Rightarrow> GameState \<Rightarrow> bool" where
  "canWorldInteract now gs = (now \<ge> interactLockUntil gs)"

definition getAnyFlag :: "string \<Rightarrow> GameState \<Rightarrow> jsval" where
  "getAnyFlag k gs = getp (flags gs) k"

definition setAnyFlag :: "string \<Rightarrow> jsval \<Rightarrow> GameState \<Rightarrow> GameState" where
  "setAnyFlag k v gs = gs\<lparr>flags := (flags gs)(k \<mapsto> v)\<rparr>"


section \<open>The per-frame step and the global clock\<close>

text \<open>
  \<open>_tickGlobalRealTime\<close> reads the frame delta (\<open>None\<close> when it is missing or not a
  finite number) and adds it when it is positive.
\<close>

definition tickGlobalRealTime :: "real option \<Rightarrow> GameState \<Rightarrow> GameState" where
  "tickGlobalRealTime delta gs =
     (case delta of
        None \<Rightarrow> gs
      | Some d \<Rightarrow> if d \<le> 0 then gs else gs\<lparr>realTimeMs := realTimeMs gs + d\<rparr>)"

text \<open>
  \<open>baseUpdateFrame\<close>. The scene is the session store, the dialogue box's \<open>active\<close> flag
  and everything else the scene owns. The steps of the frame other than the clock tick
  (hints and overlay, movement, trigger zones, interaction, followers, moving NPCs,
  animations) are parameters: \<open>pre\<close> runs before the dialogue test, \<open>inDialogue\<close> is the
  branch taken while a dialogue is active, \<open>afterTick\<close> is the rest of a normal frame.
\<close>

record 'w scene =
  gameState :: GameState
  dialogueIsActive :: bool
  world :: 'w

definition baseUpdateFrame ::
  "('w scene \<Rightarrow> 'w scene) \<Rightarrow> ('w scene \<Rightarrow> 'w scene) \<Rightarrow> (bool \<Rightarrow> 'w scene \<Rightarrow> 'w scene) \<Rightarrow>
   real option \<Rightarrow> bool \<Rightarrow> 'w scene \<Rightarrow> 'w scene \<times> bool" where
  "baseUpdateFrame pre inDialogue afterTick delta allowMovement s =
     (let s1 = pre s in
      if dialogueIsActive s1 then (inDialogue s1, False)
      else (afterTick allowMovement
              (s1\<lparr>gameState := tickGlobalRealTime delta (gameState s1)\<rparr>), True))"

definition keepsClock :: "('w scene \<Rightarrow> 'w scene) \<Rightarrow> bool" where
  \<comment> \<open>a step that does not assign \<open>GameState.realTimeMs\<close>\<close>
  "keepsClock f = (\<forall>s. realTimeMs (gameState (f s)) = realTimeMs (gameState s))"


text \<open>The store as the module creates it at session start.\<close>

definition initialGameState :: GameState where
  "initialGameState =
     \<lparr>score = 0, helpScore = 0, realTimeMs = 0, interactLockUntil = 0,
      inventory = Map.empty, counts = Map.empty, disabled = Map.empty, choices = Map.empty,
      hiddenLayers = Map.empty,
      flags = [''hasHairpin'' \<mapsto> JBool False, ''sagaPath'' \<mapsto> JNull,
               ''sagaJoined'' \<mapsto> JBool False, ''gladOutcome'' \<mapsto> JNull,
               ''aloiseFollowing'' \<mapsto> JBool False, ''aloiseParty'' \<mapsto> JBool False,
               ''aloiseForestIntroShown'' \<mapsto> JBool False,
               ''minesweeperCleared'' \<mapsto> JBool False,
               ''minesweeperBoardCleared'' \<mapsto> JBool False],
      sceneMusicOverride = Map.empty, npcsHelped = Map.empty\<rparr>"


section \<open>NPC waypoint mover\<close>

text \<open>
  A spawned NPC as the mover sees it: whether it is a sprite with a display object
  (\<open>npc.isSprite\<close>, \<open>npc.rect\<close>), the position of that object, the velocity of its physics
  body, its facing and the last animation request \<open>playCharacterAnim(spr, prefix, dir, moving)\<close>.
  The physics engine, which integrates the velocity between frames, is a parameter.
\<close>

record npc =
  isSprite :: bool
  hasRect :: bool
  npc_x :: real
  npc_y :: real
  velocity :: "real \<times> real"
  facing :: "string option"
  defaultFacing :: "string option"
  anim :: "string \<times> bool"

text \<open>The movement state that \<open>moveSpawnedNpcAlongWaypoints\<close> stores per NPC id.\<close>

record waypointState =
  points :: "(real \<times> real) list"
  idx :: nat
  speed :: real
  arriveDist :: real
  faceWhileMoving :: bool
  walkAnim :: bool

text \<open>
  \<open>_spawnedNpcsById\<close> is a map; \<open>_movingNpcById\<close> is a JavaScript \<open>Map\<close>, iterated in
  insertion order, modelled as an association list.
\<close>

record npcScene =
  spawnedNpcsById :: "string \<rightharpoonup> npc"
  movingNpcById :: "(string \<times> waypointState) list"

definition orElse :: "real \<Rightarrow> real \<Rightarrow> real" where
  \<comment> \<open>\<open>Number(a) || b\<close> on a number \<open>a\<close>\<close>
  "orElse a b = (if a = 0 then b else a)"

definition hypot :: "real \<Rightarrow> real \<Rightarrow> real" where
  "hypot dx dy = sqrt (dx * dx + dy * dy)"

definition idleFacing :: "npc \<Rightarrow> string" where
  \<comment> \<open>\<open>npc.facing ?? npc.defaultFacing ?? "down"\<close>\<close>
  "idleFacing n = (case facing n of Some f \<Rightarrow> f
                   | None \<Rightarrow> (case defaultFacing n of Some f \<Rightarrow> f | None \<Rightarrow> ''down''))"

definition stopNpc :: "npc \<Rightarrow> npc" where
  \<comment> \<open>\<open>body.setVelocity(0, 0)\<close> and the idle animation\<close>
  "stopNpc n = n\<lparr>velocity := (0, 0), anim := (idleFacing n, False)\<rparr>"

definition arrivalMet :: "waypointState \<Rightarrow> npc \<Rightarrow> bool" where
  \<comment> \<open>\<open>dist <= arrive || (Math.abs(dx) <= arrive && Math.abs(dy) <= arrive)\<close>\<close>
  "arrivalMet st n =
     (let target = points st ! idx st;
          dx = fst target - npc_x n;
          dy = snd target - npc_y n;
          arrive = max 6 (orElse (arriveDist st) 2)
      in hypot dx dy \<le> arrive \<or> (\<bar>dx\<bar> \<le> arrive \<and> \<bar>dy\<bar> \<le> arrive))"

definition steer :: "waypointState \<Rightarrow> npc \<Rightarrow> npc" where
  \<comment> \<open>not yet there: velocity toward the target at constant speed, facing, walk animation\<close>
  "steer st n =
     (let target = points st ! idx st;
          dx = fst target - npc_x n;
          dy = snd target - npc_y n;
          dist = hypot dx dy;
          spd = max 1 (orElse (speed st) 40);
          nx = dx / dist;
          ny = dy / dist;
          n1 = n\<lparr>velocity := (nx * spd, ny * spd)\<rparr>;
          n2 = (if faceWhileMoving st then
                  n1\<lparr>facing := Some (if \<bar>nx\<bar> > \<bar>ny\<bar> then (if nx < 0 then ''left'' else ''right'')
                                     else (if ny < 0 then ''up'' else ''down''))\<rparr>
                else n1)
      in n2\<lparr>anim := (case facing n2 of Some f \<Rightarrow> f | None \<Rightarrow> ''down'', walkAnim st)\<rparr>)"

text \<open>
  One iteration of the loop of \<open>updateMovingNpcs\<close> for the entry \<open>(id, st)\<close>: the updated
  NPC table, and the entry's new state (\<open>None\<close> when the entry is deleted).
\<close>

definition moveEntry ::
  "string \<Rightarrow> waypointState \<Rightarrow> (string \<rightharpoonup> npc) \<Rightarrow> (string \<rightharpoonup> npc) \<times> waypointState option" where
  "moveEntry ident st spawned =
     (case spawned ident of
        None \<Rightarrow> (spawned, None)
      | Some n \<Rightarrow>
          if \<not> isSprite n \<or> \<not> hasRect n then (spawned, None)
          else if points st = [] \<or> idx st \<ge> length (points st)
            then (spawned(ident \<mapsto> stopNpc n), None)
          else if arrivalMet st n then
            (let target = points st ! idx st;
                 n1 = n\<lparr>npc_x := fst target, npc_y := snd target, velocity := (0, 0)\<rparr>
             in if idx st + 1 \<ge> length (points st)
                then (spawned(ident \<mapsto> stopNpc n1), None)
                else (spawned(ident \<mapsto> n1), Some (st\<lparr>idx := idx st + 1\<rparr>)))
          else (spawned(ident \<mapsto> steer st n), Some st))"

fun moveEntries ::
  "(string \<times> waypointState) list \<Rightarrow> (string \<rightharpoonup> npc) \<Rightarrow>
   (string \<rightharpoonup> npc) \<times> (string \<times> waypointState) list" where
  "moveEntries [] spawned = (spawned, [])"
| "moveEntries ((ident, st) # es) spawned =
     (let (spawned1, r) = moveEntry ident st spawned;
          (spawned2, es') = moveEntries es spawned1
      in (spawned2, (case r of None \<Rightarrow> es' | Some st' \<Rightarrow> (ident, st') # es')))"

definition updateMovingNpcs :: "npcScene \<Rightarrow> npcScene" where
  "updateMovingNpcs s =
     (let (spawned, es) = moveEntries (movingNpcById s) (spawnedNpcsById s)
      in s\<lparr>spawnedNpcsById := spawned, movingNpcById := es\<rparr>)"

definition isSpawnedNpcMoving :: "string \<Rightarrow> npcScene \<Rightarrow> bool" where
  "isSpawnedNpcMoving npcId s =
     (let ident = trim npcId in
      if ident = [] then False else map_of (movingNpcById s) ident \<noteq> None)"

definition npcAt :: "string \<Rightarrow> npcScene \<Rightarrow> (real \<times> real) option" where
  \<comment> \<open>the position of a registered NPC\<close>
  "npcAt ident s = map_option (\<lambda>n. (npc_x n, npc_y n)) (spawnedNpcsById s ident)"


text \<open>
  The physics engine is not part of the program. Between two calls of \<open>updateMovingNpcs\<close>
  it advances every body by its velocity; it is the parameter \<open>phys\<close> of the frame runner:
  a frame is the scene's call of \<open>updateMovingNpcs\<close> followed by the physics step.
  \<open>movesFreely dt ident phys\<close> says that the step moves the display object of the NPC
  \<open>ident\<close> by its velocity times \<open>dt\<close>, unobstructed, and leaves the movement states alone.
\<close>

fun runFrames :: "(npcScene \<Rightarrow> npcScene) \<Rightarrow> nat \<Rightarrow> npcScene \<Rightarrow> npcScene" where
  "runFrames phys 0 s = s"
| "runFrames phys (Suc k) s = runFrames phys k (phys (updateMovingNpcs s))"

definition movesFreely :: "real \<Rightarrow> string \<Rightarrow> (npcScene \<Rightarrow> npcScene) \<Rightarrow> bool" where
  "movesFreely dt ident phys =
     (\<forall>s. movingNpcById (phys s) = movingNpcById s \<and>
          spawnedNpcsById (phys s) ident =
            map_option (\<lambda>n. n\<lparr>npc_x := npc_x n + fst (velocity n) * dt,
                               npc_y := npc_y n + snd (velocity n) * dt\<rparr>)
              (spawnedNpcsById s ident))"

definition waypointDistance :: "real \<times> real \<Rightarrow> npc \<Rightarrow> real" where
  \<comment> \<open>\<open>Math.hypot(target.x - spr.x, target.y - spr.y)\<close>\<close>
  "waypointDistance w n = hypot (fst w - npc_x n) (snd w - npc_y n)"

text \<open>
  The two phases of a single-waypoint movement: the NPC is a registered sprite with its
  entry in the moving-NPC map, or it stands on the waypoint, at rest, with no entry.
\<close>

definition enRoute :: "string \<Rightarrow> waypointState \<Rightarrow> npcScene \<Rightarrow> bool" where
  "enRoute ident st s =
     (distinct (map fst (movingNpcById s)) \<and> (ident, st) \<in> set (movingNpcById s) \<and>
      (case spawnedNpcsById s ident of None \<Rightarrow> False | Some n \<Rightarrow> isSprite n \<and> hasRect n))"

definition arrivedAt :: "string \<Rightarrow> real \<times> real \<Rightarrow> npcScene \<Rightarrow> bool" where
  "arrivedAt ident w s =
     (ident \<notin> fst ` set (movingNpcById s) \<and>
      (case spawnedNpcsById s ident of None \<Rightarrow> False
       | Some n \<Rightarrow> npc_x n = fst w \<and> npc_y n = snd w \<and> velocity n = (0, 0)))"


text \<open>
  An NPC sprite standing at (100, 50), a single-waypoint movement state with the waypoint
  40 pixels away, and a physics step that moves every sprite freely.
\<close>

definition exampleNpc :: npc where
  "exampleNpc = \<lparr>isSprite = True, hasRect = True, npc_x = 100, npc_y = 50, velocity = (0, 0),
     facing = None, defaultFacing = None, anim = (''down'', False)\<rparr>"

definition exampleWaypointState :: waypointState where
  "exampleWaypointState = \<lparr>points = [(140, 50)], idx = 0, speed = 40, arriveDist = 2,
     faceWhileMoving = True, walkAnim = True\<rparr>"

definition exampleNpcScene :: npcScene where
  "exampleNpcScene = \<lparr>spawnedNpcsById = [''Glad'' \<mapsto> exampleNpc],
       movingNpcById = [(''Glad'', exampleWaypointState)]\<rparr>"

definition exampleFreeMotion :: "real \<Rightarrow> npcScene \<Rightarrow> npcScene" where
  "exampleFreeMotion dt s =
     s\<lparr>spawnedNpcsById := (\<lambda>i. map_option (\<lambda>n. n\<lparr>npc_x := npc_x n + fst (velocity n) * dt,
                                                   npc_y := npc_y n + snd (velocity n) * dt\<rparr>)
                                  (spawnedNpcsById s i))\<rparr>"


section \<open>Numbers and comma-separated lists in property values\<close>

text \<open>
  \<open>Number(v)\<close> gives a number or \<open>NaN\<close> (\<open>None\<close>). A string is read as a number when,
  trimmed, it is empty (0) or a signed decimal integer; other numeric spellings
  (fractions, exponents, hexadecimal) are outside the model and read as \<open>NaN\<close>.
\<close>

definition digit_of :: "char \<Rightarrow> nat option" where
  "digit_of c = map_of (zip ''0123456789'' [0, 1, 2, 3, 4, 5, 6, 7, 8, 9]) c"

fun parse_digits :: "string \<Rightarrow> nat \<Rightarrow> nat option" where
  "parse_digits [] acc = Some acc"
| "parse_digits (c # cs) acc =
     (case digit_of c of None \<Rightarrow> None | Some d \<Rightarrow> parse_digits cs (10 * acc + d))"

definition parse_int :: "string \<Rightarrow> int option" where
  "parse_int s =
     (case s of
        [] \<Rightarrow> None
      | c # cs \<Rightarrow>
          if c = CHR ''-'' then (if cs = [] then None else map_option (\<lambda>n. - int n) (parse_digits cs 0))
          else if c = CHR ''+'' then (if cs = [] then None else map_option int (parse_digits cs 0))
          else map_option int (parse_digits s 0))"

fun Number_js :: "jsval \<Rightarrow> real option" where
  "Number_js JUndefined = None"
| "Number_js JNull = Some 0"
| "Number_js (JBool b) = Some (if b then 1 else 0)"
| "Number_js (JNum n) = Some (of_int n)"
| "Number_js (JStr s) =
     (let t = trim s in if t = [] then Some 0 else map_option of_int (parse_int t))"

definition numberOr :: "jsval \<Rightarrow> real \<Rightarrow> real option" where
  \<comment> \<open>\<open>Number(v ?? d)\<close> for a numeric default \<open>d\<close>\<close>
  "numberOr v d = (if v = JUndefined \<or> v = JNull then Some d else Number_js v)"

fun split_on :: "char \<Rightarrow> string \<Rightarrow> string list" where
  "split_on c [] = [[]]"
| "split_on c (x # xs) =
     (if x = c then [] # split_on c xs
      else (case split_on c xs of [] \<Rightarrow> [[x]] | w # ws \<Rightarrow> (x # w) # ws))"

definition splitCsv :: "jsval \<Rightarrow> string list" where
  \<comment> \<open>\<open>splitCsv(v)\<close> on a scalar property value\<close>
  "splitCsv v =
     (if \<not> Boolean_js v then []
      else filter (\<lambda>s. s \<noteq> []) (map trim (split_on CHR '','' (String_js v))))"


section \<open>Dialogue scripts\<close>

text \<open>
  A script is an array of steps. The functions a script carries (\<open>run\<close> of an action,
  \<open>onSelect\<close> of a choice or of an option, the completion callback) are closures over the
  scene; they are represented by tokens of a type \<open>'a\<close>, and the component that calls one
  records the token. \<open>next\<close> of an option is \<open>Some n\<close> when \<open>typeof next === "number"\<close>
  (an integer index). \<open>Untyped\<close> stands for an entry that is falsy, has no \<open>type\<close>, or
  has a type the runner does not know.
\<close>

datatype 'a choiceOption = ChoiceOption string "int option" "'a option"

fun optionText :: "'a choiceOption \<Rightarrow> string" where
  "optionText (ChoiceOption t n f) = t"

fun optionNext :: "'a choiceOption \<Rightarrow> int option" where
  "optionNext (ChoiceOption t n f) = n"

fun optionOnSelect :: "'a choiceOption \<Rightarrow> 'a option" where
  "optionOnSelect (ChoiceOption t n f) = f"

datatype 'a step =
    Say string string
  | Pause real
  | Choice string "'a choiceOption list" "'a option"
  | Action "'a option"
  | End
  | Untyped


section \<open>Walk-in trigger zones\<close>

text \<open>
  An object of the level document and the registry entry built from it. \<open>parseProps\<close>
  lower-cases and trims the property names; entries with an empty name are skipped and a
  later entry overwrites an earlier one.
\<close>

record tiledObject =
  obj_name :: string
  obj_x :: "real option"
  obj_y :: "real option"
  obj_width :: "real option"
  obj_height :: "real option"
  properties :: "(string \<times> jsval) list"

definition normKey :: "string \<Rightarrow> string" where
  "normKey n = toLowerCase (trim n)"

definition parseProps :: "tiledObject \<Rightarrow> props" where
  "parseProps obj =
     fold (\<lambda>(n, v) out. if normKey n = [] then out else out(normKey n \<mapsto> v)) (properties obj) Map.empty"

definition propKeys :: "tiledObject \<Rightarrow> string list" where
  \<comment> \<open>\<open>Object.keys(parseProps(obj))\<close>, up to order and repetition\<close>
  "propKeys obj = filter (\<lambda>k. k \<noteq> []) (map (\<lambda>(n, v). normKey n) (properties obj))"

record interactable =
  it_id :: string
  it_center :: "(real \<times> real) option"
  it_w :: real
  it_h :: real
  tiledObj :: "tiledObject option"

text \<open>
  What \<open>updateAutoTriggerZones\<close> calls outside the scene state is recorded, in call order,
  in an effect log: sounds, camera shake, the physics body reset, a started dialogue, the
  call \<open>scene._runTiledInteraction(obj)\<close> of the interaction runner (modelled below as
  \<open>runTiledInteraction\<close>; it can itself shake the camera, play sounds and start a dialogue),
  zone audio start and stop.
\<close>

datatype 'a effect =
    SoundPlay string
  | CameraShake real "real option"
  | BodyReset "real option" "real option"
  | DialogueStart "'a step list"
  | RunTiledInteraction tiledObject
  | StartZoneAudio string
  | StopZoneAudio string
  | StopZoneDuck string

record 'a zoneWorld =
  sceneKey :: string
  playerX :: "real option"
  playerY :: "real option"
  prevPlayerPos :: "(real option \<times> real option) option"
  denyCooldownUntil :: "real option"
  triggerInside :: "string set"
  triggerExitArmed :: "string set"
  layerVisible :: "string \<rightharpoonup> bool"
  interactables :: "interactable list"
  fx :: "'a effect list"

record audioEnv =
  resolveAudioKey :: "string \<Rightarrow> string"
  audioExists :: "string \<Rightarrow> bool"

text \<open>
  The program computes positions in double precision. The arithmetic of the push formula is
  therefore a parameter: the five operations it uses, on numbers that stand for the values
  of doubles. \<open>exactOps\<close> is the arithmetic of the real numbers, without rounding.
\<close>

record floatOps =
  fadd :: "real \<Rightarrow> real \<Rightarrow> real"
  fsub :: "real \<Rightarrow> real \<Rightarrow> real"
  fmul :: "real \<Rightarrow> real \<Rightarrow> real"
  fdiv :: "real \<Rightarrow> real \<Rightarrow> real"
  fhypot :: "real \<Rightarrow> real \<Rightarrow> real"

definition exactOps :: floatOps where
  "exactOps = \<lparr>fadd = (+), fsub = (-), fmul = (*), fdiv = (/), fhypot = hypot\<rparr>"

definition logFx :: "'a effect \<Rightarrow> 'a zoneWorld scene \<Rightarrow> 'a zoneWorld scene" where
  "logFx e s = s\<lparr>world := (world s)\<lparr>fx := fx (world s) @ [e]\<rparr>\<rparr>"

definition applyLayerVisibility :: "jsval \<Rightarrow> bool \<Rightarrow> 'a zoneWorld scene \<Rightarrow> 'a zoneWorld scene" where
  "applyLayerVisibility namesCsv visible s =
     fold (\<lambda>lname s.
        case layerVisible (world s) lname of
          None \<Rightarrow> s
        | Some old \<Rightarrow>
            s\<lparr>world := (world s)\<lparr>layerVisible := (layerVisible (world s))(lname \<mapsto> visible)\<rparr>,
              gameState := setLayerHidden (sceneKey (world s)) lname (\<not> visible) (gameState s)\<rparr>)
       (splitCsv namesCsv) s"

definition startsWith :: "string \<Rightarrow> string \<Rightarrow> bool" where
  "startsWith s p = (take (length p) s = p)"

fun stringIncludes :: "string \<Rightarrow> string \<Rightarrow> bool" where
  "stringIncludes [] p = (p = [])"
| "stringIncludes (c # s) p = (startsWith (c # s) p \<or> stringIncludes s p)"

definition firesScript :: "tiledObject \<Rightarrow> props \<Rightarrow> bool" where
  \<comment> \<open>a trigger zone runs its interaction script on enter when it has dialogue or effects\<close>
  "firesScript obj props =
     (let isTrigger = (getp props ''autofire'' = JBool True \<or> isTrue (getp props ''trigger''));
          hasDialogue = (str (getp props ''dialogue'') \<noteq> [] \<or>
                         (\<exists>k \<in> set (propKeys obj). startsWith k ''dialogue'') \<or>
                         (\<exists>k \<in> set (propKeys obj). stringIncludes k ''postdialogue''));
          hasFx = (str (nullish (getp props ''sfx'')
                          (nullish (getp props ''presfx'') (getp props ''zonesfx''))) \<noteq> [] \<or>
                   getp props ''shake'' \<noteq> JUndefined)
      in isTrigger \<and> (hasDialogue \<or> hasFx))"

definition triggerRun ::
  "tiledObject \<Rightarrow> props \<Rightarrow> 'a zoneWorld scene \<Rightarrow> 'a zoneWorld scene" where
  \<comment> \<open>\<open>scene._runTiledInteraction(obj)\<close>, on every enter and outside the cooldown test\<close>
  "triggerRun obj props s = (if firesScript obj props then logFx (RunTiledInteraction obj) s else s)"

definition zoneFiresScript :: "interactable \<Rightarrow> bool" where
  "zoneFiresScript it = (case tiledObj it of None \<Rightarrow> False | Some obj \<Rightarrow> firesScript obj (parseProps obj))"

definition pushPlayer ::
  "floatOps \<Rightarrow> real \<Rightarrow> real \<Rightarrow> real \<Rightarrow> real \<Rightarrow> props \<Rightarrow> 'a zoneWorld scene \<Rightarrow> 'a zoneWorld scene" where
  \<comment> \<open>\<open>denyMode = "push"\<close>\<close>
  "pushPlayer ar px py cx cy props s =
     (let push = numberOr (getp props ''denypush'') 12;
          dx = fsub ar px cx;
          dy = fsub ar py cy;
          d = orElse (fhypot ar dx dy) 1;
          nx = map_option (\<lambda>p. fadd ar px (fmul ar (fdiv ar dx d) p)) push;
          ny = map_option (\<lambda>p. fadd ar py (fmul ar (fdiv ar dy d) p)) push
      in logFx (BodyReset nx ny) (s\<lparr>world := (world s)\<lparr>playerX := nx, playerY := ny\<rparr>\<rparr>))"

definition rewindPlayer :: "'a zoneWorld scene \<Rightarrow> 'a zoneWorld scene" where
  \<comment> \<open>\<open>denyMode = "rewind"\<close> (the default): back to the position before this frame's movement\<close>
  "rewindPlayer s =
     (case prevPlayerPos (world s) of
        None \<Rightarrow> s
      | Some (x, y) \<Rightarrow> logFx (BodyReset x y) (s\<lparr>world := (world s)\<lparr>playerX := x, playerY := y\<rparr>\<rparr>))"

definition cooldownOver :: "real \<Rightarrow> real option \<Rightarrow> bool" where
  \<comment> \<open>\<open>now >= scene._denyCooldownUntil\<close>; false when the stored value is \<open>NaN\<close>\<close>
  "cooldownOver now u = (case u of None \<Rightarrow> False | Some t \<Rightarrow> now \<ge> t)"

definition denyFeedback ::
  "audioEnv \<Rightarrow> floatOps \<Rightarrow> real \<Rightarrow> real \<Rightarrow> real \<Rightarrow> real \<Rightarrow> real \<Rightarrow> props \<Rightarrow>
   'a zoneWorld scene \<Rightarrow> 'a zoneWorld scene" where
  \<comment> \<open>the body of \<open>if (now >= scene._denyCooldownUntil)\<close>\<close>
  "denyFeedback env ar now px py cx cy props s =
     (let cd = numberOr (getp props ''denycooldownms'') 600;
          s1 = s\<lparr>world := (world s)\<lparr>denyCooldownUntil := map_option (\<lambda>c. now + c) cd\<rparr>\<rparr>;
          denySfxName = str (getp props ''denysfx'');
          denyKey = (if denySfxName = [] then [] else resolveAudioKey env denySfxName);
          s2 = (if denyKey \<noteq> [] \<and> audioExists env denyKey then logFx (SoundPlay denyKey) s1 else s1);
          shakeMs = numberOr (getp props ''denyshakems'') 0;
          s3 = (case shakeMs of
                  None \<Rightarrow> s2
                | Some m \<Rightarrow> if m > 0
                    then logFx (CameraShake m (numberOr (getp props ''denyshakeintensity'') (1 / 100))) s2
                    else s2);
          mode = toLowerCase (String_js (nullish (getp props ''denymode'') (JStr ''rewind'')));
          s4 = (if mode = ''push'' then pushPlayer ar px py cx cy props s3 else rewindPlayer s3);
          denyDialogue = str (nullish (getp props ''denydialogue'') (JStr (''You can'' @ [CHR 0x27] @ ''t go there.'')))
      in if denyDialogue \<noteq> [] then logFx (DialogueStart [Say [] denyDialogue, End]) s4 else s4)"

definition denyOnEnter ::
  "audioEnv \<Rightarrow> floatOps \<Rightarrow> real \<Rightarrow> real \<Rightarrow> real \<Rightarrow> real \<Rightarrow> real \<Rightarrow> props \<Rightarrow>
   'a zoneWorld scene \<Rightarrow> 'a zoneWorld scene" where
  "denyOnEnter env ar now px py cx cy props s =
     (if isTrue (getp props ''deny'') then
        (if cooldownOver now (denyCooldownUntil (world s))
         then denyFeedback env ar now px py cx cy props s else s)
      else s)"

definition zoneEnter ::
  "audioEnv \<Rightarrow> floatOps \<Rightarrow> real \<Rightarrow> real \<Rightarrow> real \<Rightarrow> real \<Rightarrow> real \<Rightarrow> string \<Rightarrow> tiledObject \<Rightarrow> props \<Rightarrow>
   'a zoneWorld scene \<Rightarrow> 'a zoneWorld scene" where
  \<comment> \<open>the block \<open>if (inside && !wasInside)\<close>\<close>
  "zoneEnter env ar now px py cx cy ident obj props s =
     (let s1 = s\<lparr>world := (world s)\<lparr>triggerInside := insert ident (triggerInside (world s)),
                                     triggerExitArmed := insert ident (triggerExitArmed (world s))\<rparr>\<rparr>;
          s2 = applyLayerVisibility (nullish (getp props ''hidelayers'') (getp props ''hidelayer'')) False s1;
          s3 = applyLayerVisibility (nullish (getp props ''showlayers'') (getp props ''showlayer'')) True s2;
          s4 = logFx (StartZoneAudio ident) s3;
          s5 = triggerRun obj props s4;
          s6 = denyOnEnter env ar now px py cx cy props s5;
          once = (isTrue (getp props ''triggeronce'') \<or> isTrue (getp props ''once''))
      in if once then s6\<lparr>gameState := disableInteraction ident (gameState s6)\<rparr> else s6)"

definition zoneExit :: "string \<Rightarrow> props \<Rightarrow> 'a zoneWorld scene \<Rightarrow> 'a zoneWorld scene" where
  \<comment> \<open>the block \<open>if (!inside && wasInside)\<close>\<close>
  "zoneExit ident props s =
     (let s1 = s\<lparr>world := (world s)\<lparr>triggerInside := triggerInside (world s) - {ident}\<rparr>\<rparr>;
          s2 = (if ident \<in> triggerExitArmed (world s1) then
                  applyLayerVisibility (nullish (getp props ''exitshowlayers'') (getp props ''exitshowlayer'')) True
                    (applyLayerVisibility (nullish (getp props ''exithidelayers'') (getp props ''exithidelayer'')) False
                       (s1\<lparr>world := (world s1)\<lparr>triggerExitArmed := triggerExitArmed (world s1) - {ident}\<rparr>\<rparr>))
                else s1)
      in logFx (StopZoneDuck ident) (logFx (StopZoneAudio ident) s2))"

definition isZoneLike :: "props \<Rightarrow> bool" where
  "isZoneLike props =
     (getp props ''autofire'' = JBool True \<or> isTrue (getp props ''trigger'') \<or>
      isTrue (getp props ''deny'') \<or>
      str (getp props ''zonesfx'') \<noteq> [] \<or> str (getp props ''zonemusic'') \<noteq> [] \<or>
      str (getp props ''zoneambience'') \<noteq> [])"

definition zoneCenter :: "interactable \<Rightarrow> tiledObject \<Rightarrow> real \<times> real" where
  \<comment> \<open>\<open>cx = it.center?.x ?? (obj.x ?? 0) + w / 2\<close>, and \<open>cy\<close> alike\<close>
  "zoneCenter it obj =
     (let w = (case obj_width obj of Some v \<Rightarrow> v | None \<Rightarrow> it_w it);
          h = (case obj_height obj of Some v \<Rightarrow> v | None \<Rightarrow> it_h it)
      in case it_center it of
           Some c \<Rightarrow> c
         | None \<Rightarrow> ((case obj_x obj of Some v \<Rightarrow> v | None \<Rightarrow> 0) + w / 2,
                    (case obj_y obj of Some v \<Rightarrow> v | None \<Rightarrow> 0) + h / 2))"

definition insideZone :: "real option \<Rightarrow> real option \<Rightarrow> interactable \<Rightarrow> tiledObject \<Rightarrow> bool" where
  \<comment> \<open>\<open>px >= x0 && px <= x1 && py >= y0 && py <= y1\<close>; false when a coordinate is \<open>NaN\<close>\<close>
  "insideZone px py it obj =
     (let w = (case obj_width obj of Some v \<Rightarrow> v | None \<Rightarrow> it_w it);
          h = (case obj_height obj of Some v \<Rightarrow> v | None \<Rightarrow> it_h it);
          (cx, cy) = zoneCenter it obj;
          x0 = cx - w / 2;
          y0 = cy - h / 2;
          x1 = x0 + w;
          y1 = y0 + h
      in case (px, py) of
           (Some x, Some y) \<Rightarrow> x \<ge> x0 \<and> x \<le> x1 \<and> y \<ge> y0 \<and> y \<le> y1
         | _ \<Rightarrow> False)"

definition zoneStep ::
  "audioEnv \<Rightarrow> floatOps \<Rightarrow> real \<Rightarrow> real option \<Rightarrow> real option \<Rightarrow> interactable \<Rightarrow>
   'a zoneWorld scene \<Rightarrow> 'a zoneWorld scene" where
  \<comment> \<open>one iteration of \<open>for (const it of scene.interactables)\<close>\<close>
  "zoneStep env ar now px py it s =
     (case tiledObj it of
        None \<Rightarrow> s
      | Some obj \<Rightarrow>
          (let props = parseProps obj;
               ident = str (nullish (getp props ''id'') (JStr (obj_name obj)))
           in if ident = [] \<or> \<not> isZoneLike props then s
              else (let inside = insideZone px py it obj;
                        wasInside = (ident \<in> triggerInside (world s));
                        (cx, cy) = zoneCenter it obj
                    in if inside \<and> \<not> wasInside then
                         (case (px, py) of
                            (Some x, Some y) \<Rightarrow> zoneEnter env ar now x y cx cy ident obj props s
                          | _ \<Rightarrow> s)
                       else if \<not> inside \<and> wasInside then zoneExit ident props s
                       else s)))"

definition updateAutoTriggerZones ::
  "audioEnv \<Rightarrow> floatOps \<Rightarrow> real \<Rightarrow> 'a zoneWorld scene \<Rightarrow> 'a zoneWorld scene" where
  "updateAutoTriggerZones env ar now s =
     (if \<not> canWorldInteract now (gameState s) then s
      else fold (zoneStep env ar now (playerX (world s)) (playerY (world s)))
             (interactables (world s)) s)"

definition newFx :: "'a zoneWorld scene \<Rightarrow> 'a zoneWorld scene \<Rightarrow> 'a effect list" where
  \<comment> \<open>the effects that a step from \<open>s\<close> to \<open>s'\<close> added to the log\<close>
  "newFx s s' = drop (length (fx (world s))) (fx (world s'))"

definition isDenyFeedback :: "'a effect \<Rightarrow> bool" where
  \<comment> \<open>feedback to the player: what the deny block produces, and a run of the interaction script\<close>
  "isDenyFeedback e =
     (case e of SoundPlay k \<Rightarrow> True | CameraShake m i \<Rightarrow> True | BodyReset x y \<Rightarrow> True
      | DialogueStart sc \<Rightarrow> True | RunTiledInteraction obj \<Rightarrow> True | _ \<Rightarrow> False)"


text \<open>
  For the statements about the deny cooldown: a step from \<open>s\<close> to \<open>s'\<close> is deny-quiet
  when it adds no feedback to the effect log and leaves the player position and the
  cooldown as they were. \<open>enterPrefix\<close> and \<open>enterSuffix\<close> are the parts of \<open>zoneEnter\<close>
  before and after the deny block.
\<close>

definition denyQuiet :: "'a zoneWorld scene \<Rightarrow> 'a zoneWorld scene \<Rightarrow> bool" where
  "denyQuiet s s' =
     (filter isDenyFeedback (fx (world s')) = filter isDenyFeedback (fx (world s)) \<and>
      playerX (world s') = playerX (world s) \<and> playerY (world s') = playerY (world s) \<and>
      denyCooldownUntil (world s') = denyCooldownUntil (world s))"

definition enterPrefix :: "string \<Rightarrow> tiledObject \<Rightarrow> props \<Rightarrow> 'a zoneWorld scene \<Rightarrow> 'a zoneWorld scene" where
  "enterPrefix ident obj props s =
     triggerRun obj props
       (logFx (StartZoneAudio ident)
         (applyLayerVisibility (nullish (getp props ''showlayers'') (getp props ''showlayer'')) True
           (applyLayerVisibility (nullish (getp props ''hidelayers'') (getp props ''hidelayer'')) False
             (s\<lparr>world := (world s)\<lparr>triggerInside := insert ident (triggerInside (world s)),
                   triggerExitArmed := insert ident (triggerExitArmed (world s))\<rparr>\<rparr>))))"

definition enterSuffix :: "string \<Rightarrow> props \<Rightarrow> 'a zoneWorld scene \<Rightarrow> 'a zoneWorld scene" where
  "enterSuffix ident props s =
     (if isTrue (getp props ''triggeronce'') \<or> isTrue (getp props ''once'')
      then s\<lparr>gameState := disableInteraction ident (gameState s)\<rparr> else s)"

text \<open>
  A deny zone in push mode: the square from (0, 0) to (32, 32), centre (16, 16), with the
  default cooldown; a second deny zone beside it; a third that is also a trigger with a
  camera shake; and a scene whose player stands on the upper edge of the first.
\<close>

definition exampleDenyObject :: tiledObject where
  "exampleDenyObject =
     \<lparr>obj_name = ''gate'', obj_x = Some 0, obj_y = Some 0, obj_width = Some 32, obj_height = Some 32,
      properties = [(''id'', JStr ''gate''), (''deny'', JBool True), (''denyMode'', JStr ''push''),
                    (''denyPush'', JNum 12)]\<rparr>"

definition exampleDenyZone :: interactable where
  "exampleDenyZone =
     \<lparr>it_id = ''gate'', it_center = Some (16, 16), it_w = 32, it_h = 32,
      tiledObj = Some exampleDenyObject\<rparr>"

definition exampleDenyZone2 :: interactable where
  "exampleDenyZone2 =
     \<lparr>it_id = ''fence'', it_center = None, it_w = 32, it_h = 32,
      tiledObj = Some \<lparr>obj_name = ''fence'', obj_x = Some 32, obj_y = Some 0, obj_width = Some 32,
        obj_height = Some 32, properties = [(''deny'', JStr ''true''), (''denyCooldownMs'', JNum 1000)]\<rparr>\<rparr>"

definition exampleAlarmObject :: tiledObject where
  \<comment> \<open>a deny zone that is also a trigger with an effect\<close>
  "exampleAlarmObject =
     \<lparr>obj_name = ''alarm'', obj_x = Some 64, obj_y = Some 0, obj_width = Some 32, obj_height = Some 32,
      properties = [(''deny'', JBool True), (''trigger'', JBool True), (''shake'', JNum 200)]\<rparr>"

definition exampleAlarmZone :: interactable where
  "exampleAlarmZone =
     \<lparr>it_id = ''alarm'', it_center = None, it_w = 32, it_h = 32, tiledObj = Some exampleAlarmObject\<rparr>"

definition exampleAudioEnv :: audioEnv where
  "exampleAudioEnv = \<lparr>resolveAudioKey = (\<lambda>n. ''sfx_'' @ n), audioExists = (\<lambda>k. True)\<rparr>"

definition exampleZoneScene :: "unit zoneWorld scene" where
  "exampleZoneScene =
     \<lparr>gameState = initialGameState, dialogueIsActive = False,
      world = \<lparr>sceneKey = ''CityScene'', playerX = Some 16, playerY = Some 0, prevPlayerPos = None,
                denyCooldownUntil = Some 0, triggerInside = {}, triggerExitArmed = {},
                layerVisible = Map.empty,
                interactables = [exampleDenyZone, exampleDenyZone2, exampleAlarmZone],
                fx = []\<rparr>\<rparr>"


definition exampleAfterFirstDeny :: "unit zoneWorld scene" where
  \<comment> \<open>the player has entered the first zone at time 1000, with the cooldown over\<close>
  "exampleAfterFirstDeny =
     zoneStep exampleAudioEnv exactOps 1000 (Some 16) (Some 0) exampleDenyZone exampleZoneScene"


section \<open>DialogueBox: the dialogue runner\<close>

text \<open>
  The state of a \<open>DialogueBox\<close>. The typing timer is \<open>typingEvent\<close>: it carries the counter
  \<open>i\<close> of its callback and, for a choice step, the options the callback will install.
  \<open>pendingPauses\<close> counts the delayed calls scheduled by pause steps. \<open>worldLockUntil\<close> is
  \<open>GameState.input.interactLockUntil\<close>, which the box pushes forward through
  \<open>lockInteract\<close>. \<open>choiceIndex\<close> is \<open>None\<close> when it is \<open>NaN\<close> (cycling through an empty
  option list). Every callback token the box invokes is appended to \<open>calls\<close>, every sound
  it stops to \<open>stoppedSounds\<close>. The callbacks are taken not to call back into the box
  while it is still running; a completion callback is invoked last, so a \<open>start\<close> it
  makes is the next event.
\<close>

datatype 'a call = Completed 'a | Ran 'a | Selected 'a

datatype 'a typing = TypingSay nat | TypingChoice nat "'a choiceOption list"

record 'a DialogueBox =
  choiceConfirmDelayMs :: real
  inputCooldownMs :: real
  choiceConfirmReadyAt :: real
  nextInputReadyAt :: real
  active :: bool
  script :: "'a step list"
  index :: int
  onComplete :: "'a option"
  isTyping :: bool
  fullText :: string
  visibleText :: string
  speakerText :: string
  typingEvent :: "'a typing option"
  inChoice :: bool
  choiceIndex :: "nat option"
  choiceOptions :: "'a choiceOption list"
  choiceStepOnSelect :: "'a option"
  keyHandlersBound :: bool
  visible :: bool
  ownedSounds :: "string list"
  pendingPauses :: nat
  worldLockUntil :: real
  calls :: "'a call list"
  stoppedSounds :: "string list"

definition gateInput :: "real \<Rightarrow> real \<Rightarrow> 'a DialogueBox \<Rightarrow> 'a DialogueBox" where
  "gateInput now ms b = b\<lparr>nextInputReadyAt := max (nextInputReadyAt b) (now + ms)\<rparr>"

definition canAcceptInput :: "real \<Rightarrow> 'a DialogueBox \<Rightarrow> bool" where
  "canAcceptInput now b = (now \<ge> nextInputReadyAt b)"

definition trackSound :: "string \<Rightarrow> bool \<Rightarrow> 'a DialogueBox \<Rightarrow> 'a DialogueBox" where
  "trackSound sound persistAfterDialogue b =
     (if persistAfterDialogue then b else b\<lparr>ownedSounds := ownedSounds b @ [sound]\<rparr>)"

definition stop :: "bool \<Rightarrow> real \<Rightarrow> 'a DialogueBox \<Rightarrow> 'a DialogueBox" where
  "stop callOnComplete now b =
     (let b1 = b\<lparr>active := False, typingEvent := None, isTyping := False, inChoice := False,
                 fullText := [], visibleText := [], choiceOptions := [],
                 choiceStepOnSelect := None, speakerText := [], keyHandlersBound := False,
                 stoppedSounds := stoppedSounds b @ ownedSounds b, ownedSounds := [],
                 visible := False, worldLockUntil := max (worldLockUntil b) (now + 240)\<rparr>;
          b2 = gateInput now (inputCooldownMs b1) b1
      in if callOnComplete then
           (case onComplete b2 of
              None \<Rightarrow> b2
            | Some cb \<Rightarrow> b2\<lparr>onComplete := None, calls := calls b2 @ [Completed cb]\<rparr>)
         else b2)"

definition say :: "string \<Rightarrow> string \<Rightarrow> 'a DialogueBox \<Rightarrow> 'a DialogueBox" where
  "say speaker txt b =
     b\<lparr>speakerText := speaker, fullText := txt, visibleText := [], isTyping := True,
       typingEvent := Some (TypingSay 0)\<rparr>"

definition pause :: "'a DialogueBox \<Rightarrow> 'a DialogueBox" where
  "pause b = b\<lparr>speakerText := [], pendingPauses := pendingPauses b + 1\<rparr>"

definition choice ::
  "string \<Rightarrow> 'a choiceOption list \<Rightarrow> 'a option \<Rightarrow> 'a DialogueBox \<Rightarrow> 'a DialogueBox" where
  "choice prompt opts stepOnSelect b =
     b\<lparr>speakerText := [], fullText := prompt, visibleText := [],
       choiceStepOnSelect := stepOnSelect, isTyping := True,
       typingEvent := Some (TypingChoice 0 opts)\<rparr>"

function runCurrentStep :: "real \<Rightarrow> 'a DialogueBox \<Rightarrow> 'a DialogueBox" where
  "runCurrentStep now b =
     (if \<not> active b then b
      else if index b < 0 \<or> index b \<ge> int (length (script b)) then stop True now b
      else (case script b ! nat (index b) of
              Untyped \<Rightarrow> runCurrentStep now (b\<lparr>index := index b + 1\<rparr>)
            | Say sp tx \<Rightarrow> say sp tx (gateInput now (inputCooldownMs b) b)
            | Pause ms \<Rightarrow> pause b
            | Choice p opts f \<Rightarrow> choice p opts f (gateInput now (inputCooldownMs b) b)
            | Action r \<Rightarrow>
                runCurrentStep now
                  ((case r of None \<Rightarrow> b | Some f \<Rightarrow> b\<lparr>calls := calls b @ [Ran f]\<rparr>)
                     \<lparr>index := index b + 1\<rparr>)
            | End \<Rightarrow> stop True now b))"
  by pat_completeness auto
termination
  by (relation "measure (\<lambda>(now, b). nat (int (length (script b)) - index b))")
     (auto split: option.splits)

declare runCurrentStep.simps [simp del]

definition start ::
  "'a step list \<Rightarrow> 'a option \<Rightarrow> real \<Rightarrow> 'a DialogueBox \<Rightarrow> 'a DialogueBox" where
  "start scr cb now b =
     (let b1 = stop False now b;
          b2 = b1\<lparr>active := True, script := scr, index := 0, onComplete := cb,
                 visible := True, keyHandlersBound := True\<rparr>
      in runCurrentStep now (gateInput now (inputCooldownMs b2) b2))"

definition finishTypingInstant :: "'a DialogueBox \<Rightarrow> 'a DialogueBox" where
  "finishTypingInstant b =
     (if \<not> isTyping b then b
      else b\<lparr>isTyping := False, typingEvent := None, visibleText := fullText b\<rparr>)"

definition fireSelect :: "'a option \<Rightarrow> 'a DialogueBox \<Rightarrow> 'a DialogueBox" where
  \<comment> \<open>\<open>if (typeof f === "function") f(...)\<close>\<close>
  "fireSelect f b = (case f of None \<Rightarrow> b | Some g \<Rightarrow> b\<lparr>calls := calls b @ [Selected g]\<rparr>)"

definition chosenOption :: "'a DialogueBox \<Rightarrow> 'a choiceOption option" where
  \<comment> \<open>\<open>this.choiceOptions[this.choiceIndex]\<close>, \<open>None\<close> when undefined\<close>
  "chosenOption b =
     (case choiceIndex b of
        None \<Rightarrow> None
      | Some i \<Rightarrow> if i < length (choiceOptions b) then Some (choiceOptions b ! i) else None)"

definition onZ :: "real \<Rightarrow> 'a DialogueBox \<Rightarrow> 'a DialogueBox" where
  "onZ now b =
     (if \<not> active b then b
      else if \<not> canAcceptInput now b then b
      else (let b1 = (gateInput now (inputCooldownMs b) b)
                       \<lparr>worldLockUntil := max (worldLockUntil b) (now + 240)\<rparr>
            in if isTyping b1 then gateInput now (inputCooldownMs b1) (finishTypingInstant b1)
               else if inChoice b1 then
                 (if now < choiceConfirmReadyAt b1 then b1
                  else (case chosenOption b1 of
                          None \<Rightarrow> b1
                        | Some chosen \<Rightarrow>
                            (let b2 = fireSelect (optionOnSelect chosen)
                                        (fireSelect (choiceStepOnSelect b1) b1);
                                 b3 = b2\<lparr>index := (case optionNext chosen of
                                                       Some n \<Rightarrow> n
                                                     | None \<Rightarrow> index b2 + 1),
                                        inChoice := False\<rparr>
                             in runCurrentStep now b3)))
               else runCurrentStep now (b1\<lparr>index := index b1 + 1\<rparr>)))"

definition cycleChoice :: "bool \<Rightarrow> real \<Rightarrow> 'a DialogueBox \<Rightarrow> 'a DialogueBox" where
  \<comment> \<open>\<open>_onUp\<close> (\<open>up = True\<close>) and \<open>_onDown\<close>\<close>
  "cycleChoice up now b =
     (if \<not> active b \<or> \<not> inChoice b then b
      else if \<not> canAcceptInput now b then b
      else (let b1 = gateInput now 120 b; n = length (choiceOptions b1)
            in b1\<lparr>choiceIndex :=
                 (case choiceIndex b1 of
                    None \<Rightarrow> None
                  | Some i \<Rightarrow> if n = 0 then None
                              else Some (if up then (i + n - 1) mod n else (i + 1) mod n))\<rparr>))"

definition onEsc :: "real \<Rightarrow> 'a DialogueBox \<Rightarrow> 'a DialogueBox" where
  "onEsc now b = (if \<not> active b then b else stop False now b)"

definition typingTick :: "real \<Rightarrow> 'a DialogueBox \<Rightarrow> 'a DialogueBox" where
  \<comment> \<open>one firing of the typing timer\<close>
  "typingTick now b =
     (case typingEvent b of
        None \<Rightarrow> b
      | Some (TypingSay i) \<Rightarrow>
          if \<not> active b then b
          else (let b1 = b\<lparr>visibleText := take (i + 1) (fullText b)\<rparr>
                in if i + 1 \<ge> length (fullText b)
                   then b1\<lparr>isTyping := False, typingEvent := None\<rparr>
                   else b1\<lparr>typingEvent := Some (TypingSay (i + 1))\<rparr>)
      | Some (TypingChoice i opts) \<Rightarrow>
          if \<not> active b then b
          else (let b1 = b\<lparr>visibleText := take (i + 1) (fullText b)\<rparr>
                in if i + 1 \<ge> length (fullText b)
                   then b1\<lparr>isTyping := False, typingEvent := None, inChoice := True,
                           choiceOptions := opts, choiceIndex := Some 0,
                           choiceConfirmReadyAt :=
                             max (now + choiceConfirmDelayMs b) (now + inputCooldownMs b)\<rparr>
                   else b1\<lparr>typingEvent := Some (TypingChoice (i + 1) opts)\<rparr>))"

definition pauseFire :: "real \<Rightarrow> 'a DialogueBox \<Rightarrow> 'a DialogueBox" where
  \<comment> \<open>a delayed call scheduled by a pause step fires\<close>
  "pauseFire now b =
     (if pendingPauses b = 0 then b
      else (let b1 = b\<lparr>pendingPauses := pendingPauses b - 1\<rparr>
            in if \<not> active b1 then b1
               else runCurrentStep now (b1\<lparr>index := index b1 + 1\<rparr>)))"

text \<open>
  Everything that can happen to a box: a call of \<open>start\<close>, a key, a timer. A run of the
  box is a list of events, each with the clock reading at which it happens.
\<close>

datatype 'a event =
    Start "'a step list" "'a option"
  | KeyZ | KeyEsc | KeyUp | KeyDown
  | TypingTick | PauseFire

fun handle :: "real \<times> 'a event \<Rightarrow> 'a DialogueBox \<Rightarrow> 'a DialogueBox" where
  "handle (now, Start scr cb) b = start scr cb now b"
| "handle (now, KeyZ) b = onZ now b"
| "handle (now, KeyEsc) b = onEsc now b"
| "handle (now, KeyUp) b = cycleChoice True now b"
| "handle (now, KeyDown) b = cycleChoice False now b"
| "handle (now, TypingTick) b = typingTick now b"
| "handle (now, PauseFire) b = pauseFire now b"

definition runEvents :: "(real \<times> 'a event) list \<Rightarrow> 'a DialogueBox \<Rightarrow> 'a DialogueBox" where
  "runEvents evs b = fold handle evs b"

definition newDialogueBox :: "'a DialogueBox" where
  \<comment> \<open>the constructor with default options\<close>
  "newDialogueBox =
     \<lparr>choiceConfirmDelayMs = 250, inputCooldownMs = 500, choiceConfirmReadyAt = 0,
      nextInputReadyAt = 0, active = False, script = [], index = 0, onComplete = None,
      isTyping = False, fullText = [], visibleText = [], speakerText = [],
      typingEvent = None, inChoice = False, choiceIndex = Some 0, choiceOptions = [],
      choiceStepOnSelect = None, keyHandlersBound = False, visible = False,
      ownedSounds = [], pendingPauses = 0, worldLockUntil = 0, calls = [],
      stoppedSounds = []\<rparr>"

definition completions :: "'a call list \<Rightarrow> 'a list" where
  \<comment> \<open>the completion callbacks invoked, in order\<close>
  "completions cs = concat (map (\<lambda>c. case c of Completed f \<Rightarrow> [f] | _ \<Rightarrow> []) cs)"

fun startTokens :: "(real \<times> 'a event) list \<Rightarrow> 'a list" where
  \<comment> \<open>the completion callbacks passed to \<open>start\<close> in a run\<close>
  "startTokens [] = []"
| "startTokens ((now, Start scr (Some cb)) # evs) = cb # startTokens evs"
| "startTokens (e # evs) = startTokens evs"


text \<open>
  For the statements about the completion callback: \<open>pendingCallback\<close> is the callback the
  box currently holds; a step from \<open>b\<close> to \<open>b'\<close> fires only the pending callback when it
  either invokes no completion callback and keeps the one it holds, or invokes exactly the
  one it holds and then holds none. \<open>afterConfirm\<close> is the box at the moment \<open>_onZ\<close> has
  confirmed an option and is about to call \<open>_runCurrentStep\<close>.
\<close>

definition pendingCallback :: "'a DialogueBox \<Rightarrow> 'a list" where
  "pendingCallback b = (case onComplete b of Some c \<Rightarrow> [c] | None \<Rightarrow> [])"

definition firesOnlyPending :: "'a DialogueBox \<Rightarrow> 'a DialogueBox \<Rightarrow> bool" where
  "firesOnlyPending b b' =
     ((completions (calls b') = completions (calls b) \<and> onComplete b' = onComplete b) \<or>
      (completions (calls b') = completions (calls b) @ pendingCallback b \<and> onComplete b' = None))"

definition afterConfirm :: "real \<Rightarrow> 'a choiceOption \<Rightarrow> 'a DialogueBox \<Rightarrow> 'a DialogueBox" where
  "afterConfirm now chosen b =
     (let b1 = (gateInput now (inputCooldownMs b) b)\<lparr>worldLockUntil := max (worldLockUntil b) (now + 240)\<rparr>;
          b2 = fireSelect (optionOnSelect chosen) (fireSelect (choiceStepOnSelect b1) b1)
      in b2\<lparr>index := (case optionNext chosen of Some n \<Rightarrow> n | None \<Rightarrow> index b2 + 1),
            inChoice := False\<rparr>)"

text \<open>
  A branching script as the choice builder lays it out (the option bodies follow the choice
  step and each ends with \<open>end\<close>), and a box waiting in its choice with the second option
  selected.
\<close>

definition branchScript :: "nat step list" where
  "branchScript =
     [Say [] ''Hi'',
      Choice ''Pick'' [ChoiceOption ''A'' (Some 3) (Some 1), ChoiceOption ''B'' (Some 5) (Some 2)] None,
      End,
      Say ''npc'' ''You chose A'', End,
      Say ''npc'' ''You chose B'', End]"

definition boxInChoice :: "nat DialogueBox" where
  "boxInChoice =
     newDialogueBox\<lparr>active := True, script := branchScript, index := 1, onComplete := Some 7,
       inChoice := True, choiceIndex := Some 1,
       choiceOptions := [ChoiceOption ''A'' (Some 3) (Some 1), ChoiceOption ''B'' (Some 5) (Some 2)],
       visible := True, keyHandlersBound := True\<rparr>"


section \<open>Building dialogue scripts from property groups\<close>

definition trunc :: "real \<Rightarrow> int" where
  \<comment> \<open>\<open>Math.trunc\<close>\<close>
  "trunc r = (if r \<ge> 0 then \<lfloor>r\<rfloor> else \<lceil>r\<rceil>)"

definition clampInt :: "jsval \<Rightarrow> int \<Rightarrow> int \<Rightarrow> int" where
  "clampInt n lo hi =
     (let x = (case Number_js n of None \<Rightarrow> 0 | Some r \<Rightarrow> r) in max lo (min hi (trunc x)))"

definition numOrZero :: "jsval \<Rightarrow> int" where
  \<comment> \<open>\<open>Number(v) || 0\<close> on the integers of the model\<close>
  "numOrZero v = (case Number_js v of None \<Rightarrow> 0 | Some r \<Rightarrow> \<lfloor>r\<rfloor>)"

definition floorOr :: "jsval \<Rightarrow> int \<Rightarrow> int" where
  \<comment> \<open>\<open>Number.isFinite(Number(v)) ? Math.floor(Number(v)) : d\<close>\<close>
  "floorOr v d = (case Number_js v of None \<Rightarrow> d | Some r \<Rightarrow> \<lfloor>r\<rfloor>)"

text \<open>
  \<open>_lineIndexFromKey(prefix, key)\<close>: the number that follows the prefix in the key, 1 when
  there is none. The source matches the key against a regular expression built from the
  prefix; prefixes are plain identifiers, so the match is a literal prefix test here.
\<close>

definition lineIndexFromKey :: "string \<Rightarrow> string \<Rightarrow> nat" where
  "lineIndexFromKey p k =
     (if p = [] \<or> k = [] then 1
      else if k = p then 1
      else if startsWith k p \<and> drop (length p) k \<noteq> [] then
        (case parse_digits (drop (length p) k) 0 of
           None \<Rightarrow> 1
         | Some n \<Rightarrow> if n > 0 then n else 1)
      else 1)"

definition resolveLineSpeaker :: "props \<Rightarrow> string \<Rightarrow> string \<Rightarrow> string \<Rightarrow> string" where
  "resolveLineSpeaker props baseSpeaker p k =
     (let n = lineIndexFromKey p k;
          direct = str (getp props (k @ ''speaker''));
          numbered = str (getp props (p @ string_of_nat n @ ''speaker''));
          grp = str (getp props (p @ ''speaker''))
      in if direct \<noteq> [] then direct
         else if numbered \<noteq> [] then numbered
         else if grp \<noteq> [] then grp
         else trim baseSpeaker)"

text \<open>
  The closures that the scene puts into scripts and passes to the dialogue box, as data:
  the four line-level meta actions (each captures the interaction id, the line key and
  what it needs from the property table) and \<open>onSelect\<close> of a choice option (it stores the
  pending choice effect).
\<close>

datatype closure =
    LineSfx string string props
  | LineGiveItem string string string int bool
  | LineAddHelp string string int
  | LineAddScore string string int
  | SelectChoice string props nat

definition appendLineMetaActions ::
  "string \<Rightarrow> props \<Rightarrow> string \<Rightarrow> closure step list \<Rightarrow> closure step list" where
  "appendLineMetaActions interactionId props key steps =
     (let ident = trim interactionId; k = trim key in
      if ident = [] \<or> k = [] then steps
      else
        (let sfxName = str (getp props (k @ ''sfx''));
             giveItem = str (getp props (k @ ''giveitem''));
             giveCount = (case Number_js (getp props (k @ ''givecount'')) of
                            None \<Rightarrow> 1
                          | Some r \<Rightarrow> if r > 0 then \<lfloor>r\<rfloor> else 1);
             giveOnce = isTrue (getp props (k @ ''giveonce''));
             addHelpAmt = floorOr (getp props (k @ ''addhelp'')) 0;
             addScoreAmt = floorOr (getp props (k @ ''addscore'')) 0
         in steps
            @ (if sfxName \<noteq> [] then [Action (Some (LineSfx ident k props))] else [])
            @ (if giveItem \<noteq> [] then [Action (Some (LineGiveItem ident k giveItem giveCount giveOnce))] else [])
            @ (if addHelpAmt \<noteq> 0 then [Action (Some (LineAddHelp ident k addHelpAmt))] else [])
            @ (if addScoreAmt \<noteq> 0 then [Action (Some (LineAddScore ident k addScoreAmt))] else [])))"

definition appendLine ::
  "string \<Rightarrow> props \<Rightarrow> string \<Rightarrow> string \<Rightarrow> string \<Rightarrow> closure step list \<Rightarrow> closure step list" where
  \<comment> \<open>the loop body: skip a blank line, else meta actions followed by the \<open>say\<close> step\<close>
  "appendLine interactionId props baseSpeaker p k steps =
     (let txt = str (getp props k) in
      if txt = [] then steps
      else appendLineMetaActions interactionId props k steps
             @ [Say (resolveLineSpeaker props baseSpeaker p k) txt])"

definition buildDialogueScriptFromPrefix ::
  "props \<Rightarrow> string \<Rightarrow> string \<Rightarrow> string \<Rightarrow> closure step list" where
  "buildDialogueScriptFromPrefix props baseSpeaker prefix interactionId =
     (let p = trim prefix in
      if p = [] then []
      else (let keys = getNumberedKeys props p;
                steps = fold (\<lambda>k steps. appendLine interactionId props baseSpeaker p k steps) keys []
            in if keys = [] then appendLine interactionId props baseSpeaker p p steps else steps))"

definition stripTrailingDigits :: "string \<Rightarrow> string" where
  \<comment> \<open>\<open>k.replace(/\d+$/, "")\<close>\<close>
  "stripTrailingDigits k = rev (dropWhile (\<lambda>c. digit_of c \<noteq> None) (rev k))"

definition buildSequenceScriptFromKeys ::
  "string list \<Rightarrow> props \<Rightarrow> string \<Rightarrow> int \<Rightarrow> int option \<Rightarrow> string \<Rightarrow> closure step list" where
  "buildSequenceScriptFromKeys keys props baseSpeaker startIndex1 endIndex1 interactionId =
     (if keys = [] then []
      else (let n = int (length keys);
                start = max 1 (if startIndex1 = 0 then 1 else startIndex1);
                end = (case endIndex1 of
                         None \<Rightarrow> n
                       | Some e \<Rightarrow> max start (min n (if e = 0 then n else e)));
                slice = drop (nat (start - 1)) (take (nat end) keys)
            in fold (\<lambda>k steps. appendLine interactionId props baseSpeaker (stripTrailingDigits k) k steps)
                 slice []))"


section \<open>Follower dialogue\<close>

definition truthy :: "jsval \<Rightarrow> bool" where
  \<comment> \<open>\<open>_truthy\<close> of the follower helpers\<close>
  "truthy v = (v = JBool True \<or> toLowerCase (String_js (nullish v (JStr []))) = ''true'' \<or>
               v = JNum 1 \<or> v = JStr ''1'')"

definition followerAloise :: "GameState \<Rightarrow> bool" where
  "followerAloise gs = (truthy (getp (flags gs) ''aloiseFollowing'') \<or> truthy (getp (flags gs) ''aloiseJoined''))"

definition followerSaga :: "GameState \<Rightarrow> bool" where
  "followerSaga gs = (truthy (getp (flags gs) ''sagaJoined'') \<or> truthy (getp (flags gs) ''sagaFollowing''))"

definition selectFollowerBaseKey :: "GameState \<Rightarrow> props \<Rightarrow> string \<Rightarrow> string" where
  "selectFollowerBaseKey gs props basePrefix =
     (let base = (if toLowerCase (trim basePrefix) = [] then ''followdialogue''
                  else toLowerCase (trim basePrefix));
          aloise = followerAloise gs;
          saga = followerSaga gs
      in if \<not> (aloise \<or> saga) then []
         else if aloise \<and> saga \<and> getNumberedPropLines props (JStr (''bothfollowers'' @ base)) \<noteq> []
           then ''bothfollowers'' @ base
         else if saga \<and> getNumberedPropLines props (JStr (''sagafollower'' @ base)) \<noteq> []
           then ''sagafollower'' @ base
         else if aloise \<and> getNumberedPropLines props (JStr (''aloisefollower'' @ base)) \<noteq> []
           then ''aloisefollower'' @ base
         else if getNumberedPropLines props (JStr base) \<noteq> [] then base
         else [])"

definition hasFollowerDialogueProps :: "string list \<Rightarrow> bool" where
  \<comment> \<open>on the keys of the property table\<close>
  "hasFollowerDialogueProps keys =
     (\<exists>k \<in> set keys.
        startsWith (toLowerCase k) ''followdialogue'' \<or>
        startsWith (toLowerCase k) ''aloisefollowerfollowdialogue'' \<or>
        startsWith (toLowerCase k) ''sagafollowerfollowdialogue'' \<or>
        startsWith (toLowerCase k) ''bothfollowersfollowdialogue'' \<or>
        toLowerCase k = ''followpausems'')"

definition parseSpeakerInline :: "string \<Rightarrow> string \<Rightarrow> string \<times> string" where
  "parseSpeakerInline line defaultSpeaker =
     (let s = trim line in
      if s = [] then (defaultSpeaker, [])
      else (let front = takeWhile (\<lambda>c. c \<noteq> CHR '':'') s in
            if front = [] \<or> front = s then (defaultSpeaker, s)
            else (trim front, trim (drop (length front + 1) s))))"

definition appendFollowerDialogue :: "GameState \<Rightarrow> props \<Rightarrow> 'a step list \<Rightarrow> 'a step list" where
  \<comment> \<open>with \<open>opts = { basePrefix: "followdialogue" }\<close>: follower lines replace the script\<close>
  "appendFollowerDialogue gs props scr =
     (let baseKey = selectFollowerBaseKey gs props ''followdialogue'' in
      if baseKey = [] then scr
      else (let lines = getNumberedPropLines props (JStr baseKey) in
            if lines = [] then scr
            else (let pauseMs = clampInt (nullish (getp props ''followpausems'') (JNum 250)) 0 5000;
                      defaultSpeaker = str (getp props ''speaker'')
                  in (if pauseMs > 0 then [Pause (of_int pauseMs)] else [])
                     @ concat (map (\<lambda>ln. case parseSpeakerInline ln defaultSpeaker of
                                           (sp, tx) \<Rightarrow> if tx = [] then [] else [Say sp tx]) lines))))"

definition hasFollower :: "string \<Rightarrow> GameState \<Rightarrow> bool" where
  \<comment> \<open>\<open>_hasFollower\<close>\<close>
  "hasFollower name gs =
     (let n = toLowerCase (trim name) in
      if n = [] then False
      else if n = ''saga'' then getp (flags gs) ''sagaJoined'' = JBool True
      else if n = ''aloise'' then getp (flags gs) ''aloiseFollowing'' = JBool True
      else getp (flags gs) (n @ ''joined'') = JBool True \<or> getp (flags gs) (n @ ''following'') = JBool True)"

definition selectDialogueVariantPrefix :: "GameState \<Rightarrow> props \<Rightarrow> string \<Rightarrow> string" where
  "selectDialogueVariantPrefix gs props basePrefix =
     (let hasSaga = hasFollower ''Saga'' gs; hasAloise = hasFollower ''Aloise'' gs in
      if hasSaga \<and> hasAloise \<and> getNumberedKeys props (''bothfollowers'' @ basePrefix) \<noteq> []
        then ''bothfollowers'' @ basePrefix
      else if hasSaga \<and> getNumberedKeys props (''sagafollower'' @ basePrefix) \<noteq> []
        then ''sagafollower'' @ basePrefix
      else if hasAloise \<and> getNumberedKeys props (''aloisefollower'' @ basePrefix) \<noteq> []
        then ''aloisefollower'' @ basePrefix
      else basePrefix)"

definition selectPromptVariant :: "GameState \<Rightarrow> props \<Rightarrow> string \<Rightarrow> string" where
  "selectPromptVariant gs props basePromptKey =
     (let hasSaga = hasFollower ''Saga'' gs; hasAloise = hasFollower ''Aloise'' gs in
      if hasSaga \<and> hasAloise \<and> str (getp props (''bothfollowers'' @ basePromptKey)) \<noteq> []
        then str (getp props (''bothfollowers'' @ basePromptKey))
      else if hasSaga \<and> str (getp props (''sagafollower'' @ basePromptKey)) \<noteq> []
        then str (getp props (''sagafollower'' @ basePromptKey))
      else if hasAloise \<and> str (getp props (''aloisefollower'' @ basePromptKey)) \<noteq> []
        then str (getp props (''aloisefollower'' @ basePromptKey))
      else str (getp props basePromptKey))"

definition postHelpedKey :: "props \<Rightarrow> string" where
  \<comment> \<open>\<open>_postHelpedKey\<close>; the empty string stands for \<open>null\<close>\<close>
  "postHelpedKey props =
     str (nullish (getp props ''posthelpedname'')
           (nullish (getp props ''markhelped'') (getp props ''speaker'')))"


section \<open>Interaction effects\<close>

text \<open>
  The part of the scene that the interaction runner reads and writes besides the session
  store: the scene key, the registry entries (id and prompt, in order), the ids of the
  object colliders and of the spawned NPCs, and the pending choice effect. Calls into the
  audio, camera, tilemap, physics and NPC collaborators, and every call of
  \<open>dialogue.start\<close>, are recorded in order in \<open>effects\<close>.
\<close>

datatype completion = Complete bool string props bool | CompleteChoice bool

datatype ieffect =
    StartDialogue "closure step list" "completion option"
  | PlaySound string real
  | AddSound string real bool
  | ShakeCamera int
  | PushMusicDuck "real option"
  | PopMusicDuck
  | SwitchSceneMusic string
  | RemoveTile string string
  | LayerSetVisible string bool
  | DestroyCollider string
  | DestroyNpc string
  | HideNpcByName string
  | FlipNpc string
  | MoveNpcToPoint string string
  | MoveNpcAlongWaypoints string string
  | SyncFollowers

record interWorld =
  thisSceneKey :: string
  prompts :: "(string \<times> string) list"
  colliderIds :: "string list"
  spawnedNpcIds :: "string list"
  pendingChoiceEffect :: "(string \<times> props \<times> nat) option"
  effects :: "ieffect list"

type_synonym iscene = "interWorld scene"

definition emit :: "ieffect \<Rightarrow> iscene \<Rightarrow> iscene" where
  "emit e s = s\<lparr>world := (world s)\<lparr>effects := effects (world s) @ [e]\<rparr>\<rparr>"

definition onGS :: "(GameState \<Rightarrow> GameState) \<Rightarrow> iscene \<Rightarrow> iscene" where
  \<comment> \<open>a mutation of the session store\<close>
  "onGS f s = s\<lparr>gameState := f (gameState s)\<rparr>"

definition setPrompt :: "string \<Rightarrow> string \<Rightarrow> iscene \<Rightarrow> iscene" where
  \<comment> \<open>\<open>const it = this.interactables.find((x) => x.id === id); if (it) it.prompt = p\<close>\<close>
  "setPrompt ident p s =
     (case find (\<lambda>(i, q). i = ident) (prompts (world s)) of
        None \<Rightarrow> s
      | Some hit \<Rightarrow>
          s\<lparr>world := (world s)\<lparr>prompts :=
               (let n = length (takeWhile (\<lambda>(i, q). i \<noteq> ident) (prompts (world s)))
                in (prompts (world s))[n := (ident, p)])\<rparr>\<rparr>)"

definition dropInteractable :: "string \<Rightarrow> iscene \<Rightarrow> iscene" where
  \<comment> \<open>\<open>this.interactables = this.interactables.filter((it) => it.id !== id)\<close>\<close>
  "dropInteractable ident s =
     s\<lparr>world := (world s)\<lparr>prompts := filter (\<lambda>(i, q). i \<noteq> ident) (prompts (world s))\<rparr>\<rparr>"

definition stackShake :: "jsval \<Rightarrow> iscene \<Rightarrow> iscene" where
  "stackShake ms s = (let dur = clampInt ms 0 5000 in if dur \<le> 0 then s else emit (ShakeCamera dur) s)"

definition safePlay :: "audioEnv \<Rightarrow> jsval \<Rightarrow> real \<Rightarrow> iscene \<Rightarrow> iscene" where
  "safePlay env nameOrKey vol s =
     (let key = (if str nameOrKey = [] then [] else resolveAudioKey env (str nameOrKey))
      in if key = [] then s else emit (PlaySound key vol) s)"

definition playScaledSfx ::
  "audioEnv \<Rightarrow> jsval \<Rightarrow> jsval \<Rightarrow> jsval \<Rightarrow> jsval \<Rightarrow> int \<Rightarrow> iscene \<Rightarrow> iscene" where
  "playScaledSfx env sfxName basePct stepPct maxPct useIndex s =
     (let base = clampInt (nullish basePct (JNum 20)) 0 100;
          stp = clampInt (nullish stepPct (JNum 5)) 0 100;
          mx = clampInt (nullish maxPct (JNum 80)) 0 100;
          pct = min mx (base + (useIndex - 1) * stp)
      in safePlay env sfxName (of_int pct / 100) s)"

definition removeColliderById :: "string \<Rightarrow> iscene \<Rightarrow> iscene" where
  "removeColliderById cid s =
     (let key = trim cid in
      if key = [] then s
      else if key \<notin> set (colliderIds (world s)) then s
      else onGS (setAnyFlag (flagKey ''__collider_removed'' [JStr (thisSceneKey (world s)), JStr key]) (JBool True))
             (emit (DestroyCollider key)
                (s\<lparr>world := (world s)\<lparr>colliderIds := filter (\<lambda>c. c \<noteq> key) (colliderIds (world s))\<rparr>\<rparr>)))"

definition setInteractionDisabled :: "string \<Rightarrow> bool \<Rightarrow> GameState \<Rightarrow> GameState" where
  \<comment> \<open>\<open>_setInteractionDisabled\<close>: enabling deletes the entry\<close>
  "setInteractionDisabled ident dis gs =
     (let k = trim ident in
      if k = [] then gs
      else if dis then gs\<lparr>disabled := (disabled gs)(k \<mapsto> True)\<rparr>
      else gs\<lparr>disabled := (disabled gs)(k := None)\<rparr>)"

definition forceDisabledFlag :: "string \<Rightarrow> string \<Rightarrow> string" where
  "forceDisabledFlag sk ident = flagKey ''__int_forced_disabled'' [JStr (trim sk), JStr (trim ident)]"

definition forceEnabledFlag :: "string \<Rightarrow> string \<Rightarrow> string" where
  "forceEnabledFlag sk ident = flagKey ''__int_forced_enabled'' [JStr (trim sk), JStr (trim ident)]"

definition setInteractionForcedDisabled :: "string \<Rightarrow> string \<Rightarrow> bool \<Rightarrow> GameState \<Rightarrow> GameState" where
  "setInteractionForcedDisabled sk ident dis gs =
     (if dis then setAnyFlag (forceEnabledFlag sk ident) (JBool False)
                   (setAnyFlag (forceDisabledFlag sk ident) (JBool True) gs)
      else setAnyFlag (forceDisabledFlag sk ident) (JBool False) gs)"

definition setInteractionForcedEnabled :: "string \<Rightarrow> string \<Rightarrow> bool \<Rightarrow> GameState \<Rightarrow> GameState" where
  "setInteractionForcedEnabled sk ident en gs =
     (if en then setAnyFlag (forceDisabledFlag sk ident) (JBool False)
                  (setAnyFlag (forceEnabledFlag sk ident) (JBool True) gs)
      else setAnyFlag (forceEnabledFlag sk ident) (JBool False) gs)"

definition indexOfSep :: "string \<Rightarrow> string \<Rightarrow> nat option" where
  \<comment> \<open>\<open>s.indexOf(sep)\<close> for a one-character separator, \<open>None\<close> when absent\<close>
  "indexOfSep sep s =
     (let n = length (takeWhile (\<lambda>c. [c] \<noteq> sep) s) in if n < length s then Some n else None)"

definition parseInteractionTarget :: "string \<Rightarrow> string \<Rightarrow> (string \<times> string) option" where
  \<comment> \<open>\<open>"scene:id"\<close>, \<open>"scene|id"\<close> or \<open>"scene/id"\<close>, else the id in the default scene\<close>
  "parseInteractionTarget raw defaultSceneKey =
     (let s = trim raw in
      if s = [] then None
      else (case filter (\<lambda>sep. case indexOfSep sep s of
                                None \<Rightarrow> False
                              | Some i \<Rightarrow> i > 0 \<and> trim (take i s) \<noteq> [] \<and> trim (drop (i + 1) s) \<noteq> [])
                   ['':'', ''|'', ''/''] of
              sep # rest \<Rightarrow>
                (case indexOfSep sep s of
                   Some i \<Rightarrow> Some (trim (take i s), trim (drop (i + 1) s))
                 | None \<Rightarrow> Some (trim defaultSceneKey, s))
            | [] \<Rightarrow> Some (trim defaultSceneKey, s)))"

definition setSceneMusic :: "audioEnv \<Rightarrow> string \<Rightarrow> bool \<Rightarrow> iscene \<Rightarrow> iscene" where
  \<comment> \<open>the session-store part of \<open>setSceneMusic\<close>; the audio switch itself is one log entry\<close>
  "setSceneMusic env nameOrKey persist s =
     (let sk = thisSceneKey (world s);
          name = (case sceneMusicOverride (gameState s) sk of
                    None \<Rightarrow> nameOrKey
                  | Some ov \<Rightarrow> if ov = [] then nameOrKey else ov);
          key = (if trim name = [] then [] else resolveAudioKey env (trim name))
      in if key = [] then s
         else emit (SwitchSceneMusic key)
                (if persist
                 then onGS (\<lambda>gs. gs\<lparr>sceneMusicOverride := (sceneMusicOverride gs)(sk \<mapsto> name)\<rparr>) s
                 else s))"

definition clearSceneMusicOverride :: "iscene \<Rightarrow> iscene" where
  "clearSceneMusicOverride s =
     (let sk = thisSceneKey (world s) in
      case sceneMusicOverride (gameState s) sk of
        None \<Rightarrow> s
      | Some ov \<Rightarrow> if ov = [] then s
                   else onGS (\<lambda>gs. gs\<lparr>sceneMusicOverride := (sceneMusicOverride gs)(sk := None)\<rparr>) s)"

definition giveItemOnce :: "string \<Rightarrow> string \<Rightarrow> iscene \<Rightarrow> iscene" where
  \<comment> \<open>one iteration of the \<open>giveitemonce\<close> loop\<close>
  "giveItemOnce ident item s =
     (let k = flagKey ''__give_once'' [JStr (thisSceneKey (world s)), JStr ident, JStr item] in
      if getAnyFlag k (gameState s) = JBool True then s
      else (let s1 = onGS (setAnyFlag k (JBool True)) (onGS (addItem item 1) s) in
            if toLowerCase (trim item) = ''strawberry'' \<and> stringIncludes (toLowerCase ident) ''strawberrybush''
            then onGS (\<lambda>gs. setAnyFlag ''__strawberryBushes''
                               (JNum (min 4 ((case Number_js (getAnyFlag ''__strawberryBushes'' gs) of
                                                None \<Rightarrow> 0 | Some r \<Rightarrow> \<lfloor>r\<rfloor>) + 1))) gs) s1
            else s1))"

definition takeItemOnce :: "string \<Rightarrow> string \<Rightarrow> iscene \<Rightarrow> iscene" where
  "takeItemOnce ident item s =
     (let k = flagKey ''__take_once'' [JStr (thisSceneKey (world s)), JStr ident, JStr item] in
      if getAnyFlag k (gameState s) = JBool True then s
      else onGS (setAnyFlag k (JBool True)) (onGS (removeItem item 1) s))"

definition setFlagTo :: "bool \<Rightarrow> string \<Rightarrow> GameState \<Rightarrow> GameState" where
  \<comment> \<open>one iteration of the \<open>setflags\<close> and \<open>clearflags\<close> loops\<close>
  "setFlagTo v f gs = (if trim f = [] then gs else setAnyFlag (trim f) (JBool v) gs)"

definition disableTarget :: "string \<Rightarrow> iscene \<Rightarrow> iscene" where
  "disableTarget tgtRaw s =
     (case parseInteractionTarget tgtRaw (thisSceneKey (world s)) of
        None \<Rightarrow> s
      | Some (sk, ident) \<Rightarrow>
          (let s1 = onGS (setInteractionForcedDisabled sk ident True) s in
           if sk = thisSceneKey (world s) then dropInteractable ident s1 else s1))"

definition enableTarget :: "string \<Rightarrow> iscene \<Rightarrow> iscene" where
  "enableTarget tgtRaw s =
     (case parseInteractionTarget tgtRaw (thisSceneKey (world s)) of
        None \<Rightarrow> s
      | Some (sk, ident) \<Rightarrow>
          onGS (setInteractionForcedEnabled sk ident True) (onGS (setInteractionForcedDisabled sk ident False) s))"

definition effectsMusic :: "audioEnv \<Rightarrow> string \<Rightarrow> props \<Rightarrow> iscene \<Rightarrow> iscene" where
  \<comment> \<open>\<open>clearMusicPersist\<close>, \<open>setMusic\<close>, \<open>setMusicOnce\<close>\<close>
  "effectsMusic env ident props s =
     (let s1 = (if isTrue (getp props ''clearmusicpersist'') then clearSceneMusicOverride s else s);
          setOnceKey = str (getp props ''setmusiconce'');
          setKey = str (getp props ''setmusic'');
          pickKey = (if setOnceKey \<noteq> [] then setOnceKey else setKey);
          persist = isTrue (getp props ''setmusicpersist'')
      in if pickKey = [] then s1
         else if setOnceKey \<noteq> [] then
           (let onceFlag = flagKey ''__set_music_once'' [JStr (thisSceneKey (world s1)), JStr ident, JStr pickKey] in
            if getAnyFlag onceFlag (gameState s1) \<noteq> JBool True
            then onGS (setAnyFlag onceFlag (JBool True)) (setSceneMusic env pickKey persist s1)
            else s1)
         else setSceneMusic env pickKey persist s1)"

definition effectsTile :: "string \<Rightarrow> props \<Rightarrow> iscene \<Rightarrow> iscene" where
  \<comment> \<open>\<open>tileRemoveLayer\<close>: needs the registry entry for its centre\<close>
  "effectsTile ident props s =
     (let tileLayer = str (getp props ''tileremovelayer'') in
      if tileLayer = [] then s
      else if find (\<lambda>(i, q). i = ident) (prompts (world s)) = None then s
      else onGS (setAnyFlag (flagKey ''__tile_removed'' [JStr (thisSceneKey (world s)), JStr ident]) (JBool True))
             (emit (RemoveTile ident tileLayer) s))"

definition setLayer :: "bool \<Rightarrow> string \<Rightarrow> iscene \<Rightarrow> iscene" where
  \<comment> \<open>\<open>layer?.setVisible?.(visible); setLayerHidden(this.scene.key, lname, !visible)\<close>\<close>
  "setLayer vis lname s =
     onGS (setLayerHidden (thisSceneKey (world s)) lname (\<not> vis)) (emit (LayerSetVisible lname vis) s)"

definition effectsOnce :: "string \<Rightarrow> props \<Rightarrow> iscene \<Rightarrow> iscene" where
  \<comment> \<open>the end of \<open>_applyInteractionEffects\<close>: \<open>removeInteraction\<close> and \<open>once\<close>\<close>
  "effectsOnce ident props s =
     (let removeIds = splitCsv (getp props ''removeinteraction'');
          s1 = (if removeIds \<noteq> [] then fold (\<lambda>rid. onGS (disableInteraction rid)) removeIds s
                else if getp props ''once'' = JBool True then onGS (disableInteraction ident) s
                else s)
      in if getp props ''once'' = JBool True \<or> ident \<in> set removeIds
         then dropInteractable ident s1 else s1)"

definition applyInteractionEffects :: "audioEnv \<Rightarrow> string \<Rightarrow> props \<Rightarrow> iscene \<Rightarrow> iscene" where
  "applyInteractionEffects env ident props s =
     (let s1 = effectsMusic env ident props s;
          s2 = effectsTile ident props s1;
          s3 = fold (setLayer False) (splitCsv (nullish (getp props ''hidelayer'') (getp props ''hidelayers''))) s2;
          s4 = fold (setLayer True) (splitCsv (nullish (getp props ''showlayer'') (getp props ''showlayers''))) s3;
          s5 = fold (\<lambda>item. onGS (addItem item 1)) (splitCsv (getp props ''giveitem'')) s4;
          s6 = fold (giveItemOnce ident) (splitCsv (getp props ''giveitemonce'')) s5;
          s7 = fold (takeItemOnce ident) (splitCsv (getp props ''takeitemonce'')) s6;
          s8 = fold (\<lambda>item. onGS (removeItem item 1)) (splitCsv (getp props ''takeitem'')) s7;
          s9 = fold removeColliderById
                 (splitCsv (nullish (getp props ''removecollider'') (getp props ''removecolliders''))) s8;
          s10 = (if getp props ''helpscore'' \<noteq> JUndefined
                 then onGS (addHelp (numOrZero (getp props ''helpscore''))) s9 else s9);
          s11 = (if getp props ''addscore'' \<noteq> JUndefined
                 then onGS (addScore (numOrZero (getp props ''addscore''))) s10 else s10);
          s12 = (if str (getp props ''markhelped'') \<noteq> []
                 then onGS (markHelped (str (getp props ''markhelped'')) True) s11 else s11);
          s13 = fold (\<lambda>f. onGS (setFlagTo True f))
                  (splitCsv (nullish (getp props ''setflags'') (getp props ''setflag''))) s12;
          s14 = fold (\<lambda>f. onGS (setFlagTo False f))
                  (splitCsv (nullish (getp props ''clearflags'') (getp props ''clearflag''))) s13;
          s15 = fold disableTarget
                  (splitCsv (nullish (getp props ''disableinteractions'') (getp props ''disableinteraction''))) s14;
          s16 = fold enableTarget
                  (splitCsv (nullish (getp props ''enableinteractions'') (getp props ''enableinteraction''))) s15;
          s17 = (if isTrue (getp props ''disableself'')
                 then dropInteractable ident
                        (onGS (setInteractionForcedDisabled (thisSceneKey (world s16)) ident True) s16)
                 else s16)
      in effectsOnce ident props s17)"


section \<open>Line-level and choice-level effects\<close>

definition runOnceGuard :: "string \<Rightarrow> string \<Rightarrow> string \<Rightarrow> string \<Rightarrow> iscene \<Rightarrow> bool \<times> iscene" where
  \<comment> \<open>\<open>runOnceGuard(type, extra)\<close> inside \<open>_appendLineMetaActions\<close> for interaction \<open>ident\<close>, line \<open>k\<close>\<close>
  "runOnceGuard ident k typ extra s =
     (let flag = flagKey ''__line_effect_once''
                   [JStr (thisSceneKey (world s)), JStr ident, JStr k, JStr typ, JStr extra]
      in if getAnyFlag flag (gameState s) = JBool True then (False, s)
         else (True, onGS (setAnyFlag flag (JBool True)) s))"

definition choiceHelpScore :: "string \<Rightarrow> props \<Rightarrow> nat \<Rightarrow> iscene \<Rightarrow> iscene" where
  \<comment> \<open>the help-score block of \<open>_applyChoiceEffects\<close>: once per interaction id and choice\<close>
  "choiceHelpScore ident props i s =
     (let hsRaw = getp props (''choice'' @ string_of_nat i @ ''helpscore'') in
      if hsRaw = JUndefined then s
      else (let hsKey = ''__choicehs__'' @ thisSceneKey (world s) @ ''__'' @ ident @ ''__'' @ string_of_nat i in
            if Boolean_js (getAnyFlag hsKey (gameState s)) then s
            else (let s1 = onGS (setAnyFlag hsKey (JBool True)) s in
                  case Number_js hsRaw of
                    None \<Rightarrow> s1
                  | Some delta \<Rightarrow> if delta = 0 then s1 else onGS (addHelp \<lfloor>delta\<rfloor>) s1)))"

definition setFollowerFlag :: "string \<Rightarrow> bool \<Rightarrow> GameState \<Rightarrow> GameState" where
  "setFollowerFlag name enabled gs =
     (let n = toLowerCase (trim name) in
      if n = [] then gs
      else if n = ''saga'' then setAnyFlag ''sagaJoined'' (JBool enabled) gs
      else if n = ''aloise'' then setAnyFlag ''aloiseFollowing'' (JBool enabled) gs
      else setAnyFlag (n @ ''following'') (JBool enabled) (setAnyFlag (n @ ''joined'') (JBool enabled) gs))"

definition choiceProp :: "props \<Rightarrow> nat \<Rightarrow> string \<Rightarrow> jsval" where
  \<comment> \<open>\<open>props[`choice${i}name`]\<close>\<close>
  "choiceProp props i name = getp props (''choice'' @ string_of_nat i @ name)"

definition choiceFollowers :: "string \<Rightarrow> props \<Rightarrow> nat \<Rightarrow> iscene \<Rightarrow> iscene" where
  "choiceFollowers ident props i s =
     (let addFollower = str (choiceProp props i ''addfollower'');
          removeFollower = str (choiceProp props i ''removefollower'');
          s1 = (if addFollower = [] then s
                else (let npcId = str (nullish (getp props ''npcid'') (JStr addFollower));
                          a = (if npcId = [] then s
                               else (if npcId \<in> set (spawnedNpcIds (world s)) then emit (DestroyNpc npcId) else id)
                                      ((onGS (setAnyFlag (''__npcRemoved__'' @ npcId) (JBool True)) s)
                                         \<lparr>world := (world s)\<lparr>spawnedNpcIds :=
                                              filter (\<lambda>n. n \<noteq> npcId) (spawnedNpcIds (world s))\<rparr>\<rparr>));
                          b = onGS (disableInteraction ident) (onGS (setFollowerFlag addFollower True) a)
                      in emit SyncFollowers (emit (HideNpcByName addFollower) (dropInteractable ident b))))
      in if removeFollower = [] then s1
         else emit SyncFollowers (onGS (setFollowerFlag removeFollower False) s1))"

definition choiceFlipNpc :: "props \<Rightarrow> nat \<Rightarrow> iscene \<Rightarrow> iscene" where
  "choiceFlipNpc props i s =
     (let targetNpcRaw = str (nullish (choiceProp props i ''targetnpc'')
                               (nullish (choiceProp props i ''targetnpcid'') (choiceProp props i ''target'')));
          flipRaw = choiceProp props i ''flipnpcy'';
          hasFlip = (flipRaw \<noteq> JUndefined \<and> trim (String_js flipRaw) \<noteq> []);
          flipY = (toLowerCase (String_js flipRaw) = ''true'' \<or> flipRaw = JBool True);
          rotRaw = choiceProp props i ''rotatenpcdeg'';
          rotFlip = (case (if rotRaw = JUndefined then None else Number_js rotRaw) of
                       None \<Rightarrow> False
                     | Some r \<Rightarrow> \<bar>\<lfloor>r\<rfloor>\<bar> mod 360 = 180);
          want = toLowerCase (trim targetNpcRaw)
      in if targetNpcRaw = [] then s
         else if \<not> (\<exists>n \<in> set (spawnedNpcIds (world s)). toLowerCase (trim n) = want) then s
         else if (if hasFlip then flipY else rotFlip)
           then onGS (setAnyFlag (flagKey ''__npcFlipY'' [JStr (thisSceneKey (world s)),
                                   JStr (toLowerCase (trim targetNpcRaw))]) (JBool True))
                  (emit (FlipNpc targetNpcRaw) s)
         else s)"

definition choiceMoves :: "props \<Rightarrow> nat \<Rightarrow> iscene \<Rightarrow> iscene" where
  \<comment> \<open>the requests to move a spawned NPC; the mover itself is a separate component\<close>
  "choiceMoves props i s =
     (let moveNpcId = str (nullish (getp props ''npcid'') (getp props ''id''));
          wpCsv = str (nullish (choiceProp props i ''waypoints'') (choiceProp props i ''movewaypoints''));
          moveToPoint = str (nullish (choiceProp props i ''movetopoint'') (choiceProp props i ''movetarget''))
      in if moveNpcId = [] then s
         else if wpCsv \<noteq> [] then emit (MoveNpcAlongWaypoints moveNpcId wpCsv) s
         else if moveToPoint \<noteq> [] then emit (MoveNpcToPoint moveNpcId moveToPoint) s
         else s)"

definition applyChoiceEffects :: "audioEnv \<Rightarrow> string \<Rightarrow> props \<Rightarrow> nat \<Rightarrow> iscene \<Rightarrow> iscene" where
  "applyChoiceEffects env ident props i s =
     (let helped = str (choiceProp props i ''markhelped'');
          s1 = (if helped \<noteq> [] then onGS (markHelped helped True) s else s);
          s2 = onGS (\<lambda>gs. gs\<lparr>choices := (choices gs)(ident \<mapsto> int i)\<rparr>) s1;
          choiceFxKey = ''__choicefx__'' @ thisSceneKey (world s2) @ ''__'' @ ident @ ''__'' @ string_of_nat i;
          choiceFxCount = numOrZero (nullish (getAnyFlag choiceFxKey (gameState s2)) (JNum 0)) + 1;
          s3 = onGS (setAnyFlag choiceFxKey (JNum choiceFxCount)) s2;
          s4 = (if choiceProp props i ''shake'' \<noteq> JUndefined then stackShake (choiceProp props i ''shake'') s3 else s3);
          uses = clampInt (nullish (choiceProp props i ''sfxuses'') (JNum 0)) 0 999;
          s5 = (if str (choiceProp props i ''sfx'') \<noteq> [] \<and>
                   (choiceProp props i ''sfxonce'' \<noteq> JBool True \<or> choiceFxCount = 1) \<and>
                   \<not> (uses > 0 \<and> choiceFxCount > uses)
                then playScaledSfx env (JStr (str (choiceProp props i ''sfx''))) (choiceProp props i ''sfxbase'')
                       (choiceProp props i ''sfxstep'') (choiceProp props i ''sfxmax'') choiceFxCount s4
                else s4);
          s6 = choiceFollowers ident props i s5;
          s7 = choiceHelpScore ident props i s6;
          s8 = choiceFlipNpc props i s7;
          movePoint = str (nullish (choiceProp props i ''movetopoint'')
                            (nullish (choiceProp props i ''movetomarker'') (choiceProp props i ''moveto'')));
          s9 = (if movePoint \<noteq> [] \<and> str (nullish (getp props ''npcid'') (getp props ''id'')) \<noteq> []
                then emit (MoveNpcToPoint (str (nullish (getp props ''npcid'') (getp props ''id''))) movePoint) s8
                else s8);
          s10 = fold (setLayer True)
                  (splitCsv (nullish (choiceProp props i ''showlayer'') (choiceProp props i ''showlayers''))) s9;
          s11 = fold (setLayer False)
                  (splitCsv (nullish (choiceProp props i ''hidelayer'') (choiceProp props i ''hidelayers''))) s10;
          s12 = fold removeColliderById
                  (splitCsv (nullish (choiceProp props i ''removecollider'') (choiceProp props i ''removecolliders''))) s11;
          s13 = (if str (getp props ''postprompt'') \<noteq> [] then setPrompt ident (str (getp props ''postprompt'')) s12
                 else s12);
          s14 = (if str (choiceProp props i ''postprompt'') \<noteq> []
                 then setPrompt ident (str (choiceProp props i ''postprompt'')) s13 else s13);
          s15 = fold (\<lambda>e. onGS (setInteractionDisabled e False))
                  (splitCsv (nullish (choiceProp props i ''enableinteractions'') (choiceProp props i ''enableinteraction''))) s14;
          s16 = fold (\<lambda>d. onGS (setInteractionDisabled d True))
                  (splitCsv (nullish (choiceProp props i ''disableinteractions'') (choiceProp props i ''disableinteraction''))) s15
      in choiceMoves props i s16)"

text \<open>What the closures do when the dialogue box invokes them.\<close>

definition lineSfx :: "audioEnv \<Rightarrow> string \<Rightarrow> string \<Rightarrow> props \<Rightarrow> iscene \<Rightarrow> iscene" where
  "lineSfx env ident k props s =
     (let sfxName = str (getp props (k @ ''sfx''));
          sfxOnce = isTrue (getp props (k @ ''sfxonce''));
          (go, s1) = (if sfxOnce then runOnceGuard ident k ''sfx'' [] s else (True, s))
      in if \<not> go then s1
         else (let persist = (isTrue (getp props (k @ ''sfxpersist'')) \<or>
                              isTrue (getp props (k @ ''sfxpersistafterdialogue'')));
                   stopOnExit = (getp props (k @ ''sfxstoponexit'') = JUndefined \<or>
                                 isTrue (getp props (k @ ''sfxstoponexit'')));
                   vol = of_int (clampInt (if getp props (k @ ''sfxbase'') = JUndefined then JNum 100
                                           else getp props (k @ ''sfxbase'')) 0 100) / 100;
                   key = (if sfxName = [] then [] else resolveAudioKey env sfxName)
               in if key = [] then s1
                  else emit (AddSound key vol (\<not> persist \<and> stopOnExit)) s1))"

fun runClosure :: "audioEnv \<Rightarrow> closure \<Rightarrow> iscene \<Rightarrow> iscene" where
  "runClosure env (LineSfx ident k props) s = lineSfx env ident k props s"
| "runClosure env (LineGiveItem ident k item count once) s =
     (let (go, s1) = (if once then runOnceGuard ident k ''giveitem'' item s else (True, s))
      in if go then onGS (addItem item count) s1 else s1)"
| "runClosure env (LineAddHelp ident k amt) s =
     (let (go, s1) = runOnceGuard ident k ''addhelp'' [] s
      in if go then onGS (addHelp amt) s1 else s1)"
| "runClosure env (LineAddScore ident k amt) s =
     (let (go, s1) = runOnceGuard ident k ''addscore'' [] s
      in if go then onGS (addScore amt) s1 else s1)"
| "runClosure env (SelectChoice ident props i) s =
     s\<lparr>world := (world s)\<lparr>pendingChoiceEffect := Some (ident, props, i)\<rparr>\<rparr>"

fun runCompletion :: "audioEnv \<Rightarrow> completion \<Rightarrow> iscene \<Rightarrow> iscene" where
  "runCompletion env (Complete applyEffects ident props wantsDuck) s =
     (let s1 = (if applyEffects then applyInteractionEffects env ident props s else s)
      in if wantsDuck then emit PopMusicDuck s1 else s1)"
| "runCompletion env (CompleteChoice wantsDuck) s =
     (let s1 = (case pendingChoiceEffect (world s) of
                  None \<Rightarrow> s
                | Some (ident, props, i) \<Rightarrow>
                    applyChoiceEffects env ident props i
                      (s\<lparr>world := (world s)\<lparr>pendingChoiceEffect := None\<rparr>\<rparr>))
      in if wantsDuck then emit PopMusicDuck s1 else s1)"


section \<open>The interaction runner\<close>

definition wantsDuck :: "props \<Rightarrow> bool" where
  "wantsDuck props = (isTrue (getp props ''mutemusic'') \<or> isTrue (getp props ''duckmusic''))"

definition startDuck :: "props \<Rightarrow> iscene \<Rightarrow> iscene" where
  "startDuck props s =
     (if wantsDuck props
      then emit (PushMusicDuck (if getp props ''duckmusicfactor'' = JUndefined then Some 0
                                else Number_js (getp props ''duckmusicfactor''))) s
      else s)"

definition choiceBody ::
  "GameState \<Rightarrow> string \<Rightarrow> props \<Rightarrow> string \<Rightarrow> nat \<Rightarrow> closure step list" where
  \<comment> \<open>the lines of option \<open>i\<close>, without the closing \<open>end\<close>\<close>
  "choiceBody gs ident props baseSpeaker i =
     (let baseChoicePrefix = ''choice'' @ string_of_nat i @ ''dialogue'';
          choicePrefix = selectDialogueVariantPrefix gs props baseChoicePrefix;
          dlgKeys = getNumberedKeys props choicePrefix
      in if dlgKeys \<noteq> [] then
           fold (\<lambda>k steps. appendLine ident props baseSpeaker choicePrefix k steps) dlgKeys []
         else (let key = (if getp props choicePrefix \<noteq> JUndefined then choicePrefix else baseChoicePrefix)
               in appendLine ident props baseSpeaker choicePrefix key []))"

fun choiceBranches ::
  "GameState \<Rightarrow> string \<Rightarrow> props \<Rightarrow> string \<Rightarrow> nat list \<Rightarrow> closure step list \<Rightarrow>
   closure choiceOption list \<Rightarrow> closure step list \<times> closure choiceOption list" where
  \<comment> \<open>the loop \<open>for (let i = 1; i <= 6; i++)\<close>: script and options built so far\<close>
  "choiceBranches gs ident props baseSpeaker [] scr opts = (scr, opts)"
| "choiceBranches gs ident props baseSpeaker (i # is) scr opts =
     (let txt = str (getp props (''choice'' @ string_of_nat i @ ''text'')) in
      if txt = [] then choiceBranches gs ident props baseSpeaker is scr opts
      else choiceBranches gs ident props baseSpeaker is
             (scr @ choiceBody gs ident props baseSpeaker i @ [End])
             (opts @ [ChoiceOption txt (Some (int (length scr))) (Some (SelectChoice ident props i))]))"

definition choiceScript :: "GameState \<Rightarrow> string \<Rightarrow> props \<Rightarrow> closure step list" where
  \<comment> \<open>the script that \<open>_runChoiceInteraction\<close> builds\<close>
  "choiceScript gs ident props =
     (let baseSpeaker = str (getp props ''speaker'');
          dialoguePrefix = selectDialogueVariantPrefix gs props ''dialogue'';
          introKeys = getNumberedKeys props dialoguePrefix;
          prompt = str (nullish (getp props ''choiceprompt'') (JStr ''Choose''));
          intro = (if introKeys \<noteq> [] then
                     (if isTrue (getp props ''sequencedialogue'')
                      then buildSequenceScriptFromKeys introKeys props baseSpeaker 1
                             (Some (int (length introKeys))) ident
                      else fold (\<lambda>k steps. appendLine ident props baseSpeaker dialoguePrefix k steps)
                             introKeys [])
                   else (let txt = str (nullish (getp props dialoguePrefix) (getp props ''dialogue''));
                             k = (if getp props dialoguePrefix \<noteq> JUndefined then dialoguePrefix else ''dialogue'')
                         in if txt = [] then []
                            else appendLineMetaActions ident props k []
                                   @ [Say (resolveLineSpeaker props baseSpeaker dialoguePrefix k) txt]));
          (scr, opts) = choiceBranches gs ident props baseSpeaker [1, 2, 3, 4, 5, 6]
                          (intro @ [Choice prompt [] None]) []
      in scr[length intro := Choice prompt opts None])"

definition runChoiceInteraction :: "string \<Rightarrow> props \<Rightarrow> iscene \<Rightarrow> iscene" where
  "runChoiceInteraction ident props s =
     emit (StartDialogue (choiceScript (gameState s) ident props) (Some (CompleteChoice (wantsDuck props))))
       (startDuck props s)"

definition postHelpDialogue :: "string list \<Rightarrow> string \<Rightarrow> props \<Rightarrow> iscene \<Rightarrow> iscene" where
  \<comment> \<open>the branch of \<open>_runTiledInteraction\<close> for an interaction that is already helped\<close>
  "postHelpDialogue keys ident props s =
     (let gs = gameState s;
          speaker = str (getp props ''speaker'');
          sequenceDialogue = isTrue (getp props ''sequencedialogue'');
          lastChoice = (case choices gs ident of None \<Rightarrow> 0 | Some c \<Rightarrow> c);
          cand = ''choice'' @ string_of_int lastChoice @ ''postdialogue'';
          basePrefix = (if lastChoice > 0 \<and> getNumberedKeys props cand \<noteq> [] then cand else ''postdialogue'');
          prefix = selectDialogueVariantPrefix gs props basePrefix;
          candPromptKey = ''choice'' @ string_of_int lastChoice @ ''postprompt'';
          basePromptKey = (if lastChoice > 0 \<and> str (getp props candPromptKey) \<noteq> [] then candPromptKey
                           else ''postprompt'');
          postPrompt = selectPromptVariant gs props basePromptKey;
          s1 = (if postPrompt \<noteq> [] then setPrompt ident postPrompt s else s);
          built = buildDialogueScriptFromPrefix props speaker prefix ident;
          countKey = ''__postdlg_count|'' @ thisSceneKey (world s1) @ ''|'' @ ident @ ''|'' @ prefix;
          n = numOrZero (nullish (getAnyFlag countKey (gameState s1)) (JNum 0)) + 1;
          progressive = (\<not> sequenceDialogue \<and> built \<noteq> []);
          s2 = (if progressive then onGS (setAnyFlag countKey (JNum n)) s1 else s1);
          scr = (if progressive then [built ! nat (min n (int (length built)) - 1)] else built)
      in if scr \<noteq> [] \<or> hasFollowerDialogueProps keys then
           emit (StartDialogue (appendFollowerDialogue (gameState s2) props scr @ [End])
                   (Some (Complete False ident props (wantsDuck props))))
             (startDuck props s2)
         else s2)"

definition runMain :: "audioEnv \<Rightarrow> string list \<Rightarrow> string \<Rightarrow> props \<Rightarrow> int \<Rightarrow> iscene \<Rightarrow> iscene" where
  \<comment> \<open>the closure \<open>runMain\<close> of \<open>_runTiledInteraction\<close>, for use number \<open>useIndex\<close>\<close>
  "runMain env keys ident props useIndex s =
     (let s1 = stackShake (nullish (getp props ''shake'') (JNum 0)) s;
          uses = clampInt (nullish (getp props ''sfxuses'') (JNum 0)) 0 999;
          s2 = (if Boolean_js (getp props ''sfx'') \<and>
                   (getp props ''sfxonce'' \<noteq> JBool True \<or> useIndex = 1) \<and>
                   \<not> (uses > 0 \<and> useIndex > uses)
                then playScaledSfx env (getp props ''sfx'') (getp props ''sfxbase'') (getp props ''sfxstep'')
                       (getp props ''sfxmax'') useIndex s1
                else s1)
      in if str (getp props ''choiceprompt'') \<noteq> [] \<and> str (getp props ''choice1text'') \<noteq> []
         then runChoiceInteraction ident props s2
         else
          (let gs = gameState s2;
               speaker = str (getp props ''speaker'');
               loop = (getp props ''loopdialogue'' = JBool True);
               sequenceDialogue = isTrue (getp props ''sequencedialogue'');
               dialoguePrefix = selectDialogueVariantPrefix gs props ''dialogue'';
               dkeys = getNumberedKeys props dialoguePrefix;
               endN = (if dkeys = [] then 0
                       else clampInt (nullish (getp props ''enddialogue'') (JNum (int (length dkeys))))
                              1 (int (length dkeys)))
           in if dkeys = [] \<or> getp props ''nodialogue'' = JBool True then
                (if hasFollowerDialogueProps keys then
                   emit (StartDialogue (appendFollowerDialogue gs props [] @ [End])
                           (Some (Complete False ident props (wantsDuck props))))
                     (startDuck props s2)
                 else applyInteractionEffects env ident props s2)
              else
                (let lineIndex = (if loop then ((useIndex - 1) mod endN) + 1 else min useIndex endN) in
                 if sequenceDialogue \<and> \<not> loop then
                   (let scr = buildSequenceScriptFromKeys dkeys props speaker lineIndex (Some endN) ident in
                    if scr = [] then applyInteractionEffects env ident props s2
                    else emit (StartDialogue (scr @ [End]) (Some (Complete True ident props (wantsDuck props))))
                           (startDuck props s2))
                 else
                   (let key = (if lineIndex = 1 then dialoguePrefix
                               else dialoguePrefix @ string_of_int lineIndex);
                        textLine = str (nullish (getp props key) (getp props dialoguePrefix));
                        isFinal = (\<not> loop \<and> lineIndex = endN);
                        scr = appendLineMetaActions ident props key []
                                @ [Say (resolveLineSpeaker props speaker dialoguePrefix key) textLine]
                    in emit (StartDialogue (appendFollowerDialogue gs props scr @ [End])
                               (Some (Complete isFinal ident props (wantsDuck props))))
                         (startDuck props s2)))))"

definition requirementsMissing :: "props \<Rightarrow> GameState \<Rightarrow> bool" where
  \<comment> \<open>some item of \<open>requiresItem\<close> is not in the inventory\<close>
  "requirementsMissing props gs = (\<exists>item \<in> set (splitCsv (getp props ''requiresitem'')). \<not> hasItem item gs)"

definition runTiledInteraction :: "audioEnv \<Rightarrow> tiledObject \<Rightarrow> iscene \<Rightarrow> iscene" where
  "runTiledInteraction env obj s =
     (let props = parseProps obj;
          keys = propKeys obj;
          ident = str (nullish (getp props ''id'') (JStr (obj_name obj)))
      in if ident = [] then s
         else if isInteractionDisabled ident (gameState s) then s
         else
          (let gs = gameState s;
               helpedKey = postHelpedKey props;
               isAlreadyHelped = (helpedKey \<noteq> [] \<and> isHelped helpedKey gs);
               requireOnce = isTrue (getp props ''requiresitemonce'');
               currentUses = (case counts gs ident of None \<Rightarrow> 0 | Some c \<Rightarrow> c);
               skipRequiresIfHelped = (getp props ''requiresitemskipifhelped'' = JUndefined \<or>
                                       isTrue (getp props ''requiresitemskipifhelped''));
               reqSatisfiedFlag = flagKey ''__req_satisfied'' [JStr (thisSceneKey (world s)), JStr ident];
               shouldCheckRequires = (getAnyFlag reqSatisfiedFlag gs \<noteq> JBool True \<and>
                                      \<not> (skipRequiresIfHelped \<and> isAlreadyHelped) \<and>
                                      \<not> (requireOnce \<and> currentUses > 0))
           in if shouldCheckRequires \<and> requirementsMissing props gs then
                emit (StartDialogue
                        [Say [] (str (nullish (getp props ''denydialogue'')
                                        (JStr (''You can'' @ [CHR 0x27] @ ''t do that yet.'')))), End]
                        None) s
              else
               (let s1 = (if shouldCheckRequires then onGS (setAnyFlag reqSatisfiedFlag (JBool True)) s else s)
                in if isAlreadyHelped then postHelpDialogue keys ident props s1
                   else
                    (let (useIndex, gs2) = incrementInteractionCount ident (gameState s1);
                         s2 = s1\<lparr>gameState := gs2\<rparr>;
                         preName = (if Boolean_js (getp props ''presfx'') then trim (String_js (getp props ''presfx'')) else []);
                         preOnce = (getp props ''presfxonce'' = JBool True);
                         preBase = clampInt (nullish (getp props ''presfxbase'') (JNum 100)) 0 100;
                         allowPre = (preName = [] \<or> \<not> preOnce \<or> useIndex = 1)
                     in if allowPre \<and> preName \<noteq> []
                        then runMain env keys ident props useIndex
                               (safePlay env (JStr preName) (of_int preBase / 100) s2)
                        else runMain env keys ident props useIndex s2))))"


section \<open>Observations and example interactions\<close>

definition startedScripts :: "iscene \<Rightarrow> closure step list list" where
  \<comment> \<open>the scripts passed to \<open>dialogue.start\<close> so far, in call order\<close>
  "startedScripts s =
     concat (map (\<lambda>e. case e of StartDialogue scr c \<Rightarrow> [scr] | _ \<Rightarrow> []) (effects (world s)))"

definition saidLines :: "'a step list \<Rightarrow> string list" where
  \<comment> \<open>the texts of the \<open>say\<close> steps of a script\<close>
  "saidLines scr = concat (map (\<lambda>st. case st of Say sp txt \<Rightarrow> [txt] | _ \<Rightarrow> []) scr)"

definition exampleInterScene :: iscene where
  "exampleInterScene =
     \<lparr>gameState = initialGameState, dialogueIsActive = False,
      world = \<lparr>thisSceneKey = ''CityScene'', prompts = [(''chest'', ''Open''), (''baker'', ''Talk'')],
                colliderIds = [], spawnedNpcIds = [], pendingChoiceEffect = None, effects = []\<rparr>\<rparr>"

definition exampleOnceObject :: tiledObject where
  \<comment> \<open>an interaction marked \<open>once\<close> with two dialogue lines\<close>
  "exampleOnceObject =
     \<lparr>obj_name = ''chest'', obj_x = Some 0, obj_y = Some 0, obj_width = Some 16, obj_height = Some 16,
      properties = [(''id'', JStr ''chest''), (''once'', JBool True),
                    (''dialogue'', JStr ''It is stuck.''), (''dialogue2'', JStr ''It opens.'')]\<rparr>"

definition exampleOnceFirstUse :: iscene where
  \<comment> \<open>the first use of the chest, with the completion callback of its dialogue run\<close>
  "exampleOnceFirstUse =
     runCompletion exampleAudioEnv (Complete False ''chest'' (parseProps exampleOnceObject) False)
       (runTiledInteraction exampleAudioEnv exampleOnceObject exampleInterScene)"

definition exampleBakerObject :: tiledObject where
  \<comment> \<open>a helped NPC with two post-help lines and a follower line\<close>
  "exampleBakerObject =
     \<lparr>obj_name = ''baker'', obj_x = Some 0, obj_y = Some 0, obj_width = Some 16, obj_height = Some 16,
      properties = [(''id'', JStr ''baker''), (''speaker'', JStr ''Baker''),
                    (''postDialogue'', JStr ''Thanks again!''),
                    (''postDialogue2'', JStr ''See you at the party.''),
                    (''followDialogue'', JStr ''Saga: We should go.'')]\<rparr>"

definition exampleHelpedScene :: iscene where
  \<comment> \<open>the baker is helped and nobody follows the player\<close>
  "exampleHelpedScene = onGS (markHelped ''Baker'' True) exampleInterScene"

definition exampleHelpedSceneWithSaga :: iscene where
  \<comment> \<open>the baker is helped and Saga follows the player\<close>
  "exampleHelpedSceneWithSaga = onGS (setAnyFlag ''sagaJoined'' (JBool True)) exampleHelpedScene"

definition exampleSfxBakerObject :: tiledObject where
  \<comment> \<open>a helped NPC whose first post-help line has a line sound\<close>
  "exampleSfxBakerObject =
     \<lparr>obj_name = ''baker'', obj_x = Some 0, obj_y = Some 0, obj_width = Some 16, obj_height = Some 16,
      properties = [(''id'', JStr ''baker''), (''speaker'', JStr ''Baker''),
                    (''postDialogue'', JStr ''Thanks again!''),
                    (''postDialogueSfx'', JStr ''knock''),
                    (''postDialogue2'', JStr ''See you at the party.'')]\<rparr>"


section \<open>An invariant for the choice effects\<close>

text \<open>
  For the help score under the effects of a choice: the score has the value \<open>c\<close> (when one
  is given), the scene key is \<open>sk\<close>, and the flag \<open>k\<close> satisfies \<open>P\<close>.
\<close>

definition helpInv :: "int option \<Rightarrow> string \<Rightarrow> string \<Rightarrow> (jsval \<Rightarrow> bool) \<Rightarrow> iscene \<Rightarrow> bool" where
  "helpInv c sk k P s =
     ((\<forall>x. c = Some x \<longrightarrow> helpScore (gameState s) = x) \<and> thisSceneKey (world s) = sk \<and>
      P (getAnyFlag k (gameState s)))"


chapter \<open>Verified properties\<close>

section \<open>Properties of the FlagKey codec\<close>

lemma key_safe_tl: "key_safe (c # s) \<Longrightarrow> key_safe s"
  by (cases s) auto

lemma key_safe_no_sep: "key_safe (a @ ''__'' @ b) \<Longrightarrow> False"
proof (induction a rule: key_safe.induct)
  case 1
  then show ?case by (cases b) auto
next
  case (2 c)
  then show ?case by auto
next
  case (3 c d r)
  then show ?case by auto
qed

lemma sep_split:
  "key_safe p \<Longrightarrow> key_safe p' \<Longrightarrow> p @ ''__'' @ r = p' @ ''__'' @ r' \<Longrightarrow> p = p' \<and> r = r'"
proof (induction p arbitrary: p')
  case Nil
  show ?case
  proof (cases p')
    case Nil
    with Nil.prems show ?thesis by simp
  next
    case (Cons a q)
    with Nil.prems have a: "a = CHR ''_''" and rest: "''_'' @ r = q @ ''__'' @ r'"
      by auto
    show ?thesis
    proof (cases q)
      case Nil
      with Cons a Nil.prems(2) show ?thesis by simp
    next
      case (Cons b q')
      with rest have "b = CHR ''_''" by auto
      with Cons \<open>p' = a # q\<close> a Nil.prems(2) show ?thesis by simp
    qed
  qed
next
  case (Cons a q)
  show ?case
  proof (cases p')
    case Nil
    with Cons.prems have a: "a = CHR ''_''" and rest: "q @ ''__'' @ r = ''_'' @ r'"
      by auto
    show ?thesis
    proof (cases q)
      case Nil
      with a Cons.prems(1) show ?thesis by simp
    next
      case (Cons b q')
      with rest have "b = CHR ''_''" by auto
      with Cons a Cons.prems(1) show ?thesis by simp
    qed
  next
    case (Cons a' q')
    with Cons.prems have "a = a'" and eq: "q @ ''__'' @ r = q' @ ''__'' @ r'"
      by auto
    moreover have "key_safe q" "key_safe q'"
      using Cons.prems Cons key_safe_tl by blast+
    ultimately show ?thesis
      using Cons.IH [of q'] Cons by simp
  qed
qed

lemma join_sep_inj:
  "ps \<noteq> [] \<Longrightarrow> ps' \<noteq> [] \<Longrightarrow> \<forall>p \<in> set ps. key_safe p \<Longrightarrow> \<forall>p \<in> set ps'. key_safe p \<Longrightarrow>
   join_js ''__'' ps = join_js ''__'' ps' \<Longrightarrow> ps = ps'"
proof (induction ps arbitrary: ps')
  case Nil
  then show ?case by simp
next
  case (Cons p qs)
  obtain p' qs' where ps': "ps' = p' # qs'"
    using Cons.prems(2) by (cases ps') auto
  show ?case
  proof (cases qs)
    case Nil
    show ?thesis
    proof (cases qs')
      case Nil
      with \<open>qs = []\<close> ps' Cons.prems show ?thesis by simp
    next
      case (Cons q' rs')
      with \<open>qs = []\<close> ps' Cons.prems have "p = p' @ ''__'' @ join_js ''__'' (q' # rs')"
        by simp
      moreover have "key_safe p" using Cons.prems by simp
      ultimately show ?thesis using key_safe_no_sep by metis
    qed
  next
    case (Cons q rs)
    note qs = this
    show ?thesis
    proof (cases qs')
      case Nil
      with qs ps' Cons.prems have "p' = p @ ''__'' @ join_js ''__'' (q # rs)"
        by simp
      moreover have "key_safe p'" using Cons.prems ps' by simp
      ultimately show ?thesis using key_safe_no_sep by metis
    next
      case (Cons q' rs')
      with qs ps' Cons.prems
      have eq: "p @ ''__'' @ join_js ''__'' qs = p' @ ''__'' @ join_js ''__'' qs'"
        by simp
      have "key_safe p" "key_safe p'" using Cons.prems ps' by simp_all
      with eq have "p = p'" and j: "join_js ''__'' qs = join_js ''__'' qs'"
        using sep_split by blast+
      moreover have "qs = qs'"
        using Cons.IH [of qs'] j qs Cons Cons.prems ps' by simp
      ultimately show ?thesis using ps' by simp
    qed
  qed
qed

lemma pipe_split:
  "CHR ''|'' \<notin> set p \<Longrightarrow> CHR ''|'' \<notin> set p' \<Longrightarrow> p @ ''|'' @ r = p' @ ''|'' @ r' \<Longrightarrow> p = p' \<and> r = r'"
proof (induction p arbitrary: p')
  case Nil
  then show ?case by (cases p') auto
next
  case (Cons a q)
  then show ?case by (cases p') auto
qed

lemma join_pipe_inj:
  "\<forall>p \<in> set ps. pipe_safe p \<Longrightarrow> \<forall>p \<in> set ps'. pipe_safe p \<Longrightarrow>
   join_js ''|'' ps = join_js ''|'' ps' \<Longrightarrow> ps = ps'"
proof (induction ps arbitrary: ps')
  case Nil
  show ?case
  proof (cases ps')
    case Nil
    then show ?thesis by simp
  next
    case (Cons p' qs')
    with Nil.prems show ?thesis by (cases qs') (auto simp: pipe_safe_def)
  qed
next
  case (Cons p qs)
  have np: "p \<noteq> []" "CHR ''|'' \<notin> set p"
    using Cons.prems by (auto simp: pipe_safe_def)
  show ?case
  proof (cases ps')
    case Nil
    with Cons.prems np show ?thesis by (cases qs) auto
  next
    case (Cons p' qs')
    note ps' = this
    have np': "p' \<noteq> []" "CHR ''|'' \<notin> set p'"
      using Cons.prems ps' by (auto simp: pipe_safe_def)
    show ?thesis
    proof (cases qs)
      case Nil
      note qs = this
      show ?thesis
      proof (cases qs')
        case Nil
        with qs ps' Cons.prems show ?thesis by simp
      next
        case (Cons q' rs')
        with qs ps' Cons.prems have "p = p' @ ''|'' @ join_js ''|'' (q' # rs')" by simp
        with np show ?thesis by auto
      qed
    next
      case (Cons q rs)
      note qs = this
      show ?thesis
      proof (cases qs')
        case Nil
        with qs ps' Cons.prems have "p' = p @ ''|'' @ join_js ''|'' (q # rs)" by simp
        with np' show ?thesis by auto
      next
        case (Cons q' rs')
        with qs ps' Cons.prems
        have eq: "p @ ''|'' @ join_js ''|'' qs = p' @ ''|'' @ join_js ''|'' qs'" by simp
        with np np' have "p = p'" and j: "join_js ''|'' qs = join_js ''|'' qs'"
          using pipe_split by blast+
        moreover have "qs = qs'"
          using Cons.IH [of qs'] j Cons.prems ps' by simp
        ultimately show ?thesis using ps' by simp
      qed
    qed
  qed
qed

lemma filter_Boolean_JStr:
  "\<forall>p \<in> set ps. pipe_safe p \<Longrightarrow> map String_js (filter Boolean_js (map JStr ps)) = ps"
  by (induction ps) (auto simp: pipe_safe_def)

lemma flagKey_inj_safe:
  assumes "c = c' \<or> (key_safe c \<and> key_safe c')" "ss \<noteq> []" "ss' \<noteq> []"
    "\<forall>p \<in> set ss. key_safe p" "\<forall>p \<in> set ss'. key_safe p"
    "flagKey c (map JStr ss) = flagKey c' (map JStr ss')"
  shows "c = c' \<and> ss = ss'"
proof -
  have m: "map String_js (map JStr ss) = ss" "map String_js (map JStr ss') = ss'"
    by (simp_all add: comp_def)
  from assms(6) have eq: "c @ ''__'' @ join_js ''__'' ss = c' @ ''__'' @ join_js ''__'' ss'"
    unfolding flagKey_def m by simp
  from assms(1) have "c = c' \<and> join_js ''__'' ss = join_js ''__'' ss'"
  proof
    assume "c = c'"
    with eq show ?thesis by simp
  next
    assume "key_safe c \<and> key_safe c'"
    with eq show ?thesis using sep_split by blast
  qed
  with assms show ?thesis using join_sep_inj by blast
qed

lemma flagKey_interactions_inj_safe:
  assumes "\<forall>p \<in> set ss. pipe_safe p" "\<forall>p \<in> set ss'. pipe_safe p"
    "flagKey_interactions (map JStr ss) = flagKey_interactions (map JStr ss')"
  shows "ss = ss'"
proof -
  from assms have "join_js ''|'' ss = join_js ''|'' ss'"
    by (simp add: flagKey_interactions_def filter_Boolean_JStr)
  with assms show ?thesis using join_pipe_inj by blast
qed

lemma continuesCategory_intro: "us \<noteq> [] \<Longrightarrow> hd us = CHR ''_'' \<Longrightarrow> continuesCategory c (c @ us)"
  by (cases us) (simp_all add: continuesCategory_def)

lemma sep_prefix_cross:
  assumes "c \<noteq> c'" "\<not> continuesCategory c c'" "\<not> continuesCategory c' c"
  shows "c @ ''__'' @ r \<noteq> c' @ ''__'' @ r'"
proof
  assume "c @ ''__'' @ r = c' @ ''__'' @ r'"
  then obtain us where "(c = c' @ us \<and> us @ ''__'' @ r = ''__'' @ r') \<or>
                        (c @ us = c' \<and> ''__'' @ r = us @ ''__'' @ r')"
    by (auto simp: append_eq_append_conv2)
  then show False
  proof
    assume a: "c = c' @ us \<and> us @ ''__'' @ r = ''__'' @ r'"
    with assms(1) have ne: "us \<noteq> []" by auto
    with a have "hd us = CHR ''_''" by (cases us) auto
    with ne a have "continuesCategory c' c" using continuesCategory_intro by blast
    with assms(3) show False by simp
  next
    assume a: "c @ us = c' \<and> ''__'' @ r = us @ ''__'' @ r'"
    with assms(1) have ne: "us \<noteq> []" by auto
    with a have "hd us = CHR ''_''" by (cases us) auto
    with ne a have "continuesCategory c c'" using continuesCategory_intro by blast
    with assms(2) show False by simp
  qed
qed

lemma flagKey_cross_category:
  assumes "c \<noteq> c'" "\<not> continuesCategory c c'" "\<not> continuesCategory c' c"
  shows "flagKey c ps \<noteq> flagKey c' ps'"
  unfolding flagKey_def using sep_prefix_cross [OF assms] by simp

lemma sceneFlagCategories_apart:
  "\<forall>c \<in> set sceneFlagCategories. \<forall>c' \<in> set sceneFlagCategories. \<not> continuesCategory c c'"
  by (simp add: sceneFlagCategories_def continuesCategory_def)

lemma flagKey_inj_apart:
  assumes "c = c' \<or> (key_safe c \<and> key_safe c') \<or> (\<not> continuesCategory c c' \<and> \<not> continuesCategory c' c)"
    "ss \<noteq> []" "ss' \<noteq> []"
    "\<forall>p \<in> set ss. key_safe p" "\<forall>p \<in> set ss'. key_safe p"
    "flagKey c (map JStr ss) = flagKey c' (map JStr ss')"
  shows "c = c' \<and> ss = ss'"
proof (cases "c = c' \<or> (key_safe c \<and> key_safe c')")
  case True
  then show ?thesis using flagKey_inj_safe [of c c' ss ss'] assms by simp
next
  case False
  with assms(1) have "c \<noteq> c'" "\<not> continuesCategory c c'" "\<not> continuesCategory c' c" by auto
  from flagKey_cross_category [OF this] assms(6) show ?thesis by simp
qed

text \<open>
  Claim C8 (FlagKey codec deterministic and collision-free). Equal tuples give equal keys.
  Unequal tuples can give equal keys: the separator is not escaped, so a part that contains
  \<open>__\<close> reads like two parts. The next theorem is the collision; the one after it is
  what holds.
\<close>

theorem flagKey_collision_counterexample:
  "(''a'', [JStr ''b__c'']) \<noteq> (''a'', [JStr ''b'', JStr ''c'']) \<and>
   flagKey ''a'' [JStr ''b__c''] = flagKey ''a'' [JStr ''b'', JStr ''c'']"
  by (simp add: flagKey_def)

text \<open>
  Claim C8 as amended. The codec is a function. Keys of two different categories differ,
  whatever the parts, when neither category continues the other with an underscore; this
  holds of any two of the categories the scene passes. Within one category (and between
  categories as above, or separator-safe ones) equal keys on non-empty lists of
  separator-safe string parts come only from equal tuples. The module-level \<open>flagKey\<close>,
  whose category is its first part, is collision-free on pipe-safe string parts.
\<close>

theorem flagKey_deterministic_and_collision_free_on_safe_parts:
  "(c = c' \<and> ps = ps' \<longrightarrow> flagKey c ps = flagKey c' ps') \<and>
   (c \<noteq> c' \<and> \<not> continuesCategory c c' \<and> \<not> continuesCategory c' c \<longrightarrow> flagKey c ps \<noteq> flagKey c' ps') \<and>
   (c \<in> set sceneFlagCategories \<and> c' \<in> set sceneFlagCategories \<and> c \<noteq> c' \<longrightarrow>
      flagKey c ps \<noteq> flagKey c' ps') \<and>
   ((c = c' \<or> (key_safe c \<and> key_safe c') \<or> (\<not> continuesCategory c c' \<and> \<not> continuesCategory c' c)) \<and>
    ss \<noteq> [] \<and> ss' \<noteq> [] \<and>
    (\<forall>p \<in> set ss. key_safe p) \<and> (\<forall>p \<in> set ss'. key_safe p) \<and>
    flagKey c (map JStr ss) = flagKey c' (map JStr ss') \<longrightarrow> c = c' \<and> ss = ss') \<and>
   ((\<forall>p \<in> set ss. pipe_safe p) \<and> (\<forall>p \<in> set ss'. pipe_safe p) \<and>
    flagKey_interactions (map JStr ss) = flagKey_interactions (map JStr ss') \<longrightarrow> ss = ss')"
proof (intro conjI impI)
  assume "c = c' \<and> ps = ps'"
  then show "flagKey c ps = flagKey c' ps'" by simp
next
  assume "c \<noteq> c' \<and> \<not> continuesCategory c c' \<and> \<not> continuesCategory c' c"
  then show "flagKey c ps \<noteq> flagKey c' ps'" using flagKey_cross_category by blast
next
  assume a: "c \<in> set sceneFlagCategories \<and> c' \<in> set sceneFlagCategories \<and> c \<noteq> c'"
  then have "\<not> continuesCategory c c'" "\<not> continuesCategory c' c"
    using sceneFlagCategories_apart by blast+
  with a show "flagKey c ps \<noteq> flagKey c' ps'" using flagKey_cross_category by blast
next
  assume a: "(c = c' \<or> (key_safe c \<and> key_safe c') \<or> (\<not> continuesCategory c c' \<and> \<not> continuesCategory c' c)) \<and>
    ss \<noteq> [] \<and> ss' \<noteq> [] \<and>
    (\<forall>p \<in> set ss. key_safe p) \<and> (\<forall>p \<in> set ss'. key_safe p) \<and>
    flagKey c (map JStr ss) = flagKey c' (map JStr ss')"
  then have "c = c' \<and> ss = ss'" by (intro flagKey_inj_apart) simp_all
  then show "c = c'" "ss = ss'" by simp_all
next
  assume "(\<forall>p \<in> set ss. pipe_safe p) \<and> (\<forall>p \<in> set ss'. pipe_safe p) \<and>
    flagKey_interactions (map JStr ss) = flagKey_interactions (map JStr ss')"
  then show "ss = ss'" using flagKey_interactions_inj_safe by blast
qed

theorem flagKey_collision_free_witness:
  "flagKey ''__give_once'' [JStr ''CityScene'', JStr ''chest'', JStr ''key'']
     \<noteq> flagKey ''__take_once'' [JStr ''CityScene'', JStr ''chest'', JStr ''key''] \<and>
   flagKey ''__give_once'' [JStr ''CityScene'', JStr ''chest'', JStr ''key'']
     \<noteq> flagKey ''__give_once'' [JStr ''CityScene'', JStr ''chest2'', JStr ''key''] \<and>
   flagKey_interactions [JStr ''__take_once'', JStr ''CityScene'', JStr ''chest'']
     \<noteq> flagKey_interactions [JStr ''__take_once'', JStr ''CityScene'', JStr ''chest2'']"
  using flagKey_deterministic_and_collision_free_on_safe_parts
    [of "''__give_once''" "''__take_once''" "[JStr ''CityScene'', JStr ''chest'', JStr ''key'']"
        "[JStr ''CityScene'', JStr ''chest'', JStr ''key'']" "[''a'']" "[''a'']"]
    flagKey_deterministic_and_collision_free_on_safe_parts
    [of "''__give_once''" "''__give_once''" "[]" "[]" "[''CityScene'', ''chest'', ''key'']"
        "[''CityScene'', ''chest2'', ''key'']"]
    flagKey_deterministic_and_collision_free_on_safe_parts
    [of "''x''" "''x''" "[]" "[]" "[''__take_once'', ''CityScene'', ''chest'']"
        "[''__take_once'', ''CityScene'', ''chest2'']"]
  by (simp add: pipe_safe_def sceneFlagCategories_def continuesCategory_def)


section \<open>Properties of the numbered-key collectors\<close>

lemma numberedFrom_takeWhile:
  "numberedFrom props b i =
     takeWhile (\<lambda>k. getp props k \<noteq> JUndefined) (map (\<lambda>j. b @ string_of_nat j) [i..<100])"
proof (induction props b i rule: numberedFrom.induct)
  case (1 props baseKey i)
  show ?case
  proof (cases "i \<le> 99")
    case True
    then have u: "[i..<100] = i # [i + 1..<100]"
      by (simp add: upt_conv_Cons)
    show ?thesis
      using True 1 by (subst numberedFrom.simps) (simp add: u)
  next
    case False
    then show ?thesis
      by (subst numberedFrom.simps) simp
  qed
qed

lemma propLinesFrom_takeWhile:
  "propLinesFrom props k0 i =
     concat (map (\<lambda>k. lineOf (getp props k))
       (takeWhile (\<lambda>k. props k \<noteq> None) (map (\<lambda>j. k0 @ string_of_nat j) [i..<51])))"
proof (induction props k0 i rule: propLinesFrom.induct)
  case (1 props k0 i)
  show ?case
  proof (cases "i \<le> 50")
    case True
    then have u: "[i..<51] = i # [i + 1..<51]"
      by (simp add: upt_conv_Cons)
    show ?thesis
      using True 1 by (subst propLinesFrom.simps) (simp add: u)
  next
    case False
    then show ?thesis
      by (subst propLinesFrom.simps) simp
  qed
qed

text \<open>
  Claim C2 (the collector returns the consecutive run and collects nothing after a missing
  base key). The loop over the numbered keys starts at index 2 whether or not the base key
  is defined, so a table that has \<open>dialogue2\<close> but no \<open>dialogue\<close> yields \<open>dialogue2\<close>.
\<close>

theorem getNumberedKeys_gap_counterexample:
  "getp [''dialogue2'' \<mapsto> JStr ''x''] ''dialogue'' = JUndefined \<and>
   getNumberedKeys [''dialogue2'' \<mapsto> JStr ''x''] ''dialogue'' = [''dialogue2'']"
  by (simp add: getNumberedKeys_def getp_def numberedFrom.simps string_of_nat.simps digit_char_def)

text \<open>
  Claim C2 as amended: the collector returns the base key when it is defined, followed by
  the run \<open>prefix2, prefix3, ...\<close> up to the first undefined index from 2 on (at most
  index 99), whether or not the base key is defined. The line collector of the follower
  dialogue does the same up to index 50, breaking at the first key not in the table and
  keeping the trimmed non-blank values.
\<close>

theorem getNumberedKeys_run:
  "getNumberedKeys props b =
     (if getp props b \<noteq> JUndefined then [b] else []) @
     takeWhile (\<lambda>k. getp props k \<noteq> JUndefined) (map (\<lambda>i. b @ string_of_nat i) [2..<100]) \<and>
   getNumberedPropLines props (JStr b) =
     (if toLowerCase (trim b) = [] then []
      else lineOf (getp props (toLowerCase (trim b))) @
        concat (map (\<lambda>k. lineOf (getp props k))
          (takeWhile (\<lambda>k. props k \<noteq> None)
             (map (\<lambda>i. toLowerCase (trim b) @ string_of_nat i) [2..<51]))))"
  by (simp add: getNumberedKeys_def getNumberedPropLines_def numberedFrom_takeWhile
      propLinesFrom_takeWhile str_def nullish_def Let_def)

theorem getNumberedKeys_run_witness:
  "getNumberedKeys [''dialogue'' \<mapsto> JStr ''a'', ''dialogue2'' \<mapsto> JStr ''b'', ''dialogue4'' \<mapsto> JStr ''d''] ''dialogue''
   = [''dialogue'', ''dialogue2'']"
  using getNumberedKeys_run [of "[''dialogue'' \<mapsto> JStr ''a'', ''dialogue2'' \<mapsto> JStr ''b'', ''dialogue4'' \<mapsto> JStr ''d'']" "''dialogue''"]
  by (simp add: getp_def upt_conv_Cons string_of_nat.simps digit_char_def)



section \<open>The global clock\<close>

lemma tick_mono: "realTimeMs gs \<le> realTimeMs (tickGlobalRealTime delta gs)"
  by (auto simp: tickGlobalRealTime_def split: option.splits)

text \<open>
  Claim C9 (the global real-time clock never decreases and is paused while dialogue is
  active). \<open>GameState.realTimeMs\<close> is assigned in \<open>_tickGlobalRealTime\<close> only, so the
  other steps of a frame keep it. Then every frame leaves the clock at least where it
  was; a frame that finds the dialogue active leaves it exactly unchanged; any other
  frame advances it by the frame delta when that is a positive finite number.
\<close>

theorem realTimeMs_monotone_and_paused_in_dialogue:
  assumes "keepsClock pre" "keepsClock inDialogue" "keepsClock (afterTick allowMovement)"
  shows "realTimeMs (gameState s)
           \<le> realTimeMs (gameState (fst (baseUpdateFrame pre inDialogue afterTick delta allowMovement s))) \<and>
         (dialogueIsActive (pre s) \<longrightarrow>
           realTimeMs (gameState (fst (baseUpdateFrame pre inDialogue afterTick delta allowMovement s)))
             = realTimeMs (gameState s)) \<and>
         (\<not> dialogueIsActive (pre s) \<longrightarrow>
           realTimeMs (gameState (fst (baseUpdateFrame pre inDialogue afterTick delta allowMovement s)))
             = realTimeMs (gameState s) + (case delta of None \<Rightarrow> 0 | Some d \<Rightarrow> max 0 d))"
proof -
  have p: "realTimeMs (gameState (pre s)) = realTimeMs (gameState s)"
    using assms(1) by (simp add: keepsClock_def)
  show ?thesis
  proof (cases "dialogueIsActive (pre s)")
    case True
    then show ?thesis
      using assms(2) p by (simp add: baseUpdateFrame_def keepsClock_def Let_def)
  next
    case False
    have "realTimeMs (gameState (afterTick allowMovement
            ((pre s)\<lparr>gameState := tickGlobalRealTime delta (gameState (pre s))\<rparr>)))
          = realTimeMs (tickGlobalRealTime delta (gameState (pre s)))"
      using assms(3) by (simp add: keepsClock_def)
    with False p show ?thesis
      by (auto simp: baseUpdateFrame_def Let_def tickGlobalRealTime_def split: option.splits)
  qed
qed

theorem realTimeMs_witness:
  "realTimeMs (gameState (fst (baseUpdateFrame id id (\<lambda>b s. s\<lparr>dialogueIsActive := True\<rparr>) (Some 16) True
      \<lparr>gameState = initialGameState\<lparr>realTimeMs := 100\<rparr>, dialogueIsActive = True, world = ()\<rparr>))) = 100 \<and>
   realTimeMs (gameState (fst (baseUpdateFrame id id (\<lambda>b s. s\<lparr>dialogueIsActive := True\<rparr>) (Some 16) True
      \<lparr>gameState = initialGameState\<lparr>realTimeMs := 100\<rparr>, dialogueIsActive = False, world = ()\<rparr>))) = 116"
  using realTimeMs_monotone_and_paused_in_dialogue
      [of id id "\<lambda>b s. s\<lparr>dialogueIsActive := True\<rparr>" True
      "\<lparr>gameState = initialGameState\<lparr>realTimeMs := 100\<rparr>, dialogueIsActive = True, world = ()\<rparr>" "Some 16"]
    realTimeMs_monotone_and_paused_in_dialogue
      [of id id "\<lambda>b s. s\<lparr>dialogueIsActive := True\<rparr>" True
      "\<lparr>gameState = initialGameState\<lparr>realTimeMs := 100\<rparr>, dialogueIsActive = False, world = ()\<rparr>" "Some 16"]
  by (simp add: keepsClock_def initialGameState_def)


section \<open>The NPC waypoint mover\<close>

lemma moveEntries_Cons:
  "moveEntries ((i, st) # es) sp =
     (fst (moveEntries es (fst (moveEntry i st sp))),
      (case snd (moveEntry i st sp) of
         None \<Rightarrow> snd (moveEntries es (fst (moveEntry i st sp)))
       | Some st' \<Rightarrow> (i, st') # snd (moveEntries es (fst (moveEntry i st sp)))))"
  by (simp add: case_prod_beta)

lemma moveEntry_other:
  "j \<noteq> ident \<Longrightarrow> fst (moveEntry ident st spawned) j = spawned j"
  by (auto simp: moveEntry_def Let_def split: option.splits)

lemma moveEntries_other:
  "j \<notin> fst ` set es \<Longrightarrow> fst (moveEntries es spawned) j = spawned j"
proof (induction es arbitrary: spawned)
  case Nil
  then show ?case by simp
next
  case (Cons e es)
  obtain i st where e: "e = (i, st)" by (cases e)
  from Cons.prems e have ne: "j \<noteq> i" and notin: "j \<notin> fst ` set es" by auto
  have "fst (moveEntries es (fst (moveEntry i st spawned))) j = fst (moveEntry i st spawned) j"
    using Cons.IH [OF notin] .
  then show ?case
    using ne unfolding e moveEntries_Cons by (simp add: moveEntry_other)
qed

lemma moveEntries_keys:
  "fst ` set (snd (moveEntries es spawned)) \<subseteq> fst ` set es"
proof (induction es arbitrary: spawned)
  case Nil
  then show ?case by simp
next
  case (Cons e es)
  obtain i st where e: "e = (i, st)" by (cases e)
  have "fst ` set (snd (moveEntries es (fst (moveEntry i st spawned)))) \<subseteq> fst ` set es"
    using Cons.IH .
  then show ?case
    unfolding e moveEntries_Cons by (auto split: option.splits)
qed

lemma moveEntry_arrive:
  assumes "spawned ident = Some n" "isSprite n" "hasRect n" "points st = [w]" "idx st = 0"
    "arrivalMet st n"
  shows "moveEntry ident st spawned =
     (spawned(ident \<mapsto> stopNpc (n\<lparr>npc_x := fst w, npc_y := snd w, velocity := (0, 0)\<rparr>)), None)"
  using assms by (simp add: moveEntry_def Let_def)

lemma moveEntries_arrive:
  assumes "distinct (map fst es)" "(ident, st) \<in> set es"
    "spawned ident = Some n" "isSprite n" "hasRect n" "points st = [w]" "idx st = 0"
    "arrivalMet st n"
  shows "fst (moveEntries es spawned) ident =
           Some (stopNpc (n\<lparr>npc_x := fst w, npc_y := snd w, velocity := (0, 0)\<rparr>)) \<and>
         ident \<notin> fst ` set (snd (moveEntries es spawned))"
  using assms
proof (induction es arbitrary: spawned)
  case Nil
  then show ?case by simp
next
  case (Cons e es)
  obtain i st0 where e: "e = (i, st0)" by (cases e)
  show ?case
  proof (cases "i = ident")
    case True
    with Cons.prems e have st0: "st0 = st" and notin: "ident \<notin> fst ` set es"
      by (auto simp: image_iff)
    have m: "moveEntry ident st spawned =
      (spawned(ident \<mapsto> stopNpc (n\<lparr>npc_x := fst w, npc_y := snd w, velocity := (0, 0)\<rparr>)), None)"
      using moveEntry_arrive Cons.prems by blast
    have k: "fst ` set (snd (moveEntries es (fst (moveEntry ident st spawned)))) \<subseteq> fst ` set es"
      by (rule moveEntries_keys)
    show ?thesis
      unfolding e True st0 moveEntries_Cons
      using notin k by (auto simp: m moveEntries_other)
  next
    case False
    with Cons.prems e have inn: "(ident, st) \<in> set es" and d: "distinct (map fst es)" by auto
    have sp: "fst (moveEntry i st0 spawned) ident = Some n"
      using False Cons.prems(3) by (simp add: moveEntry_other)
    have IH: "fst (moveEntries es (fst (moveEntry i st0 spawned))) ident =
           Some (stopNpc (n\<lparr>npc_x := fst w, npc_y := snd w, velocity := (0, 0)\<rparr>)) \<and>
         ident \<notin> fst ` set (snd (moveEntries es (fst (moveEntry i st0 spawned))))"
      using Cons.IH [of "fst (moveEntry i st0 spawned)"] d inn sp Cons.prems by blast
    then show ?thesis
      unfolding e moveEntries_Cons using False by (auto split: option.splits)
  qed
qed

lemma updateMovingNpcs_alt:
  "updateMovingNpcs s =
     s\<lparr>spawnedNpcsById := fst (moveEntries (movingNpcById s) (spawnedNpcsById s)),
       movingNpcById := snd (moveEntries (movingNpcById s) (spawnedNpcsById s))\<rparr>"
  by (simp add: updateMovingNpcs_def case_prod_beta)

lemma map_of_None_iff: "map_of es k = None \<longleftrightarrow> k \<notin> fst ` set es"
  by (simp add: map_of_eq_None_iff)

lemma hypot_scale: "hypot (a * c) (b * c) = \<bar>c\<bar> * hypot a b"
proof -
  have "a * c * (a * c) + b * c * (b * c) = (c * c) * (a * a + b * b)" by (simp add: algebra_simps)
  then show ?thesis by (simp add: hypot_def real_sqrt_mult)
qed

lemma hypot_step:
  assumes "hypot dx dy > 0"
  shows "hypot (dx - dx / hypot dx dy * l) (dy - dy / hypot dx dy * l) = \<bar>hypot dx dy - l\<bar>"
proof -
  let ?D = "hypot dx dy"
  have a: "dx - dx / ?D * l = dx * (1 - l / ?D)" "dy - dy / ?D * l = dy * (1 - l / ?D)"
    by (simp_all add: algebra_simps)
  have "hypot (dx * (1 - l / ?D)) (dy * (1 - l / ?D)) = \<bar>1 - l / ?D\<bar> * ?D"
    by (rule hypot_scale)
  also have "\<dots> = \<bar>(1 - l / ?D) * ?D\<bar>" using assms by (simp add: abs_mult)
  also have "(1 - l / ?D) * ?D = ?D - l" using assms by (simp add: field_simps)
  finally show ?thesis unfolding a .
qed

lemma steer_fields:
  "npc_x (steer st n) = npc_x n" "npc_y (steer st n) = npc_y n"
  "isSprite (steer st n) = isSprite n" "hasRect (steer st n) = hasRect n"
  "velocity (steer st n) =
     ((fst (points st ! idx st) - npc_x n) / hypot (fst (points st ! idx st) - npc_x n) (snd (points st ! idx st) - npc_y n)
        * max 1 (orElse (speed st) 40),
      (snd (points st ! idx st) - npc_y n) / hypot (fst (points st ! idx st) - npc_x n) (snd (points st ! idx st) - npc_y n)
        * max 1 (orElse (speed st) 40))"
  by (simp_all add: steer_def Let_def)

lemma moveEntry_steer:
  assumes "spawned ident = Some n" "isSprite n" "hasRect n" "points st = [w]" "idx st = 0"
    "\<not> arrivalMet st n"
  shows "moveEntry ident st spawned = (spawned(ident \<mapsto> steer st n), Some st)"
  using assms by (simp add: moveEntry_def Let_def)

lemma moveEntries_steer:
  assumes "distinct (map fst es)" "(ident, st) \<in> set es"
    "spawned ident = Some n" "isSprite n" "hasRect n" "points st = [w]" "idx st = 0"
    "\<not> arrivalMet st n"
  shows "fst (moveEntries es spawned) ident = Some (steer st n) \<and>
         (ident, st) \<in> set (snd (moveEntries es spawned))"
  using assms
proof (induction es arbitrary: spawned)
  case Nil
  then show ?case by simp
next
  case (Cons e es)
  obtain i st0 where e: "e = (i, st0)" by (cases e)
  show ?case
  proof (cases "i = ident")
    case True
    with Cons.prems e have st0: "st0 = st" and notin: "ident \<notin> fst ` set es"
      by (auto simp: image_iff)
    have m: "moveEntry ident st spawned = (spawned(ident \<mapsto> steer st n), Some st)"
      using moveEntry_steer Cons.prems by blast
    show ?thesis
      unfolding e True st0 moveEntries_Cons
      using notin by (simp add: m moveEntries_other)
  next
    case False
    with Cons.prems e have inn: "(ident, st) \<in> set es" and d: "distinct (map fst es)" by auto
    have sp: "fst (moveEntry i st0 spawned) ident = Some n"
      using False Cons.prems(3) by (simp add: moveEntry_other)
    have IH: "fst (moveEntries es (fst (moveEntry i st0 spawned))) ident = Some (steer st n) \<and>
         (ident, st) \<in> set (snd (moveEntries es (fst (moveEntry i st0 spawned))))"
      using Cons.IH [of "fst (moveEntry i st0 spawned)"] d inn sp Cons.prems by blast
    then show ?thesis
      unfolding e moveEntries_Cons using False by (auto split: option.splits)
  qed
qed

lemma moveEntries_distinct:
  "distinct (map fst es) \<Longrightarrow> distinct (map fst (snd (moveEntries es spawned)))"
proof (induction es arbitrary: spawned)
  case Nil
  then show ?case by simp
next
  case (Cons e es)
  obtain i st where e: "e = (i, st)" by (cases e)
  from Cons.prems e have notin: "i \<notin> fst ` set es" and d: "distinct (map fst es)" by auto
  have k: "fst ` set (snd (moveEntries es (fst (moveEntry i st spawned)))) \<subseteq> fst ` set es"
    by (rule moveEntries_keys)
  have "distinct (map fst (snd (moveEntries es (fst (moveEntry i st spawned)))))"
    using Cons.IH [OF d] .
  then show ?case
    unfolding e moveEntries_Cons using notin k by (auto split: option.splits)
qed


lemma arrived_update:
  assumes "arrivedAt ident w s"
  shows "arrivedAt ident w (updateMovingNpcs s)"
proof -
  from assms have mv: "ident \<notin> fst ` set (movingNpcById s)" by (simp add: arrivedAt_def)
  have sp: "spawnedNpcsById (updateMovingNpcs s) ident = spawnedNpcsById s ident"
    using moveEntries_other [OF mv, of "spawnedNpcsById s"] by (simp add: updateMovingNpcs_alt)
  have mv': "ident \<notin> fst ` set (movingNpcById (updateMovingNpcs s))"
    using moveEntries_keys [of "movingNpcById s" "spawnedNpcsById s"] mv
    by (auto simp: updateMovingNpcs_alt)
  show ?thesis using assms sp mv' by (simp add: arrivedAt_def)
qed

lemma arrived_phys:
  assumes "movesFreely dt ident phys" "arrivedAt ident w s"
  shows "arrivedAt ident w (phys s)"
proof -
  from assms(1) have a: "movingNpcById (phys s) = movingNpcById s"
    and b: "spawnedNpcsById (phys s) ident =
            map_option (\<lambda>n. n\<lparr>npc_x := npc_x n + fst (velocity n) * dt,
                               npc_y := npc_y n + snd (velocity n) * dt\<rparr>)
              (spawnedNpcsById s ident)"
    by (simp_all add: movesFreely_def)
  show ?thesis
    using assms(2) unfolding arrivedAt_def a b by (auto split: option.splits)
qed

lemma arrived_frames:
  assumes "movesFreely dt ident phys" "arrivedAt ident w s"
  shows "arrivedAt ident w (runFrames phys k s)"
  using assms(2)
proof (induction k arbitrary: s)
  case 0
  then show ?case by simp
next
  case (Suc k)
  have "arrivedAt ident w (phys (updateMovingNpcs s))"
    using arrived_phys [OF assms(1)] arrived_update Suc.prems by blast
  then show ?case using Suc.IH by simp
qed

lemma arrive_update:
  assumes "enRoute ident st s" "points st = [w]" "idx st = 0"
    "spawnedNpcsById s ident = Some n" "arrivalMet st n"
  shows "arrivedAt ident w (updateMovingNpcs s)"
proof -
  from assms(1,4) have h: "distinct (map fst (movingNpcById s))" "(ident, st) \<in> set (movingNpcById s)"
    "isSprite n" "hasRect n" by (simp_all add: enRoute_def)
  have a: "fst (moveEntries (movingNpcById s) (spawnedNpcsById s)) ident =
           Some (stopNpc (n\<lparr>npc_x := fst w, npc_y := snd w, velocity := (0, 0)\<rparr>)) \<and>
         ident \<notin> fst ` set (snd (moveEntries (movingNpcById s) (spawnedNpcsById s)))"
    using moveEntries_arrive [of "movingNpcById s" ident st "spawnedNpcsById s" n w] h assms
    by blast
  then show ?thesis
    by (simp add: arrivedAt_def updateMovingNpcs_alt stopNpc_def)
qed

lemma steer_frame:
  assumes phys: "movesFreely dt ident phys"
    and "enRoute ident st s" "points st = [w]" "idx st = 0"
    "spawnedNpcsById s ident = Some n" "\<not> arrivalMet st n"
  shows "enRoute ident st (phys (updateMovingNpcs s)) \<and>
         (\<exists>n'. spawnedNpcsById (phys (updateMovingNpcs s)) ident = Some n' \<and>
               waypointDistance w n' = \<bar>waypointDistance w n - max 1 (orElse (speed st) 40) * dt\<bar>)"
proof -
  let ?u = "updateMovingNpcs s"
  from assms(2,5) have h: "distinct (map fst (movingNpcById s))" "(ident, st) \<in> set (movingNpcById s)"
    "isSprite n" "hasRect n" by (simp_all add: enRoute_def)
  have a: "fst (moveEntries (movingNpcById s) (spawnedNpcsById s)) ident = Some (steer st n) \<and>
         (ident, st) \<in> set (snd (moveEntries (movingNpcById s) (spawnedNpcsById s)))"
    using moveEntries_steer [of "movingNpcById s" ident st "spawnedNpcsById s" n w] h assms
    by blast
  have d: "distinct (map fst (movingNpcById ?u))"
    using moveEntries_distinct [OF h(1)] by (simp add: updateMovingNpcs_alt)
  have su: "spawnedNpcsById ?u ident = Some (steer st n)" and mu: "(ident, st) \<in> set (movingNpcById ?u)"
    using a by (simp_all add: updateMovingNpcs_alt)
  from phys have pa: "movingNpcById (phys ?u) = movingNpcById ?u"
    and pb: "spawnedNpcsById (phys ?u) ident =
            map_option (\<lambda>n. n\<lparr>npc_x := npc_x n + fst (velocity n) * dt,
                               npc_y := npc_y n + snd (velocity n) * dt\<rparr>)
              (spawnedNpcsById ?u ident)"
    by (simp_all add: movesFreely_def)
  let ?n' = "(steer st n)\<lparr>npc_x := npc_x (steer st n) + fst (velocity (steer st n)) * dt,
                            npc_y := npc_y (steer st n) + snd (velocity (steer st n)) * dt\<rparr>"
  have sp: "spawnedNpcsById (phys ?u) ident = Some ?n'" unfolding pb su by simp
  have er: "enRoute ident st (phys ?u)"
    unfolding enRoute_def pa sp using d mu h by (simp add: steer_fields)
  let ?dx = "fst w - npc_x n" and ?dy = "snd w - npc_y n"
  let ?spd = "max 1 (orElse (speed st) 40)"
  have pos: "hypot ?dx ?dy > 0"
  proof -
    have "\<not> hypot ?dx ?dy \<le> max 6 (orElse (arriveDist st) 2)"
      using assms(3,4,6) by (simp add: arrivalMet_def Let_def)
    then show ?thesis by simp
  qed
  have "waypointDistance w ?n' =
          hypot (?dx - ?dx / hypot ?dx ?dy * (?spd * dt)) (?dy - ?dy / hypot ?dx ?dy * (?spd * dt))"
    using assms(3,4) by (simp add: waypointDistance_def steer_fields algebra_simps)
  also have "\<dots> = \<bar>hypot ?dx ?dy - ?spd * dt\<bar>" by (rule hypot_step [OF pos])
  finally have "waypointDistance w ?n' = \<bar>waypointDistance w n - ?spd * dt\<bar>"
    by (simp add: waypointDistance_def)
  with er sp show ?thesis by blast
qed

lemma frames_reach:
  assumes phys: "movesFreely dt ident phys" and st: "points st = [w]" "idx st = 0"
    and dt: "0 < dt" "max 1 (orElse (speed st) 40) * dt \<le> 2 * max 6 (orElse (arriveDist st) 2)"
  shows "enRoute ident st s \<Longrightarrow> spawnedNpcsById s ident = Some n \<Longrightarrow>
         waypointDistance w n \<le> max 6 (orElse (arriveDist st) 2) + real m * (max 1 (orElse (speed st) 40) * dt) \<Longrightarrow>
         m < k \<Longrightarrow> arrivedAt ident w (runFrames phys k s)"
proof (induction m arbitrary: s n k)
  case 0
  then have "arrivalMet st n" using st by (simp add: arrivalMet_def Let_def waypointDistance_def)
  then have a: "arrivedAt ident w (updateMovingNpcs s)" using arrive_update 0 st by blast
  obtain k' where k: "k = Suc k'" using 0 by (cases k) auto
  have "arrivedAt ident w (phys (updateMovingNpcs s))" using arrived_phys [OF phys a] .
  then show ?case unfolding k using arrived_frames [OF phys] by simp
next
  case (Suc m)
  obtain k' where k: "k = Suc k'" and mk: "m < k'" using Suc.prems by (cases k) auto
  let ?L = "max 1 (orElse (speed st) 40) * dt" and ?A = "max 6 (orElse (arriveDist st) 2)"
  show ?case
  proof (cases "arrivalMet st n")
    case True
    then have a: "arrivedAt ident w (updateMovingNpcs s)" using arrive_update Suc.prems st by blast
    have "arrivedAt ident w (phys (updateMovingNpcs s))" using arrived_phys [OF phys a] .
    then show ?thesis unfolding k using arrived_frames [OF phys] by simp
  next
    case False
    from steer_frame [OF phys Suc.prems(1) st Suc.prems(2) False]
    obtain n' where er: "enRoute ident st (phys (updateMovingNpcs s))"
      and sp: "spawnedNpcsById (phys (updateMovingNpcs s)) ident = Some n'"
      and dist: "waypointDistance w n' = \<bar>waypointDistance w n - ?L\<bar>" by blast
    have far: "waypointDistance w n > ?A"
      using False st by (simp add: arrivalMet_def Let_def waypointDistance_def not_le)
    have Lpos: "0 < ?L" using dt(1) by (simp add: mult_pos_pos)
    have "\<bar>waypointDistance w n - ?L\<bar> \<le> ?A + real m * ?L"
    proof (cases "?L \<le> waypointDistance w n")
      case True
      then have "\<bar>waypointDistance w n - ?L\<bar> = waypointDistance w n - ?L" by simp
      also have "\<dots> \<le> ?A + real (Suc m) * ?L - ?L" using Suc.prems(3) by simp
      also have "\<dots> = ?A + real m * ?L" by (simp add: algebra_simps)
      finally show ?thesis .
    next
      case False
      then have "\<bar>waypointDistance w n - ?L\<bar> = ?L - waypointDistance w n" by simp
      also have "\<dots> \<le> 2 * ?A - ?A" using far dt(2) by linarith
      also have "\<dots> \<le> ?A + real m * ?L" using Lpos by simp
      finally show ?thesis .
    qed
    with dist have "waypointDistance w n' \<le> ?A + real m * ?L" by simp
    from Suc.IH [OF er sp this mk] show ?thesis unfolding k by simp
  qed
qed


lemma frames_inv:
  assumes phys: "movesFreely dt ident phys" and st: "points st = [w]" "idx st = 0"
  shows "enRoute ident st s \<Longrightarrow> enRoute ident st (runFrames phys j s) \<or> arrivedAt ident w (runFrames phys j s)"
proof (induction j arbitrary: s)
  case 0
  then show ?case by simp
next
  case (Suc j)
  from Suc.prems obtain n where n: "spawnedNpcsById s ident = Some n"
    by (auto simp: enRoute_def split: option.splits)
  show ?case
  proof (cases "arrivalMet st n")
    case True
    then have "arrivedAt ident w (updateMovingNpcs s)" using arrive_update Suc.prems st n by blast
    then have "arrivedAt ident w (phys (updateMovingNpcs s))" using arrived_phys [OF phys] by blast
    then show ?thesis using arrived_frames [OF phys] by simp
  next
    case False
    from steer_frame [OF phys Suc.prems st n False]
    have "enRoute ident st (phys (updateMovingNpcs s))" by blast
    from Suc.IH [OF this] show ?thesis by simp
  qed
qed

lemma arrived_observed:
  assumes "arrivedAt ident w s" "trim ident = ident"
  shows "npcAt ident s = Some w \<and> \<not> isSpawnedNpcMoving ident s"
  using assms
  by (auto simp: arrivedAt_def npcAt_def isSpawnedNpcMoving_def Let_def map_of_None_iff split: option.splits)

lemma hypot_nonneg: "0 \<le> hypot a b"
  by (simp add: hypot_def)


lemma hypot_axis: "hypot a 0 = \<bar>a\<bar>"
  by (simp add: hypot_def)



section \<open>Deny zones: cooldown and push\<close>

lemma denyQuiet_refl: "denyQuiet s s"
  by (simp add: denyQuiet_def)

lemma denyQuiet_trans [trans]: "denyQuiet s s1 \<Longrightarrow> denyQuiet s1 s2 \<Longrightarrow> denyQuiet s s2"
  by (simp add: denyQuiet_def)

lemma denyQuiet_logFx: "\<not> isDenyFeedback e \<Longrightarrow> denyQuiet s (logFx e s)"
  by (simp add: denyQuiet_def logFx_def)

lemma denyQuiet_layers: "denyQuiet s (applyLayerVisibility v b s)"
proof -
  have "denyQuiet s (fold (\<lambda>lname s.
        case layerVisible (world s) lname of
          None \<Rightarrow> s
        | Some old \<Rightarrow>
            s\<lparr>world := (world s)\<lparr>layerVisible := (layerVisible (world s))(lname \<mapsto> b)\<rparr>,
              gameState := setLayerHidden (sceneKey (world s)) lname (\<not> b) (gameState s)\<rparr>) xs s)" for xs
  proof (induction xs arbitrary: s)
    case Nil
    then show ?case by (simp add: denyQuiet_refl)
  next
    case (Cons x xs)
    show ?case
      apply (simp only: fold_simps)
      apply (rule denyQuiet_trans [OF _ Cons.IH])
      apply (simp add: denyQuiet_def split: option.splits)
      done
  qed
  then show ?thesis by (simp add: applyLayerVisibility_def)
qed

lemma denyQuiet_triggerRun: "\<not> firesScript obj props \<Longrightarrow> denyQuiet s (triggerRun obj props s)"
  by (simp add: triggerRun_def denyQuiet_refl)

lemma denyQuiet_gameState: "denyQuiet s (s\<lparr>gameState := g\<rparr>)"
  by (simp add: denyQuiet_def)

lemma denyQuiet_inside: "denyQuiet s (s\<lparr>world := (world s)\<lparr>triggerInside := A, triggerExitArmed := B\<rparr>\<rparr>)"
  "denyQuiet s (s\<lparr>world := (world s)\<lparr>triggerInside := A\<rparr>\<rparr>)"
  "denyQuiet s (s\<lparr>world := (world s)\<lparr>triggerExitArmed := B\<rparr>\<rparr>)"
  by (simp_all add: denyQuiet_def)

lemma denyOnEnter_denyQuiet:
  "\<not> cooldownOver now (denyCooldownUntil (world s)) \<Longrightarrow> denyOnEnter env ar now px py cx cy props s = s"
  by (simp add: denyOnEnter_def)

lemma denyQuiet_cooldown: "denyQuiet s s' \<Longrightarrow> denyCooldownUntil (world s') = denyCooldownUntil (world s)"
  by (simp add: denyQuiet_def)

lemma logFx_world [simp]:
  "denyCooldownUntil (world (logFx e s)) = denyCooldownUntil (world s)"
  "playerX (world (logFx e s)) = playerX (world s)"
  "playerY (world (logFx e s)) = playerY (world s)"
  "fx (world (logFx e s)) = fx (world s) @ [e]"
  "gameState (logFx e s) = gameState s"
  by (simp_all add: logFx_def)

lemma triggerRun_cooldown [simp]:
  "denyCooldownUntil (world (triggerRun obj props s)) = denyCooldownUntil (world s)"
  by (simp add: triggerRun_def)

lemma beforeScript_denyQuiet:
  "denyQuiet s
     (logFx (StartZoneAudio ident)
       (applyLayerVisibility (nullish (getp props ''showlayers'') (getp props ''showlayer'')) True
         (applyLayerVisibility (nullish (getp props ''hidelayers'') (getp props ''hidelayer'')) False
           (s\<lparr>world := (world s)\<lparr>triggerInside := insert ident (triggerInside (world s)),
                 triggerExitArmed := insert ident (triggerExitArmed (world s))\<rparr>\<rparr>))))"
proof -
  let ?s1 = "s\<lparr>world := (world s)\<lparr>triggerInside := insert ident (triggerInside (world s)),
                                     triggerExitArmed := insert ident (triggerExitArmed (world s))\<rparr>\<rparr>"
  let ?s2 = "applyLayerVisibility (nullish (getp props ''hidelayers'') (getp props ''hidelayer'')) False ?s1"
  let ?s3 = "applyLayerVisibility (nullish (getp props ''showlayers'') (getp props ''showlayer'')) True ?s2"
  let ?s4 = "logFx (StartZoneAudio ident) ?s3"
  have "denyQuiet s ?s1" by (rule denyQuiet_inside(1))
  also have "denyQuiet ?s1 ?s2" by (rule denyQuiet_layers)
  also have "denyQuiet ?s2 ?s3" by (rule denyQuiet_layers)
  also have "denyQuiet ?s3 ?s4" by (rule denyQuiet_logFx) (simp add: isDenyFeedback_def)
  finally show ?thesis .
qed

lemma enterPrefix_cooldown:
  "denyCooldownUntil (world (enterPrefix ident obj props s)) = denyCooldownUntil (world s)"
  using denyQuiet_cooldown [OF beforeScript_denyQuiet [of s ident props]]
  by (simp add: enterPrefix_def)

lemma enterPrefix_denyQuiet:
  "\<not> firesScript obj props \<Longrightarrow> denyQuiet s (enterPrefix ident obj props s)"
  using beforeScript_denyQuiet [of s ident props]
  by (simp add: enterPrefix_def triggerRun_def)

lemma zoneEnter_split:
  "zoneEnter env ar now px py cx cy ident obj props s =
     enterSuffix ident props (denyOnEnter env ar now px py cx cy props (enterPrefix ident obj props s))"
  by (simp add: zoneEnter_def enterPrefix_def enterSuffix_def Let_def)

lemma enterSuffix_world [simp]: "world (enterSuffix ident props s) = world s"
  by (simp add: enterSuffix_def)

lemma enterSuffix_denyQuiet: "denyQuiet s s' \<Longrightarrow> denyQuiet s (enterSuffix ident props s')"
  by (simp add: denyQuiet_def)

lemma zoneEnter_skips_deny:
  assumes "\<not> cooldownOver now (denyCooldownUntil (world s))"
  shows "zoneEnter env ar now px py cx cy ident obj props s =
           enterSuffix ident props (enterPrefix ident obj props s)"
  unfolding zoneEnter_split
  using assms by (simp add: denyOnEnter_denyQuiet enterPrefix_cooldown)

lemma zoneEnter_denyQuiet:
  assumes "\<not> cooldownOver now (denyCooldownUntil (world s))" "\<not> firesScript obj props"
  shows "denyQuiet s (zoneEnter env ar now px py cx cy ident obj props s)"
  unfolding zoneEnter_skips_deny [OF assms(1)]
  using enterPrefix_denyQuiet [OF assms(2)] by (rule enterSuffix_denyQuiet)

lemma zoneExit_denyQuiet: "denyQuiet s (zoneExit ident props s)"
proof -
  let ?s1 = "s\<lparr>world := (world s)\<lparr>triggerInside := triggerInside (world s) - {ident}\<rparr>\<rparr>"
  let ?a = "?s1\<lparr>world := (world ?s1)\<lparr>triggerExitArmed := triggerExitArmed (world ?s1) - {ident}\<rparr>\<rparr>"
  let ?b = "applyLayerVisibility (nullish (getp props ''exithidelayers'') (getp props ''exithidelayer'')) False ?a"
  let ?c = "applyLayerVisibility (nullish (getp props ''exitshowlayers'') (getp props ''exitshowlayer'')) True ?b"
  let ?s2 = "if ident \<in> triggerExitArmed (world ?s1) then ?c else ?s1"
  have q1: "denyQuiet s ?s1" by (rule denyQuiet_inside(2))
  have "denyQuiet ?s1 ?a" by (rule denyQuiet_inside(3))
  also have "denyQuiet ?a ?b" by (rule denyQuiet_layers)
  also have "denyQuiet ?b ?c" by (rule denyQuiet_layers)
  finally have "denyQuiet ?s1 ?c" .
  with q1 have "denyQuiet s ?c" by (rule denyQuiet_trans)
  with q1 have q2: "denyQuiet s ?s2" by simp
  have "denyQuiet ?s2 (logFx (StopZoneAudio ident) ?s2)"
    by (rule denyQuiet_logFx) (simp add: isDenyFeedback_def)
  also have "denyQuiet (logFx (StopZoneAudio ident) ?s2) (logFx (StopZoneDuck ident) (logFx (StopZoneAudio ident) ?s2))"
    by (rule denyQuiet_logFx) (simp add: isDenyFeedback_def)
  finally have "denyQuiet ?s2 (logFx (StopZoneDuck ident) (logFx (StopZoneAudio ident) ?s2))" .
  with q2 have "denyQuiet s (logFx (StopZoneDuck ident) (logFx (StopZoneAudio ident) ?s2))"
    by (rule denyQuiet_trans)
  then show ?thesis
    by (simp add: zoneExit_def Let_def)
qed

lemma zoneStep_denyQuiet:
  assumes "\<not> cooldownOver now (denyCooldownUntil (world s))" "\<not> zoneFiresScript it"
  shows "denyQuiet s (zoneStep env ar now px py it s)"
proof (cases "tiledObj it")
  case None
  then show ?thesis by (simp add: zoneStep_def denyQuiet_refl)
next
  case (Some obj)
  obtain cx cy where c: "zoneCenter it obj = (cx, cy)" by (cases "zoneCenter it obj")
  have nf: "\<not> firesScript obj (parseProps obj)"
    using assms(2) Some by (simp add: zoneFiresScript_def)
  show ?thesis
    unfolding zoneStep_def Some option.case Let_def c prod.case
    using assms(1) nf
    by (simp add: denyQuiet_refl zoneExit_denyQuiet zoneEnter_denyQuiet split: option.splits)
qed

lemma zones_fold_denyQuiet:
  assumes "\<not> cooldownOver now (denyCooldownUntil (world s))" "\<forall>it \<in> set its. \<not> zoneFiresScript it"
  shows "denyQuiet s (fold (zoneStep env ar now px py) its s)"
  using assms
proof (induction its arbitrary: s)
  case Nil
  then show ?case by (simp add: denyQuiet_refl)
next
  case (Cons it its)
  have q: "denyQuiet s (zoneStep env ar now px py it s)"
    using Cons.prems by (intro zoneStep_denyQuiet) simp_all
  have "\<not> cooldownOver now (denyCooldownUntil (world (zoneStep env ar now px py it s)))"
    using Cons.prems denyQuiet_cooldown [OF q] by simp
  then have "denyQuiet (zoneStep env ar now px py it s)
               (fold (zoneStep env ar now px py) its (zoneStep env ar now px py it s))"
    using Cons.prems by (intro Cons.IH) simp_all
  with q show ?case by (simp add: denyQuiet_trans)
qed

lemma updateAutoTriggerZones_denyQuiet:
  assumes "\<not> cooldownOver now (denyCooldownUntil (world s))"
    "\<forall>it \<in> set (interactables (world s)). \<not> zoneFiresScript it"
  shows "denyQuiet s (updateAutoTriggerZones env ar now s)"
  using assms by (simp add: updateAutoTriggerZones_def denyQuiet_refl zones_fold_denyQuiet)

lemma pushPlayer_fields [simp]:
  "denyCooldownUntil (world (pushPlayer ar px py cx cy props s)) = denyCooldownUntil (world s)"
  "fx (world (pushPlayer ar px py cx cy props s)) =
     fx (world s) @ [BodyReset (playerX (world (pushPlayer ar px py cx cy props s)))
                               (playerY (world (pushPlayer ar px py cx cy props s)))]"
  by (simp_all add: pushPlayer_def Let_def)

lemma rewindPlayer_fields [simp]:
  "denyCooldownUntil (world (rewindPlayer s)) = denyCooldownUntil (world s)"
  "set (fx (world s)) \<subseteq> set (fx (world (rewindPlayer s)))"
  by (auto simp: rewindPlayer_def split: option.splits prod.splits)

lemma denyFeedback_cooldown:
  "denyCooldownUntil (world (denyFeedback env ar now px py cx cy props s)) =
     map_option (\<lambda>c. now + c) (numberOr (getp props ''denycooldownms'') 600)"
  by (simp add: denyFeedback_def Let_def split: option.splits)

lemma pushPlayer_pos:
  "playerX (world (pushPlayer ar px py cx cy props s)) =
     map_option (\<lambda>p. fadd ar px (fmul ar (fdiv ar (fsub ar px cx)
                        (orElse (fhypot ar (fsub ar px cx) (fsub ar py cy)) 1)) p))
       (numberOr (getp props ''denypush'') 12)"
  "playerY (world (pushPlayer ar px py cx cy props s)) =
     map_option (\<lambda>p. fadd ar py (fmul ar (fdiv ar (fsub ar py cy)
                        (orElse (fhypot ar (fsub ar px cx) (fsub ar py cy)) 1)) p))
       (numberOr (getp props ''denypush'') 12)"
  by (simp_all add: pushPlayer_def Let_def)

lemma denyFeedback_push_pos:
  assumes "toLowerCase (String_js (nullish (getp props ''denymode'') (JStr ''rewind''))) = ''push''"
  shows "playerX (world (denyFeedback env ar now px py cx cy props s)) =
     map_option (\<lambda>p. fadd ar px (fmul ar (fdiv ar (fsub ar px cx)
                        (orElse (fhypot ar (fsub ar px cx) (fsub ar py cy)) 1)) p))
       (numberOr (getp props ''denypush'') 12)"
    "playerY (world (denyFeedback env ar now px py cx cy props s)) =
     map_option (\<lambda>p. fadd ar py (fmul ar (fdiv ar (fsub ar py cy)
                        (orElse (fhypot ar (fsub ar px cx) (fsub ar py cy)) 1)) p))
       (numberOr (getp props ''denypush'') 12)"
  using assms by (simp_all add: denyFeedback_def Let_def pushPlayer_pos split: option.splits)

lemma denyFeedback_dialogue:
  assumes "str (nullish (getp props ''denydialogue'') (JStr (''You can'' @ [CHR 0x27] @ ''t go there.''))) = d"
    "d \<noteq> []"
  shows "\<exists>pre. fx (world (denyFeedback env ar now px py cx cy props s)) = pre @ [DialogueStart [Say [] d, End]]"
  using assms by (simp add: denyFeedback_def Let_def)

lemma denyFeedback_default_dialogue:
  assumes "getp props ''denydialogue'' = JUndefined"
  shows "\<exists>pre. fx (world (denyFeedback env ar now px py cx cy props s)) =
           pre @ [DialogueStart [Say [] (''You can'' @ [CHR 0x27] @ ''t go there.''), End]]"
proof -
  have "str (nullish (getp props ''denydialogue'') (JStr (''You can'' @ [CHR 0x27] @ ''t go there.'')))
          = ''You can'' @ [CHR 0x27] @ ''t go there.''"
    using assms by (simp add: nullish_def str_def trim_def is_space_def)
  then show ?thesis by (intro denyFeedback_dialogue) simp_all
qed

lemma denyFeedback_push_reset:
  assumes "toLowerCase (String_js (nullish (getp props ''denymode'') (JStr ''rewind''))) = ''push''"
  shows "BodyReset (playerX (world (denyFeedback env ar now px py cx cy props s)))
                   (playerY (world (denyFeedback env ar now px py cx cy props s)))
           \<in> set (fx (world (denyFeedback env ar now px py cx cy props s)))"
  using assms by (simp add: denyFeedback_def Let_def)

lemma denyFeedback_sound:
  assumes "str (getp props ''denysfx'') = name" "name \<noteq> []" "resolveAudioKey env name = key" "key \<noteq> []"
    "audioExists env key"
  shows "SoundPlay key \<in> set (fx (world (denyFeedback env ar now px py cx cy props s)))"
  using assms
  by (auto simp: denyFeedback_def Let_def rewindPlayer_def split: option.splits prod.splits)

lemma denyFeedback_shake:
  assumes "numberOr (getp props ''denyshakems'') 0 = Some m" "m > 0"
  shows "CameraShake m (numberOr (getp props ''denyshakeintensity'') (1 / 100))
           \<in> set (fx (world (denyFeedback env ar now px py cx cy props s)))"
  using assms
  by (auto simp: denyFeedback_def Let_def rewindPlayer_def split: option.splits prod.splits)

lemma zoneStep_deny_enter:
  assumes "tiledObj it = Some obj"
    "str (nullish (getp (parseProps obj) ''id'') (JStr (obj_name obj))) = ident" "ident \<noteq> []"
    "isTrue (getp (parseProps obj) ''deny'')"
    "insideZone (Some px) (Some py) it obj" "ident \<notin> triggerInside (world s)"
    "cooldownOver now (denyCooldownUntil (world s))"
    "zoneCenter it obj = (cx, cy)"
  shows "world (zoneStep env ar now (Some px) (Some py) it s) =
           world (denyFeedback env ar now px py cx cy (parseProps obj) (enterPrefix ident obj (parseProps obj) s))"
proof -
  let ?props = "parseProps obj"
  have over: "cooldownOver now (denyCooldownUntil (world (enterPrefix ident obj ?props s)))"
    using assms(7) by (simp add: enterPrefix_cooldown)
  have zl: "isZoneLike ?props"
    using assms(4) by (simp add: isZoneLike_def)
  have z: "zoneStep env ar now (Some px) (Some py) it s = zoneEnter env ar now px py cx cy ident obj ?props s"
    using assms zl by (simp add: zoneStep_def Let_def)
  show ?thesis
    unfolding z zoneEnter_split using over assms(4) by (simp add: denyOnEnter_def)
qed

lemma zoneStep_enter_in_window:
  assumes "tiledObj it = Some obj"
    "str (nullish (getp (parseProps obj) ''id'') (JStr (obj_name obj))) = ident" "ident \<noteq> []"
    "isZoneLike (parseProps obj)"
    "insideZone (Some px) (Some py) it obj" "ident \<notin> triggerInside (world s)"
    "\<not> cooldownOver now (denyCooldownUntil (world s))"
  shows "world (zoneStep env ar now (Some px) (Some py) it s) =
           world (enterPrefix ident obj (parseProps obj) s)"
proof -
  obtain cx cy where c: "zoneCenter it obj = (cx, cy)" by (cases "zoneCenter it obj")
  have z: "zoneStep env ar now (Some px) (Some py) it s =
             zoneEnter env ar now px py cx cy ident obj (parseProps obj) s"
    using assms c by (simp add: zoneStep_def Let_def)
  show ?thesis
    unfolding z zoneEnter_skips_deny [OF assms(7)] by simp
qed

lemma hypot_pos:
  fixes a b :: real
  assumes "(a, b) \<noteq> (0, 0)"
  shows "hypot a b > 0"
proof -
  have "a * a + b * b > 0"
    using assms by (auto simp: sum_power2_gt_zero_iff [unfolded power2_eq_square])
  then show ?thesis by (simp add: hypot_def)
qed

lemma scaled_unit_norm:
  fixes a b k :: real
  assumes "(a, b) \<noteq> (0, 0)"
  shows "hypot (k * (a / hypot a b)) (k * (b / hypot a b)) = \<bar>k\<bar>"
proof -
  define d where "d = hypot a b"
  have d: "d > 0" unfolding d_def using assms by (rule hypot_pos)
  have pos: "a * a + b * b > 0"
    using assms by (auto simp: sum_power2_gt_zero_iff [unfolded power2_eq_square])
  then have d2: "d * d = a * a + b * b"
    by (simp add: d_def hypot_def)
  have nz: "a * a + b * b \<noteq> 0"
    using pos by linarith
  have one: "(a * a + b * b) / (d * d) = 1"
    unfolding d2 using nz by (rule divide_self)
  have "(k * (a / d)) * (k * (a / d)) + (k * (b / d)) * (k * (b / d)) = (k * k) * ((a * a + b * b) / (d * d))"
    by (simp add: add_divide_distrib algebra_simps)
  also have "\<dots> = k * k" unfolding one by simp
  finally have "sqrt ((k * (a / d)) * (k * (a / d)) + (k * (b / d)) * (k * (b / d))) = \<bar>k\<bar>"
    by (simp add: real_sqrt_mult)
  then show ?thesis by (simp add: hypot_def d_def)
qed


lemma layers_fx [simp]: "fx (world (applyLayerVisibility v b s)) = fx (world s)"
proof -
  have "fx (world (fold (\<lambda>lname s.
        case layerVisible (world s) lname of
          None \<Rightarrow> s
        | Some old \<Rightarrow>
            s\<lparr>world := (world s)\<lparr>layerVisible := (layerVisible (world s))(lname \<mapsto> b)\<rparr>,
              gameState := setLayerHidden (sceneKey (world s)) lname (\<not> b) (gameState s)\<rparr>) xs s)) = fx (world s)" for xs
    by (induction xs arbitrary: s) (simp_all split: option.splits)
  then show ?thesis by (simp add: applyLayerVisibility_def)
qed

lemma enterPrefix_fx:
  "fx (world (enterPrefix ident obj props s)) =
     fx (world s) @ [StartZoneAudio ident] @ (if firesScript obj props then [RunTiledInteraction obj] else [])"
  by (simp add: enterPrefix_def triggerRun_def)

lemma denyFeedback_fx_prefix:
  "fx (world (denyFeedback env ar now px py cx cy props s)) =
     fx (world s) @ newFx s (denyFeedback env ar now px py cx cy props s)"
  by (auto simp: newFx_def denyFeedback_def Let_def rewindPlayer_def split: option.splits prod.splits)


lemma newFx_after_prefix:
  assumes "world s1 = world (denyFeedback env ar now px py cx cy props (enterPrefix ident obj props s))"
  shows "newFx s s1 =
           [StartZoneAudio ident] @ (if firesScript obj props then [RunTiledInteraction obj] else []) @
           newFx (enterPrefix ident obj props s) (denyFeedback env ar now px py cx cy props (enterPrefix ident obj props s))"
proof -
  have "fx (world s1) = fx (world (enterPrefix ident obj props s)) @
          newFx (enterPrefix ident obj props s) (denyFeedback env ar now px py cx cy props (enterPrefix ident obj props s))"
    unfolding assms by (rule denyFeedback_fx_prefix)
  then show ?thesis
    by (simp add: newFx_def enterPrefix_fx)
qed

lemma newFx_dialogue:
  assumes "str (nullish (getp props ''denydialogue'') (JStr (''You can'' @ [CHR 0x27] @ ''t go there.''))) = d"
    "d \<noteq> []"
  shows "newFx s (denyFeedback env ar now px py cx cy props s) \<noteq> [] \<and>
         last (newFx s (denyFeedback env ar now px py cx cy props s)) = DialogueStart [Say [] d, End]"
  using assms
  by (auto simp: newFx_def denyFeedback_def Let_def rewindPlayer_def split: option.splits prod.splits)

lemma newFx_sound:
  assumes "str (getp props ''denysfx'') = name" "name \<noteq> []" "resolveAudioKey env name = key" "key \<noteq> []"
    "audioExists env key"
  shows "SoundPlay key \<in> set (newFx s (denyFeedback env ar now px py cx cy props s))"
  using assms
  by (auto simp: newFx_def denyFeedback_def Let_def rewindPlayer_def split: option.splits prod.splits)

lemma newFx_shake:
  assumes "numberOr (getp props ''denyshakems'') 0 = Some m" "m > 0"
  shows "CameraShake m (numberOr (getp props ''denyshakeintensity'') (1 / 100))
           \<in> set (newFx s (denyFeedback env ar now px py cx cy props s))"
  using assms
  by (auto simp: newFx_def denyFeedback_def Let_def rewindPlayer_def split: option.splits prod.splits)

lemma newFx_push:
  assumes "toLowerCase (String_js (nullish (getp props ''denymode'') (JStr ''rewind''))) = ''push''"
  shows "BodyReset (playerX (world (denyFeedback env ar now px py cx cy props s)))
                   (playerY (world (denyFeedback env ar now px py cx cy props s)))
           \<in> set (newFx s (denyFeedback env ar now px py cx cy props s))"
  using assms
  by (auto simp: newFx_def denyFeedback_def Let_def pushPlayer_def simp del: pushPlayer_fields
        split: option.splits)

lemma default_deny_text:
  "getp props ''denydialogue'' = JUndefined \<Longrightarrow>
   str (nullish (getp props ''denydialogue'') (JStr (''You can'' @ [CHR 0x27] @ ''t go there.'')))
     = ''You can'' @ [CHR 0x27] @ ''t go there.''"
  by (simp add: nullish_def str_def trim_def is_space_def)

lemma example_props:
  "parseProps exampleDenyObject =
     [''id'' \<mapsto> JStr ''gate'', ''deny'' \<mapsto> JBool True, ''denymode'' \<mapsto> JStr ''push'',
      ''denypush'' \<mapsto> JNum 12]"
  by (simp add: parseProps_def exampleDenyObject_def normKey_def toLowerCase_def lower_char_def
      trim_def is_space_def)

lemma example_zone_facts:
  "tiledObj exampleDenyZone = Some exampleDenyObject"
  "str (nullish (getp (parseProps exampleDenyObject) ''id'') (JStr (obj_name exampleDenyObject))) = ''gate''"
  "isTrue (getp (parseProps exampleDenyObject) ''deny'')"
  "toLowerCase (String_js (nullish (getp (parseProps exampleDenyObject) ''denymode'') (JStr ''rewind''))) = ''push''"
  "numberOr (getp (parseProps exampleDenyObject) ''denypush'') 12 = Some 12"
  "numberOr (getp (parseProps exampleDenyObject) ''denycooldownms'') 600 = Some 600"
  "zoneCenter exampleDenyZone exampleDenyObject = (16, 16)"
  "insideZone (Some 16) (Some 0) exampleDenyZone exampleDenyObject"
  "insideZone (Some 16) (Some 16) exampleDenyZone exampleDenyObject"
  "''gate'' \<notin> triggerInside (world exampleZoneScene)"
  "cooldownOver 1000 (denyCooldownUntil (world exampleZoneScene))"
  "getp (parseProps exampleDenyObject) ''denydialogue'' = JUndefined"
  unfolding example_props
  by (simp_all add: exampleDenyZone_def exampleDenyObject_def exampleZoneScene_def getp_def
      nullish_def str_def trim_def is_space_def isTrue_def toLowerCase_def lower_char_def
      numberOr_def zoneCenter_def insideZone_def cooldownOver_def)

lemma example_fence_quiet: "\<not> zoneFiresScript exampleDenyZone2"
  by (simp add: zoneFiresScript_def exampleDenyZone2_def firesScript_def parseProps_def normKey_def
        toLowerCase_def lower_char_def trim_def is_space_def getp_def isTrue_def nullish_def)

lemma layers_inside [simp]:
  "triggerInside (world (applyLayerVisibility v b s)) = triggerInside (world s)"
proof -
  have "triggerInside (world (fold (\<lambda>lname s.
        case layerVisible (world s) lname of
          None \<Rightarrow> s
        | Some old \<Rightarrow>
            s\<lparr>world := (world s)\<lparr>layerVisible := (layerVisible (world s))(lname \<mapsto> b)\<rparr>,
              gameState := setLayerHidden (sceneKey (world s)) lname (\<not> b) (gameState s)\<rparr>) xs s))
         = triggerInside (world s)" for xs
    by (induction xs arbitrary: s) (simp_all split: option.splits)
  then show ?thesis by (simp add: applyLayerVisibility_def)
qed

lemma enterPrefix_inside:
  "triggerInside (world (enterPrefix ident obj props s)) = insert ident (triggerInside (world s))"
  by (simp add: enterPrefix_def triggerRun_def logFx_def)

lemma denyFeedback_inside:
  "triggerInside (world (denyFeedback env ar now px py cx cy props s)) = triggerInside (world s)"
  by (auto simp: denyFeedback_def Let_def pushPlayer_def rewindPlayer_def logFx_def
        split: option.splits prod.splits)

lemma alarm_props:
  "parseProps exampleAlarmObject =
     [''deny'' \<mapsto> JBool True, ''trigger'' \<mapsto> JBool True, ''shake'' \<mapsto> JNum 200]"
  by (simp add: parseProps_def exampleAlarmObject_def normKey_def toLowerCase_def lower_char_def
      trim_def is_space_def)

lemma alarm_facts:
  "tiledObj exampleAlarmZone = Some exampleAlarmObject"
  "str (nullish (getp (parseProps exampleAlarmObject) ''id'') (JStr (obj_name exampleAlarmObject))) = ''alarm''"
  "isTrue (getp (parseProps exampleAlarmObject) ''deny'')"
  "isZoneLike (parseProps exampleAlarmObject)"
  "insideZone (Some 80) (Some 16) exampleAlarmZone exampleAlarmObject"
  "firesScript exampleAlarmObject (parseProps exampleAlarmObject)"
  unfolding alarm_props
  by (simp_all add: exampleAlarmZone_def exampleAlarmObject_def getp_def isZoneLike_def
      nullish_def str_def trim_def is_space_def isTrue_def toLowerCase_def lower_char_def
      zoneCenter_def insideZone_def firesScript_def)

lemma after_first_deny:
  "world exampleAfterFirstDeny =
     world (denyFeedback exampleAudioEnv exactOps 1000 16 0 16 16 (parseProps exampleDenyObject)
              (enterPrefix ''gate'' exampleDenyObject (parseProps exampleDenyObject) exampleZoneScene))"
  unfolding exampleAfterFirstDeny_def
  using zoneStep_deny_enter [of exampleDenyZone exampleDenyObject "''gate''" 16 0 exampleZoneScene
      1000 16 16 exampleAudioEnv exactOps] example_zone_facts by simp

lemma after_first_deny_facts:
  "denyCooldownUntil (world exampleAfterFirstDeny) = Some 1600"
  "''alarm'' \<notin> triggerInside (world exampleAfterFirstDeny)"
  unfolding after_first_deny
  by (simp_all add: denyFeedback_cooldown example_zone_facts denyFeedback_inside enterPrefix_inside
        exampleZoneScene_def)

lemmas interaction_eval = getp_def nullish_def str_def trim_def is_space_def isTrue_def toLowerCase_def
  lower_char_def string_of_nat.simps string_of_int_def digit_char_def numberedFrom.simps getNumberedKeys_def
  propLinesFrom.simps getNumberedPropLines_def lineOf_def numberOr_def numOrZero_def floorOr_def
  clampInt_def trunc_def parse_int_def digit_of_def splitCsv_def Let_def
  isInteractionDisabled_def postHelpedKey_def isHelped_def markHelped_def flagKey_def getAnyFlag_def
  setAnyFlag_def requirementsMissing_def hasItem_def incrementInteractionCount_def runMain_def
  stackShake_def selectDialogueVariantPrefix_def selectPromptVariant_def hasFollower_def
  hasFollowerDialogueProps_def propKeys_def normKey_def startsWith_def appendLineMetaActions_def
  appendLine_def resolveLineSpeaker_def lineIndexFromKey_def buildDialogueScriptFromPrefix_def
  postHelpDialogue_def setPrompt_def appendFollowerDialogue_def selectFollowerBaseKey_def
  followerAloise_def followerSaga_def truthy_def parseSpeakerInline_def startDuck_def wantsDuck_def
  emit_def onGS_def applyInteractionEffects_def effectsMusic_def effectsTile_def effectsOnce_def

lemma alarm_script_shakes:
  "effects (world (runTiledInteraction exampleAudioEnv exampleAlarmObject exampleInterScene))
     = [ShakeCamera 200]"
  unfolding runTiledInteraction_def alarm_props
  by (simp add: interaction_eval exampleAlarmObject_def exampleInterScene_def initialGameState_def)







text \<open>
  Claim C6 as amended (push mode with \<open>denyPush = 12\<close>). Entering at \<open>(px, py)\<close> with the
  cooldown over, the new position is \<open>p + ((p - c) / d) * 12\<close> in each coordinate, with \<open>d\<close>
  the distance \<open>Math.hypot\<close> of entry and centre, replaced by 1 when it is 0, in whatever
  arithmetic evaluates the five operations: the position is determined by the zone centre,
  the entry position and the push distance. In exact arithmetic and away from the centre
  this is the entry moved by 12 along the direction from the centre to the entry. At the
  centre itself the zero vector is divided by 1 instead of 0 and the player stays where it
  is, in any arithmetic in which \<open>x - x = 0\<close>, \<open>hypot(0, 0) = 0\<close>, \<open>0 / 1 = 0\<close>, \<open>0 * 12 = 0\<close>
  and \<open>x + 0 = x\<close>, as in double precision.
\<close>

theorem deny_push_position:
  assumes "tiledObj it = Some obj"
    "str (nullish (getp (parseProps obj) ''id'') (JStr (obj_name obj))) = ident" "ident \<noteq> []"
    "isTrue (getp (parseProps obj) ''deny'')"
    "toLowerCase (String_js (nullish (getp (parseProps obj) ''denymode'') (JStr ''rewind''))) = ''push''"
    "numberOr (getp (parseProps obj) ''denypush'') 12 = Some 12"
    "insideZone (Some px) (Some py) it obj" "ident \<notin> triggerInside (world s)"
    "cooldownOver now (denyCooldownUntil (world s))"
    "zoneCenter it obj = (cx, cy)"
    "playerX (world (zoneStep env ar now (Some px) (Some py) it s)) = x'"
    "playerY (world (zoneStep env ar now (Some px) (Some py) it s)) = y'"
    "d = orElse (fhypot ar (fsub ar px cx) (fsub ar py cy)) 1"
  shows "x' = Some (fadd ar px (fmul ar (fdiv ar (fsub ar px cx) d) 12)) \<and>
         y' = Some (fadd ar py (fmul ar (fdiv ar (fsub ar py cy) d) 12)) \<and>
         (ar = exactOps \<and> (px, py) \<noteq> (cx, cy) \<longrightarrow>
           x' = Some (px + 12 * ((px - cx) / hypot (px - cx) (py - cy))) \<and>
           y' = Some (py + 12 * ((py - cy) / hypot (px - cx) (py - cy))) \<and>
           hypot (the x' - px) (the y' - py) = 12) \<and>
         ((px, py) = (cx, cy) \<and> fsub ar px px = 0 \<and> fsub ar py py = 0 \<and> fhypot ar 0 0 = 0 \<and>
          fdiv ar 0 1 = 0 \<and> fmul ar 0 12 = 0 \<and> fadd ar px 0 = px \<and> fadd ar py 0 = py \<longrightarrow>
           x' = Some px \<and> y' = Some py)"
proof -
  have w: "world (zoneStep env ar now (Some px) (Some py) it s) =
           world (denyFeedback env ar now px py cx cy (parseProps obj) (enterPrefix ident obj (parseProps obj) s))"
    using zoneStep_deny_enter [of it obj ident px py s now cx cy env ar] assms(1-10) by simp
  have x: "x' = Some (fadd ar px (fmul ar (fdiv ar (fsub ar px cx) d) 12))"
    and y: "y' = Some (fadd ar py (fmul ar (fdiv ar (fsub ar py cy) d) 12))"
    using assms(11,12) unfolding w denyFeedback_push_pos [OF assms(5)] assms(6) assms(13) by simp_all
  have exact: "x' = Some (px + 12 * ((px - cx) / hypot (px - cx) (py - cy))) \<and>
           y' = Some (py + 12 * ((py - cy) / hypot (px - cx) (py - cy))) \<and>
           hypot (the x' - px) (the y' - py) = 12"
    if e: "ar = exactOps" and False: "(px, py) \<noteq> (cx, cy)"
  proof -
    let ?d = "hypot (px - cx) (py - cy)"
    from False have ne: "(px - cx, py - cy) \<noteq> (0, 0)" by auto
    then have dpos: "?d > 0" by (rule hypot_pos)
    have dd: "d = ?d" using assms(13) dpos unfolding e by (simp add: exactOps_def orElse_def)
    have n: "hypot (12 * ((px - cx) / ?d)) (12 * ((py - cy) / ?d)) = 12"
      using scaled_unit_norm [OF ne, of 12] by simp
    have x2: "x' = Some (px + 12 * ((px - cx) / ?d))" and y2: "y' = Some (py + 12 * ((py - cy) / ?d))"
      using x y unfolding dd e by (simp_all add: exactOps_def)
    have "the x' - px = 12 * ((px - cx) / ?d)" "the y' - py = 12 * ((py - cy) / ?d)"
      unfolding x2 y2 by simp_all
    then have "hypot (the x' - px) (the y' - py) = 12"
      using n by (simp only:)
    with x2 y2 show ?thesis by blast
  qed
  have centre: "x' = Some px \<and> y' = Some py"
    if "(px, py) = (cx, cy) \<and> fsub ar px px = 0 \<and> fsub ar py py = 0 \<and> fhypot ar 0 0 = 0 \<and>
          fdiv ar 0 1 = 0 \<and> fmul ar 0 12 = 0 \<and> fadd ar px 0 = px \<and> fadd ar py 0 = py"
  proof -
    from that have c: "cx = px" "cy = py" by simp_all
    from that have "d = 1" using assms(13) unfolding c by (simp add: orElse_def)
    then show ?thesis using x y that unfolding c by simp
  qed
  show ?thesis using x y exact centre by blast
qed

theorem deny_push_witness:
  "playerX (world (zoneStep exampleAudioEnv exactOps 1000 (Some 16) (Some 0) exampleDenyZone exampleZoneScene)) = Some 16 \<and>
   playerY (world (zoneStep exampleAudioEnv exactOps 1000 (Some 16) (Some 0) exampleDenyZone exampleZoneScene)) = Some (- 12)"
  using deny_push_position
    [where it = exampleDenyZone and obj = exampleDenyObject and ident = "''gate''" and px = 16 and py = 0
       and s = exampleZoneScene and now = 1000 and cx = 16 and cy = 16 and env = exampleAudioEnv
       and ar = exactOps
       and x' = "playerX (world (zoneStep exampleAudioEnv exactOps 1000 (Some 16) (Some 0) exampleDenyZone exampleZoneScene))"
       and y' = "playerY (world (zoneStep exampleAudioEnv exactOps 1000 (Some 16) (Some 0) exampleDenyZone exampleZoneScene))"
       and d = 16]
    example_zone_facts
  by (simp add: hypot_def exactOps_def orElse_def)

text \<open>
  Claim C6 (push mode ends at push-distance 12 from the entry, along the outward normal)
  fails for an actor that enters exactly at the zone centre: there is no outward direction,
  \<open>Math.hypot(dx, dy) || 1\<close> divides the zero vector by 1, and the position does not
  change.
\<close>

theorem deny_push_at_centre_counterexample:
  "insideZone (Some 16) (Some 16) exampleDenyZone exampleDenyObject \<and>
   cooldownOver 1000 (denyCooldownUntil (world exampleZoneScene)) \<and>
   playerX (world (zoneStep exampleAudioEnv exactOps 1000 (Some 16) (Some 16) exampleDenyZone exampleZoneScene)) = Some 16 \<and>
   playerY (world (zoneStep exampleAudioEnv exactOps 1000 (Some 16) (Some 16) exampleDenyZone exampleZoneScene)) = Some 16"
proof -
  have w: "world (zoneStep exampleAudioEnv exactOps 1000 (Some 16) (Some 16) exampleDenyZone exampleZoneScene) =
      world (denyFeedback exampleAudioEnv exactOps 1000 16 16 16 16 (parseProps exampleDenyObject)
              (enterPrefix ''gate'' exampleDenyObject (parseProps exampleDenyObject) exampleZoneScene))"
    using zoneStep_deny_enter [of exampleDenyZone exampleDenyObject "''gate''" 16 16 exampleZoneScene
        1000 16 16 exampleAudioEnv exactOps] example_zone_facts by simp
  show ?thesis
    unfolding w denyFeedback_push_pos [OF example_zone_facts(4)]
    using example_zone_facts by (simp add: hypot_def orElse_def exactOps_def)
qed


section \<open>The dialogue runner\<close>

lemma firesPending_refl: "firesOnlyPending b b"
  by (simp add: firesOnlyPending_def)

lemma firesPending_trans [trans]: "firesOnlyPending b b1 \<Longrightarrow> firesOnlyPending b1 b2 \<Longrightarrow> firesOnlyPending b b2"
  by (auto simp: firesOnlyPending_def pendingCallback_def)

lemma firesPending_same:
  "calls b' = calls b \<Longrightarrow> onComplete b' = onComplete b \<Longrightarrow> firesOnlyPending b b'"
  by (simp add: firesOnlyPending_def)

lemma completions_append [simp]: "completions (xs @ ys) = completions xs @ completions ys"
  by (simp add: completions_def)

lemma completions_simps [simp]:
  "completions [] = []"
  "completions [Completed c] = [c]"
  "completions [Ran c] = []"
  "completions [Selected c] = []"
  by (simp_all add: completions_def)

lemma gateInput_fields [simp]:
  "calls (gateInput now ms b) = calls b"
  "onComplete (gateInput now ms b) = onComplete b"
  "active (gateInput now ms b) = active b"
  "script (gateInput now ms b) = script b"
  "index (gateInput now ms b) = index b"
  "inChoice (gateInput now ms b) = inChoice b"
  "isTyping (gateInput now ms b) = isTyping b"
  "inputCooldownMs (gateInput now ms b) = inputCooldownMs b"
  by (simp_all add: gateInput_def)

lemma stop_False_fields:
  "calls (stop False now b) = calls b"
  "onComplete (stop False now b) = onComplete b"
  by (simp_all add: stop_def Let_def)

lemma stop_True_fields:
  "completions (calls (stop True now b)) = completions (calls b) @ pendingCallback b"
  "onComplete (stop True now b) = None"
  "\<not> active (stop True now b)"
  by (simp_all add: stop_def Let_def pendingCallback_def split: option.splits)

lemma firesPending_stop: "firesOnlyPending b (stop c now b)"
  by (cases c) (simp_all add: firesOnlyPending_def stop_False_fields stop_True_fields)

lemma firesPending_runCurrentStep: "firesOnlyPending b (runCurrentStep now b)"
proof (induction now b rule: runCurrentStep.induct)
  case (1 now b)
  show ?case
  proof (cases "\<not> active b")
    case True
    then show ?thesis by (subst runCurrentStep.simps) (simp add: firesPending_refl)
  next
    case act: False
    show ?thesis
    proof (cases "index b < 0 \<or> index b \<ge> int (length (script b))")
      case True
      then show ?thesis using act by (subst runCurrentStep.simps) (simp add: firesPending_stop)
    next
      case rng: False
      show ?thesis
      proof (cases "script b ! nat (index b)")
        case (Say sp tx)
        then show ?thesis using act rng
          by (subst runCurrentStep.simps) (simp add: firesOnlyPending_def say_def)
      next
        case (Pause ms)
        then show ?thesis using act rng
          by (subst runCurrentStep.simps) (simp add: firesOnlyPending_def pause_def)
      next
        case (Choice p opts f)
        then show ?thesis using act rng
          by (subst runCurrentStep.simps) (simp add: firesOnlyPending_def choice_def)
      next
        case (Action r)
        let ?b1 = "(case r of None \<Rightarrow> b | Some f \<Rightarrow> b\<lparr>calls := calls b @ [Ran f]\<rparr>)\<lparr>index := index b + 1\<rparr>"
        have "firesOnlyPending b ?b1" by (simp add: firesOnlyPending_def split: option.splits)
        also have "firesOnlyPending ?b1 (runCurrentStep now ?b1)"
          using "1.IH"(1) act rng Action by simp
        finally show ?thesis using act rng Action
          by (subst runCurrentStep.simps) simp
      next
        case End
        then show ?thesis using act rng
          by (subst runCurrentStep.simps) (simp add: firesPending_stop)
      next
        case Untyped
        have "firesOnlyPending b (b\<lparr>index := index b + 1\<rparr>)" by (simp add: firesOnlyPending_def)
        also have "firesOnlyPending (b\<lparr>index := index b + 1\<rparr>) (runCurrentStep now (b\<lparr>index := index b + 1\<rparr>))"
          using "1.IH"(2) act rng Untyped by simp
        finally show ?thesis using act rng Untyped
          by (subst runCurrentStep.simps) simp
      qed
    qed
  qed
qed


lemma firesPending_onZ: "firesOnlyPending b (onZ now b)"
proof -
  let ?b1 = "(gateInput now (inputCooldownMs b) b)\<lparr>worldLockUntil := max (worldLockUntil b) (now + 240)\<rparr>"
  have s1: "firesOnlyPending b ?b1" by (simp add: firesOnlyPending_def)
  have t: "firesOnlyPending ?b1 (gateInput now (inputCooldownMs ?b1) (finishTypingInstant ?b1))"
    by (simp add: firesOnlyPending_def finishTypingInstant_def)
  have c: "firesOnlyPending ?b1 (runCurrentStep now
      ((fireSelect f (fireSelect g ?b1))\<lparr>index := n, inChoice := False\<rparr>))" for f g n
  proof -
    have "firesOnlyPending ?b1 ((fireSelect f (fireSelect g ?b1))\<lparr>index := n, inChoice := False\<rparr>)"
      by (simp add: firesOnlyPending_def fireSelect_def split: option.splits)
    also have "firesOnlyPending \<dots> (runCurrentStep now ((fireSelect f (fireSelect g ?b1))\<lparr>index := n, inChoice := False\<rparr>))"
      by (rule firesPending_runCurrentStep)
    finally show ?thesis .
  qed
  have a: "firesOnlyPending ?b1 (runCurrentStep now (?b1\<lparr>index := index ?b1 + 1\<rparr>))"
  proof -
    have "firesOnlyPending ?b1 (?b1\<lparr>index := index ?b1 + 1\<rparr>)" by (simp add: firesOnlyPending_def)
    also have "firesOnlyPending \<dots> (runCurrentStep now (?b1\<lparr>index := index ?b1 + 1\<rparr>))"
      by (rule firesPending_runCurrentStep)
    finally show ?thesis .
  qed
  have "firesOnlyPending ?b1 (onZ now b) \<or> onZ now b = b"
    unfolding onZ_def Let_def
    using t c a by (auto simp: firesPending_refl split: option.splits)
  then show ?thesis
  proof
    assume "firesOnlyPending ?b1 (onZ now b)"
    with s1 show ?thesis by (rule firesPending_trans)
  next
    assume "onZ now b = b"
    then show ?thesis by (simp add: firesPending_refl)
  qed
qed

lemma firesPending_cycleChoice: "firesOnlyPending b (cycleChoice up now b)"
  by (simp add: cycleChoice_def firesOnlyPending_def Let_def gateInput_def)

lemma firesPending_onEsc: "firesOnlyPending b (onEsc now b)"
  by (simp add: onEsc_def firesPending_refl firesPending_stop)

lemma firesPending_typingTick: "firesOnlyPending b (typingTick now b)"
  by (simp add: typingTick_def firesOnlyPending_def Let_def split: option.splits typing.splits)

lemma firesPending_pauseFire: "firesOnlyPending b (pauseFire now b)"
proof -
  let ?b1 = "b\<lparr>pendingPauses := pendingPauses b - 1\<rparr>"
  have "firesOnlyPending b (?b1\<lparr>index := index ?b1 + 1\<rparr>)" by (simp add: firesOnlyPending_def)
  also have "firesOnlyPending \<dots> (runCurrentStep now (?b1\<lparr>index := index ?b1 + 1\<rparr>))"
    by (rule firesPending_runCurrentStep)
  finally have "firesOnlyPending b (runCurrentStep now (?b1\<lparr>index := index ?b1 + 1\<rparr>))" .
  moreover have "firesOnlyPending b ?b1" by (simp add: firesOnlyPending_def)
  ultimately show ?thesis
    by (simp add: pauseFire_def Let_def firesPending_refl)
qed

lemma start_shape:
  "(completions (calls (start scr cb now b)) = completions (calls b) \<and>
      onComplete (start scr cb now b) = cb) \<or>
   (completions (calls (start scr cb now b)) = completions (calls b) @ (case cb of Some c \<Rightarrow> [c] | None \<Rightarrow> []) \<and>
      onComplete (start scr cb now b) = None)"
proof -
  let ?b1 = "stop False now b"
  let ?b2 = "?b1\<lparr>active := True, script := scr, index := 0, onComplete := cb,
                 visible := True, keyHandlersBound := True\<rparr>"
  let ?b3 = "gateInput now (inputCooldownMs ?b2) ?b2"
  have c: "calls ?b3 = calls b" and o: "onComplete ?b3 = cb"
    by (simp_all add: stop_False_fields)
  have "firesOnlyPending ?b3 (runCurrentStep now ?b3)" by (rule firesPending_runCurrentStep)
  then show ?thesis
    unfolding firesOnlyPending_def start_def Let_def c o pendingCallback_def by simp
qed


lemma handle_shape:
  "(\<forall>scr cb. e \<noteq> Start scr cb) \<Longrightarrow> firesOnlyPending b (handle (now, e) b)"
  by (cases e) (simp_all add: firesPending_onZ firesPending_onEsc firesPending_cycleChoice firesPending_typingTick firesPending_pauseFire)

lemma firesPending_keeps_count:
  assumes "firesOnlyPending b b'" "onComplete b \<noteq> Some c"
  shows "count_list (completions (calls b')) c = count_list (completions (calls b)) c \<and>
         onComplete b' \<noteq> Some c"
  using assms by (auto simp: firesOnlyPending_def pendingCallback_def split: option.splits)

lemma start_keeps_count:
  assumes "cb \<noteq> Some c"
  shows "count_list (completions (calls (start scr cb now b))) c = count_list (completions (calls b)) c \<and>
         onComplete (start scr cb now b) \<noteq> Some c"
  using start_shape [of scr cb now b] assms by (auto split: option.splits)

lemma startTokens_Cons:
  "startTokens ((now, e) # evs) =
     (case e of Start scr (Some cb) \<Rightarrow> cb # startTokens evs | _ \<Rightarrow> startTokens evs)"
  by (cases e) (auto split: option.splits)

lemma runEvents_Cons: "runEvents (ev # evs) b = runEvents evs (handle ev b)"
  by (simp add: runEvents_def)

lemma no_fire_without_registration:
  "onComplete b \<noteq> Some c \<Longrightarrow> c \<notin> set (startTokens evs) \<Longrightarrow>
   count_list (completions (calls (runEvents evs b))) c = count_list (completions (calls b)) c"
proof (induction evs arbitrary: b)
  case Nil
  then show ?case by (simp add: runEvents_def)
next
  case (Cons ev evs)
  obtain now e where ev: "ev = (now, e)" by (cases ev)
  have step: "count_list (completions (calls (handle ev b))) c = count_list (completions (calls b)) c \<and>
         onComplete (handle ev b) \<noteq> Some c"
  proof (cases "\<exists>scr cb. e = Start scr cb")
    case True
    then obtain scr cb where e: "e = Start scr cb" by blast
    with Cons.prems(2) ev have "cb \<noteq> Some c" by (auto simp: startTokens_Cons)
    then show ?thesis using start_keeps_count e ev by simp
  next
    case False
    then have sh: "firesOnlyPending b (handle (now, e) b)" by (simp add: handle_shape)
    show ?thesis using firesPending_keeps_count [OF sh Cons.prems(1)] ev by simp
  qed
  have rest: "c \<notin> set (startTokens evs)"
    using Cons.prems(2) ev by (auto simp: startTokens_Cons split: event.splits option.splits)
  show ?case
    unfolding runEvents_Cons using Cons.IH [of "handle ev b"] step rest by simp
qed

lemma distinct_tokens_run:
  "distinct (completions (calls b) @ pendingCallback b) \<Longrightarrow>
   set (completions (calls b) @ pendingCallback b) \<inter> set (startTokens evs) = {} \<Longrightarrow>
   distinct (startTokens evs) \<Longrightarrow>
   distinct (completions (calls (runEvents evs b)) @ pendingCallback (runEvents evs b))"
proof (induction evs arbitrary: b)
  case Nil
  then show ?case by (simp add: runEvents_def)
next
  case (Cons ev evs)
  obtain now e where ev: "ev = (now, e)" by (cases ev)
  let ?b' = "handle ev b"
  have step: "distinct (completions (calls ?b') @ pendingCallback ?b') \<and>
      set (completions (calls ?b') @ pendingCallback ?b') \<inter> set (startTokens evs) = {} \<and>
      distinct (startTokens evs)"
  proof (cases "\<exists>scr cb. e = Start scr cb")
    case True
    then obtain scr cb where e: "e = Start scr cb" by blast
    have sh: "(completions (calls ?b') = completions (calls b) \<and> onComplete ?b' = cb) \<or>
       (completions (calls ?b') = completions (calls b) @ (case cb of Some c \<Rightarrow> [c] | None \<Rightarrow> []) \<and>
         onComplete ?b' = None)"
      using start_shape [of scr cb now b] e ev by simp
    show ?thesis
    proof (cases cb)
      case None
      with sh Cons.prems e ev show ?thesis
        by (auto simp: pendingCallback_def startTokens_Cons)
    next
      case (Some c)
      with Cons.prems e ev have "c \<notin> set (completions (calls b))" "c \<notin> set (startTokens evs)"
        "distinct (startTokens evs)" "set (completions (calls b)) \<inter> set (startTokens evs) = {}"
        "distinct (completions (calls b))"
        by (auto simp: startTokens_Cons)
      with sh Some show ?thesis
        by (auto simp: pendingCallback_def)
    qed
  next
    case False
    then have "firesOnlyPending b ?b'" using ev by (simp add: handle_shape)
    then have same: "completions (calls ?b') @ pendingCallback ?b' = completions (calls b) @ pendingCallback b"
      by (auto simp: firesOnlyPending_def pendingCallback_def)
    have "startTokens (ev # evs) = startTokens evs"
      using False ev by (auto simp: startTokens_Cons split: event.splits)
    with Cons.prems same show ?thesis by simp
  qed
  show ?case
    unfolding runEvents_Cons using Cons.IH [of ?b'] step by blast
qed

lemma runCurrentStep_inactive: "\<not> active b \<Longrightarrow> runCurrentStep now b = b"
  by (subst runCurrentStep.simps) simp

lemma runCurrentStep_out_of_range:
  "active b \<Longrightarrow> index b < 0 \<or> index b \<ge> int (length (script b)) \<Longrightarrow>
   runCurrentStep now b = stop True now b"
  by (subst runCurrentStep.simps) simp

lemma runCurrentStep_Say:
  "active b \<Longrightarrow> 0 \<le> index b \<Longrightarrow> index b < int (length (script b)) \<Longrightarrow>
   script b ! nat (index b) = Say sp tx \<Longrightarrow>
   runCurrentStep now b = say sp tx (gateInput now (inputCooldownMs b) b)"
  by (subst runCurrentStep.simps) simp

lemma stop_fields:
  "\<not> active (stop c now b)" "index (stop c now b) = index b" "script (stop c now b) = script b"
  by (simp_all add: stop_def Let_def gateInput_def split: option.splits)

lemma fireSelect_fields [simp]:
  "active (fireSelect f b) = active b" "script (fireSelect f b) = script b"
  "index (fireSelect f b) = index b" "inChoice (fireSelect f b) = inChoice b"
  "inputCooldownMs (fireSelect f b) = inputCooldownMs b"
  by (simp_all add: fireSelect_def split: option.splits)

lemma gateInput_more [simp]:
  "choiceConfirmReadyAt (gateInput now ms b) = choiceConfirmReadyAt b"
  "choiceIndex (gateInput now ms b) = choiceIndex b"
  "choiceOptions (gateInput now ms b) = choiceOptions b"
  by (simp_all add: gateInput_def)

lemma afterConfirm_fields:
  "active (afterConfirm now chosen b) = active b"
  "script (afterConfirm now chosen b) = script b"
  "\<not> inChoice (afterConfirm now chosen b)"
  "index (afterConfirm now chosen b) = (case optionNext chosen of Some n \<Rightarrow> n | None \<Rightarrow> index b + 1)"
  by (simp_all add: afterConfirm_def Let_def gateInput_def fireSelect_def split: option.splits)

lemma onZ_confirm:
  assumes "active b" "canAcceptInput now b" "\<not> isTyping b" "inChoice b"
    "choiceConfirmReadyAt b \<le> now" "chosenOption b = Some chosen"
  shows "onZ now b = runCurrentStep now (afterConfirm now chosen b)"
proof -
  let ?b1 = "(gateInput now (inputCooldownMs b) b)\<lparr>worldLockUntil := max (worldLockUntil b) (now + 240)\<rparr>"
  have c: "chosenOption ?b1 = Some chosen"
    using assms(6) by (simp add: chosenOption_def gateInput_def split: option.splits if_splits)
  show ?thesis
    using assms(1-5) c by (simp add: onZ_def afterConfirm_def Let_def cong: option.case_cong)
qed

text \<open>
  Claim C4 (choice jump). Let the box be active and waiting in a choice, let the confirm
  key be accepted (input cooldown and choice-confirm delay over, typing finished) and let
  the selected option exist. Then \<open>_onZ\<close> sets the index to the option's \<open>next\<close> when that
  is a number, and to the index plus one otherwise, whatever the index was, and calls
  \<open>_runCurrentStep\<close> there. So when the target step is a \<open>say\<close> step the box is typing that
  line at index \<open>target\<close>; when the target is outside the script the dialogue stops.
\<close>

theorem choice_confirm_jumps_to_next:
  assumes "active b" "canAcceptInput now b" "\<not> isTyping b" "inChoice b"
    "choiceConfirmReadyAt b \<le> now" "chosenOption b = Some (ChoiceOption t nx f)"
    "target = (case nx of Some n \<Rightarrow> n | None \<Rightarrow> index b + 1)"
  shows "(\<exists>b'. onZ now b = runCurrentStep now b' \<and> index b' = target \<and> active b' \<and>
               script b' = script b \<and> \<not> inChoice b') \<and>
         (0 \<le> target \<and> target < int (length (script b)) \<and> script b ! nat target = Say sp tx \<longrightarrow>
            index (onZ now b) = target \<and> active (onZ now b) \<and> isTyping (onZ now b) \<and>
            fullText (onZ now b) = tx \<and> speakerText (onZ now b) = sp) \<and>
         (target < 0 \<or> target \<ge> int (length (script b)) \<longrightarrow>
            index (onZ now b) = target \<and> \<not> active (onZ now b))"
proof -
  let ?b' = "afterConfirm now (ChoiceOption t nx f) b"
  have z: "onZ now b = runCurrentStep now ?b'"
    using onZ_confirm [OF assms(1-6)] .
  have f: "active ?b'" "script ?b' = script b" "\<not> inChoice ?b'" "index ?b' = target"
    using assms(1,7) by (simp_all add: afterConfirm_fields)
  have a: "\<exists>b'. onZ now b = runCurrentStep now b' \<and> index b' = target \<and> active b' \<and>
               script b' = script b \<and> \<not> inChoice b'"
    using z f by (intro exI [of _ ?b']) simp
  have b: "index (onZ now b) = target \<and> active (onZ now b) \<and> isTyping (onZ now b) \<and>
            fullText (onZ now b) = tx \<and> speakerText (onZ now b) = sp"
    if "0 \<le> target \<and> target < int (length (script b)) \<and> script b ! nat target = Say sp tx"
  proof -
    have "runCurrentStep now ?b' = say sp tx (gateInput now (inputCooldownMs ?b') ?b')"
      using that f by (intro runCurrentStep_Say) simp_all
    then show ?thesis
      unfolding z using f by (simp add: say_def)
  qed
  have c: "index (onZ now b) = target \<and> \<not> active (onZ now b)"
    if "target < 0 \<or> target \<ge> int (length (script b))"
  proof -
    have "runCurrentStep now ?b' = stop True now ?b'"
      using that f by (intro runCurrentStep_out_of_range) simp_all
    then show ?thesis
      unfolding z using f by (simp add: stop_fields)
  qed
  show ?thesis
  proof (intro conjI)
    show "\<exists>b'. onZ now b = runCurrentStep now b' \<and> index b' = target \<and> active b' \<and>
               script b' = script b \<and> \<not> inChoice b'" by (rule a)
  next
    show "0 \<le> target \<and> target < int (length (script b)) \<and> script b ! nat target = Say sp tx \<longrightarrow>
            index (onZ now b) = target \<and> active (onZ now b) \<and> isTyping (onZ now b) \<and>
            fullText (onZ now b) = tx \<and> speakerText (onZ now b) = sp"
      using b by (rule impI)
  next
    show "target < 0 \<or> target \<ge> int (length (script b)) \<longrightarrow>
            index (onZ now b) = target \<and> \<not> active (onZ now b)"
      using c by (rule impI)
  qed
qed

theorem choice_confirm_witness:
  "index (onZ 1000 boxInChoice) = 5 \<and> fullText (onZ 1000 boxInChoice) = ''You chose B'' \<and>
   speakerText (onZ 1000 boxInChoice) = ''npc''"
  using choice_confirm_jumps_to_next [of boxInChoice 1000 "''B''" "Some 5" "Some 2" 5 "''npc''" "''You chose B''"]
  by (simp add: boxInChoice_def newDialogueBox_def canAcceptInput_def chosenOption_def branchScript_def)

text \<open>
  Claim C10 (completion callbacks). When \<open>start\<close> is called on a box that holds the
  callback \<open>c\<close> of an earlier script, with another callback, then \<open>c\<close> is not invoked by
  that \<open>start\<close> nor by any later run of events that does not pass \<open>c\<close> to \<open>start\<close> again.
  In a run of a new box in which every \<open>start\<close> passes its own callback, no callback is
  invoked twice. A callback is invoked by \<open>stop\<close> only: \<open>stop(false)\<close> invokes nothing, and
  \<open>stop(true)\<close> invokes the callback the box holds, if any.
\<close>

theorem completion_callback_dropped_on_restart_and_at_most_once:
  "(onComplete b = Some c \<and> cb \<noteq> Some c \<and> c \<notin> set (startTokens evs) \<longrightarrow>
      count_list (completions (calls (runEvents evs (start scr cb now b)))) c
        = count_list (completions (calls b)) c) \<and>
   (distinct (startTokens evs) \<longrightarrow>
      distinct (completions (calls (runEvents evs newDialogueBox)))) \<and>
   calls (stop False now b) = calls b \<and>
   completions (calls (stop True now b)) =
     completions (calls b) @ (case onComplete b of Some k \<Rightarrow> [k] | None \<Rightarrow> [])"
proof (intro conjI impI)
  assume a: "onComplete b = Some c \<and> cb \<noteq> Some c \<and> c \<notin> set (startTokens evs)"
  then have s: "count_list (completions (calls (start scr cb now b))) c = count_list (completions (calls b)) c"
    and o: "onComplete (start scr cb now b) \<noteq> Some c"
    using start_keeps_count [of cb c scr now b] by simp_all
  show "count_list (completions (calls (runEvents evs (start scr cb now b)))) c
        = count_list (completions (calls b)) c"
    using no_fire_without_registration [OF o, of evs] a s by simp
next
  assume "distinct (startTokens evs)"
  then have "distinct (completions (calls (runEvents evs (newDialogueBox :: 'a DialogueBox)))
     @ pendingCallback (runEvents evs (newDialogueBox :: 'a DialogueBox)))"
    using distinct_tokens_run [of "newDialogueBox :: 'a DialogueBox" evs]
    by (simp add: newDialogueBox_def pendingCallback_def)
  then show "distinct (completions (calls (runEvents evs (newDialogueBox :: 'a DialogueBox))))"
    by simp
next
  show "calls (stop False now b) = calls b" by (rule stop_False_fields)
next
  show "completions (calls (stop True now b)) =
     completions (calls b) @ (case onComplete b of Some k \<Rightarrow> [k] | None \<Rightarrow> [])"
    using stop_True_fields(1) [of now b] by (simp add: pendingCallback_def)
qed

theorem completion_callback_witness:
  "count_list (completions (calls (runEvents
      [(10, TypingTick), (600, KeyZ), (1200, KeyZ), (1300, Start [End] (Some 9)), (1400, KeyEsc)]
      (start [Say [] ''x'', End] (Some 8) 0 boxInChoice)))) 7 = 0 \<and>
   distinct (completions (calls (runEvents
      [(0, Start [Say [] ''x'', End] (Some 8)), (10, TypingTick), (600, KeyZ), (1200, KeyZ),
       (1300, Start [End] (Some 9)), (1400, KeyEsc)] (newDialogueBox :: nat DialogueBox))))"
  using completion_callback_dropped_on_restart_and_at_most_once
    [of boxInChoice 7 "Some 8"
      "[(10, TypingTick), (600, KeyZ), (1200, KeyZ), (1300, Start [End] (Some 9)), (1400, KeyEsc)]"
      "[Say [] ''x'', End]" 0]
    completion_callback_dropped_on_restart_and_at_most_once
    [of boxInChoice 7 "Some 8"
      "[(0, Start [Say [] ''x'', End] (Some 8)), (10, TypingTick), (600, KeyZ), (1200, KeyZ),
       (1300, Start [End] (Some 9)), (1400, KeyEsc)]"
      "[Say [] ''x'', End]" 0]
  by (simp add: boxInChoice_def newDialogueBox_def)


section \<open>Once-guarded effects\<close>

lemma dropWhile_id: "xs = [] \<or> \<not> P (hd xs) \<Longrightarrow> dropWhile P xs = xs"
  by (cases xs) auto

lemma trim_fixed:
  assumes "s = [] \<or> (\<not> is_space (hd s) \<and> \<not> is_space (last s))"
  shows "trim s = s"
proof (cases "s = []")
  case True then show ?thesis by (simp add: trim_def)
next
  case False
  with assms have h: "\<not> is_space (hd s)" and l: "\<not> is_space (last s)" by auto
  have a: "dropWhile is_space s = s" using h by (simp add: dropWhile_id)
  have "hd (rev s) = last s" using False by (simp add: hd_rev)
  then have b: "dropWhile is_space (rev s) = rev s" using l by (simp add: dropWhile_id)
  show ?thesis by (simp add: trim_def a b)
qed

lemma trim_ends: "trim s = [] \<or> (\<not> is_space (hd (trim s)) \<and> \<not> is_space (last (trim s)))"
proof (cases "trim s = []")
  case True then show ?thesis by simp
next
  case False
  define t where "t = dropWhile is_space s"
  define u where "u = dropWhile is_space (rev t)"
  have ts: "trim s = rev u" by (simp add: trim_def t_def u_def)
  with False have une: "u \<noteq> []" by simp
  have hu: "\<not> is_space (hd u)" using une unfolding u_def by (metis hd_dropWhile)
  have "rev t = takeWhile is_space (rev t) @ u" by (simp add: u_def)
  then have "t = rev u @ rev (takeWhile is_space (rev t))"
    by (metis rev_append rev_rev_ident)
  then have "hd t = hd (rev u)" using une by (metis hd_append2 rev_is_Nil_conv)
  moreover have "t \<noteq> []" using une u_def by auto
  then have "\<not> is_space (hd t)" unfolding t_def by (metis hd_dropWhile)
  ultimately have "\<not> is_space (hd (rev u))" by simp
  moreover have "last (rev u) = hd u" using une by (simp add: last_rev)
  ultimately show ?thesis using hu ts by simp
qed

lemma trim_idem: "trim (trim s) = trim s"
  using trim_ends [of s] by (intro trim_fixed) auto

lemma lineAddHelp_idem:
  "runClosure env (LineAddHelp ident k amt) (runClosure env (LineAddHelp ident k amt) s)
     = runClosure env (LineAddHelp ident k amt) s"
  by (simp add: runOnceGuard_def Let_def onGS_def getAnyFlag_def setAnyFlag_def addHelp_def getp_def)

lemma choiceHelpScore_idem:
  "choiceHelpScore ident props i (choiceHelpScore ident props i s) = choiceHelpScore ident props i s"
  by (simp add: choiceHelpScore_def Let_def onGS_def getAnyFlag_def setAnyFlag_def addHelp_def getp_def
           split: option.splits)


lemma once_disables:
  assumes "getp props ''once'' = JBool True" "splitCsv (getp props ''removeinteraction'') = []"
    and "trim ident \<noteq> []"
  shows "isInteractionDisabled ident (gameState (applyInteractionEffects env ident props s))"
  using assms
  by (simp add: applyInteractionEffects_def Let_def effectsOnce_def dropInteractable_def onGS_def
        isInteractionDisabled_def disableInteraction_def)

lemma completion_disables:
  assumes "getp props ''once'' = JBool True" "splitCsv (getp props ''removeinteraction'') = []"
    and "trim ident \<noteq> []"
  shows "isInteractionDisabled ident (gameState (runCompletion env (Complete True ident props d) s))"
  using once_disables [OF assms, of env s]
  by (simp add: Let_def emit_def)

lemma disabled_noop:
  assumes "isInteractionDisabled (str (nullish (getp (parseProps obj) ''id'') (JStr (obj_name obj)))) (gameState s)"
  shows "runTiledInteraction env obj s = s"
  using assms by (simp add: runTiledInteraction_def Let_def)

lemma ex_once_props:
  "parseProps exampleOnceObject = [''id'' \<mapsto> JStr ''chest'', ''once'' \<mapsto> JBool True,
      ''dialogue'' \<mapsto> JStr ''It is stuck.'', ''dialogue2'' \<mapsto> JStr ''It opens.'']"
  by (simp add: parseProps_def exampleOnceObject_def normKey_def toLowerCase_def trim_def is_space_def lower_char_def)

lemmas js_eval = getp_def nullish_def str_def trim_def is_space_def isTrue_def toLowerCase_def lower_char_def
  string_of_nat.simps string_of_int_def digit_char_def numberedFrom.simps getNumberedKeys_def
  propLinesFrom.simps getNumberedPropLines_def lineOf_def
  numberOr_def numOrZero_def floorOr_def clampInt_def trunc_def parse_int_def digit_of_def
  splitCsv_def

lemmas run_eval = js_eval Let_def
     isInteractionDisabled_def postHelpedKey_def isHelped_def markHelped_def flagKey_def getAnyFlag_def setAnyFlag_def
     requirementsMissing_def hasItem_def incrementInteractionCount_def runMain_def stackShake_def
     selectDialogueVariantPrefix_def selectPromptVariant_def hasFollower_def hasFollowerDialogueProps_def
     propKeys_def normKey_def
     startsWith_def appendLineMetaActions_def appendLine_def resolveLineSpeaker_def lineIndexFromKey_def
     buildDialogueScriptFromPrefix_def postHelpDialogue_def setPrompt_def
     appendFollowerDialogue_def selectFollowerBaseKey_def followerAloise_def followerSaga_def truthy_def
     parseSpeakerInline_def
     startDuck_def wantsDuck_def emit_def onGS_def

lemma chest_first:
  "runTiledInteraction exampleAudioEnv exampleOnceObject exampleInterScene =
     exampleInterScene\<lparr>gameState := (gameState exampleInterScene)\<lparr>counts := [''chest'' \<mapsto> 1],
          flags := (flags (gameState exampleInterScene))(''__req_satisfied__CityScene__chest'' \<mapsto> JBool True)\<rparr>,
        world := (world exampleInterScene)\<lparr>effects :=
          [StartDialogue [Say [] ''It is stuck.'', End]
             (Some (Complete False ''chest'' (parseProps exampleOnceObject) False))]\<rparr>\<rparr>"
  unfolding runTiledInteraction_def ex_once_props
  by (simp add: run_eval exampleOnceObject_def exampleInterScene_def initialGameState_def)

lemma chest_first_use:
  "exampleOnceFirstUse = runTiledInteraction exampleAudioEnv exampleOnceObject exampleInterScene"
  by (simp add: exampleOnceFirstUse_def)

lemma chest_second:
  "gameState (runTiledInteraction exampleAudioEnv exampleOnceObject exampleOnceFirstUse) =
     (gameState exampleOnceFirstUse)\<lparr>counts := [''chest'' \<mapsto> 2]\<rparr> \<and>
   startedScripts (runTiledInteraction exampleAudioEnv exampleOnceObject exampleOnceFirstUse) =
     [[Say [] ''It is stuck.'', End], [Say [] ''It opens.'', End]]"
  unfolding chest_first_use chest_first
  unfolding runTiledInteraction_def ex_once_props
  by (simp add: run_eval exampleOnceObject_def exampleInterScene_def initialGameState_def startedScripts_def)

lemma lt10_cases: "(m::nat) < 10 \<Longrightarrow> m = 0 \<or> m = 1 \<or> m = 2 \<or> m = 3 \<or> m = 4 \<or> m = 5 \<or> m = 6 \<or> m = 7 \<or> m = 8 \<or> m = 9"
  by arith

lemma digit_of_digit_char: "digit_of (digit_char n) \<noteq> None"
proof -
  have "n mod 10 < 10" by simp
  from lt10_cases [OF this] show ?thesis
    by (elim disjE) (simp_all add: digit_char_def digit_of_def)
qed

lemma string_of_nat_last: "string_of_nat i \<noteq> [] \<and> digit_of (last (string_of_nat i)) \<noteq> None"
  using digit_of_digit_char [of i]
  by (subst (1 2) string_of_nat.simps) auto

lemma digit_of_letters: "digit_of CHR ''g'' = None" "digit_of CHR ''d'' = None"
  by (simp_all add: digit_of_def)

lemma setFollowerFlag_other:
  assumes "k \<noteq> []" "digit_of (last k) \<noteq> None"
  shows "getAnyFlag k (setFollowerFlag name b gs) = getAnyFlag k gs"
proof -
  have a: "k \<noteq> ''sagaJoined''" "k \<noteq> ''aloiseFollowing''" using assms digit_of_letters by auto
  have b: "k \<noteq> n @ ''following''" "k \<noteq> n @ ''joined''" for n using assms digit_of_letters by auto
  show ?thesis
    using a b by (simp add: setFollowerFlag_def Let_def getAnyFlag_def setAnyFlag_def getp_def)
qed

lemma setFollowerFlag_help [simp]: "helpScore (setFollowerFlag name b gs) = helpScore gs"
  by (simp add: setFollowerFlag_def Let_def setAnyFlag_def)

text \<open>help score and scene key through the building blocks\<close>

lemma emit_keeps [simp]:
  "gameState (emit e s) = gameState s" "thisSceneKey (world (emit e s)) = thisSceneKey (world s)"
  by (simp_all add: emit_def)

lemma onGS_keeps [simp]:
  "gameState (onGS f s) = f (gameState s)" "world (onGS f s) = world s"
  by (simp_all add: onGS_def)

lemma setPrompt_keeps [simp]:
  "gameState (setPrompt ident p s) = gameState s" "thisSceneKey (world (setPrompt ident p s)) = thisSceneKey (world s)"
  by (simp_all add: setPrompt_def split: option.splits)

lemma dropInteractable_keeps [simp]:
  "gameState (dropInteractable ident s) = gameState s"
  "thisSceneKey (world (dropInteractable ident s)) = thisSceneKey (world s)"
  by (simp_all add: dropInteractable_def)

lemma stackShake_keeps [simp]:
  "gameState (stackShake ms s) = gameState s" "thisSceneKey (world (stackShake ms s)) = thisSceneKey (world s)"
  by (simp_all add: stackShake_def Let_def)

lemma playScaledSfx_keeps [simp]:
  "gameState (playScaledSfx env a b c d u s) = gameState s"
  "thisSceneKey (world (playScaledSfx env a b c d u s)) = thisSceneKey (world s)"
  by (simp_all add: playScaledSfx_def safePlay_def Let_def)

lemma choiceMoves_keeps [simp]:
  "gameState (choiceMoves props i s) = gameState s"
  "thisSceneKey (world (choiceMoves props i s)) = thisSceneKey (world s)"
  by (simp_all add: choiceMoves_def Let_def)

lemma simple_flag_help [simp]:
  "helpScore (setAnyFlag k v gs) = helpScore gs"
  "helpScore (markHelped n b gs) = helpScore gs"
  "helpScore (disableInteraction x gs) = helpScore gs"
  "helpScore (setInteractionDisabled x d gs) = helpScore gs"
  "helpScore (setLayerHidden sk lname h gs) = helpScore gs"
  by (simp_all add: setAnyFlag_def markHelped_def disableInteraction_def setInteractionDisabled_def
        setLayerHidden_def Let_def)

lemma simple_flag_get [simp]:
  "getAnyFlag k (markHelped n b gs) = getAnyFlag k gs"
  "getAnyFlag k (disableInteraction x gs) = getAnyFlag k gs"
  "getAnyFlag k (setInteractionDisabled x d gs) = getAnyFlag k gs"
  "getAnyFlag k (setLayerHidden sk lname h gs) = getAnyFlag k gs"
  "getAnyFlag k (gs\<lparr>choices := c\<rparr>) = getAnyFlag k gs"
  "helpScore (gs\<lparr>choices := c\<rparr>) = helpScore gs"
  by (simp_all add: getAnyFlag_def markHelped_def disableInteraction_def setInteractionDisabled_def
        setLayerHidden_def Let_def)

lemma setAnyFlag_truthy:
  "Boolean_js v \<Longrightarrow> Boolean_js (getAnyFlag k gs) \<Longrightarrow> Boolean_js (getAnyFlag k (setAnyFlag k' v gs))"
  by (simp add: getAnyFlag_def setAnyFlag_def getp_def)


lemma inv_emit: "helpInv c sk k P s \<Longrightarrow> helpInv c sk k P (emit e s)"
  by (simp add: helpInv_def)

lemma inv_if_emit: "helpInv c sk k P s \<Longrightarrow> helpInv c sk k P (if b then emit e s else s)"
  by (simp add: helpInv_def)

lemma inv_if_setPrompt: "helpInv c sk k P s \<Longrightarrow> helpInv c sk k P (if b then setPrompt ident p s else s)"
  by (simp add: helpInv_def)

lemma inv_if_stackShake: "helpInv c sk k P s \<Longrightarrow> helpInv c sk k P (if b then stackShake v s else s)"
  by (simp add: helpInv_def)

lemma inv_if_sfx: "helpInv c sk k P s \<Longrightarrow> helpInv c sk k P (if b then playScaledSfx env n x y z u s else s)"
  by (simp add: helpInv_def)

lemma inv_choiceMoves: "helpInv c sk k P s \<Longrightarrow> helpInv c sk k P (choiceMoves props i s)"
  by (simp add: helpInv_def)

lemma inv_if_markHelped: "helpInv c sk k P s \<Longrightarrow> helpInv c sk k P (if b then onGS (markHelped n v) s else s)"
  by (simp add: helpInv_def)

lemma inv_choices: "helpInv c sk k P s \<Longrightarrow> helpInv c sk k P (onGS (\<lambda>gs. gs\<lparr>choices := f gs\<rparr>) s)"
  by (simp add: helpInv_def)

lemma inv_fx:
  "helpInv c sk (''__choicehs__'' @ y) P s \<Longrightarrow>
   helpInv c sk (''__choicehs__'' @ y) P (onGS (setAnyFlag (''__choicefx__'' @ x) v) s)"
  by (simp add: helpInv_def getAnyFlag_def setAnyFlag_def getp_def)

lemma inv_fold:
  assumes "\<And>x s. helpInv c sk k P s \<Longrightarrow> helpInv c sk k P (h x s)" "helpInv c sk k P s"
  shows "helpInv c sk k P (fold h xs s)"
  using assms(2) by (induction xs arbitrary: s) (simp_all add: assms(1))

lemma inv_setLayer: "helpInv c sk k P s \<Longrightarrow> helpInv c sk k P (setLayer b lname s)"
  by (simp add: helpInv_def setLayer_def)

lemma inv_removeCollider:
  "helpInv c sk (''__choicehs__'' @ y) P s \<Longrightarrow> helpInv c sk (''__choicehs__'' @ y) P (removeColliderById cid s)"
  by (simp add: helpInv_def removeColliderById_def Let_def flagKey_def getAnyFlag_def setAnyFlag_def getp_def)

lemma inv_setDisabled: "helpInv c sk k P s \<Longrightarrow> helpInv c sk k P (onGS (setInteractionDisabled x d) s)"
  by (simp add: helpInv_def)

lemma inv_flip:
  "helpInv c sk (''__choicehs__'' @ y) P s \<Longrightarrow> helpInv c sk (''__choicehs__'' @ y) P (choiceFlipNpc props i s)"
  by (simp add: helpInv_def choiceFlipNpc_def Let_def flagKey_def getAnyFlag_def setAnyFlag_def getp_def)

lemma getAnyFlag_setAnyFlag:
  "getAnyFlag k (setAnyFlag k' v gs) = (if k = k' then v else getAnyFlag k gs)"
  by (simp add: getAnyFlag_def setAnyFlag_def getp_def)

lemma inv_followers_gen:
  assumes "k \<noteq> []" "digit_of (last k) \<noteq> None" "\<And>n. k \<noteq> ''__npcRemoved__'' @ n"
    and "helpInv c sk k P s"
  shows "helpInv c sk k P (choiceFollowers ident props i s)"
proof -
  have ne: "k \<noteq> ''__npcRemoved__'' @ n" for n using assms(3) .
  note ne' = ne [simplified]
  show ?thesis
    using assms(4)
    by (simp add: helpInv_def choiceFollowers_def Let_def getAnyFlag_setAnyFlag ne'
          setFollowerFlag_other [OF assms(1,2)])
qed

lemma inv_followers:
  assumes "digit_of (last (''__choicehs__'' @ y)) \<noteq> None" "helpInv c sk (''__choicehs__'' @ y) P s"
  shows "helpInv c sk (''__choicehs__'' @ y) P (choiceFollowers ident props i s)"
  using assms by (intro inv_followers_gen) simp_all

lemma hsKey_digit:
  "digit_of (last (''__choicehs__'' @ sk @ ''__'' @ ident @ ''__'' @ string_of_nat i)) \<noteq> None"
  using string_of_nat_last [of i] by simp

lemma inv_chs_held:
  assumes "helpInv c sk (''__choicehs__'' @ sk @ ''__'' @ ident @ ''__'' @ string_of_nat i) Boolean_js s"
  shows "helpInv c sk (''__choicehs__'' @ sk @ ''__'' @ ident @ ''__'' @ string_of_nat i) Boolean_js
           (choiceHelpScore ident props i s)"
  using assms by (simp add: helpInv_def choiceHelpScore_def Let_def)

lemma inv_chs_sets:
  assumes "helpInv c sk (''__choicehs__'' @ sk @ ''__'' @ ident @ ''__'' @ string_of_nat i) (\<lambda>v. True) s"
    and "choiceProp props i ''helpscore'' \<noteq> JUndefined"
  shows "helpInv None sk (''__choicehs__'' @ sk @ ''__'' @ ident @ ''__'' @ string_of_nat i) Boolean_js
           (choiceHelpScore ident props i s)"
  using assms
  by (simp add: helpInv_def choiceHelpScore_def choiceProp_def Let_def getAnyFlag_def setAnyFlag_def getp_def addHelp_def
        split: option.splits)

lemma inv_chs_first:
  assumes "helpInv (Some 0) sk (''__choicehs__'' @ sk @ ''__'' @ ident @ ''__'' @ string_of_nat i)
             (\<lambda>v. \<not> Boolean_js v) s"
    and "choiceProp props i ''helpscore'' = JNum 10"
  shows "helpInv (Some 10) sk (''__choicehs__'' @ sk @ ''__'' @ ident @ ''__'' @ string_of_nat i) Boolean_js
           (choiceHelpScore ident props i s)"
  using assms
  by (simp add: helpInv_def choiceHelpScore_def choiceProp_def Let_def getAnyFlag_def setAnyFlag_def getp_def addHelp_def)

lemma inv_chs_absent:
  assumes "helpInv c sk k P s" and "choiceProp props i ''helpscore'' = JUndefined"
  shows "helpInv c sk k P (choiceHelpScore ident props i s)"
  using assms by (simp add: choiceHelpScore_def choiceProp_def Let_def)

lemmas inv_steps = inv_choiceMoves inv_fold inv_setDisabled inv_if_setPrompt inv_removeCollider inv_setLayer
  inv_if_emit inv_flip inv_if_sfx inv_if_stackShake inv_fx inv_choices inv_if_markHelped

lemma ace_held:
  assumes "helpInv c sk (''__choicehs__'' @ sk @ ''__'' @ ident @ ''__'' @ string_of_nat i) Boolean_js s"
  shows "helpInv c sk (''__choicehs__'' @ sk @ ''__'' @ ident @ ''__'' @ string_of_nat i) Boolean_js
           (applyChoiceEffects env ident props i s)"
  unfolding applyChoiceEffects_def Let_def
  by (intro inv_steps inv_chs_held inv_followers hsKey_digit assms)

lemma ace_sets:
  assumes "helpInv c sk (''__choicehs__'' @ sk @ ''__'' @ ident @ ''__'' @ string_of_nat i) (\<lambda>v. True) s"
    and "choiceProp props i ''helpscore'' \<noteq> JUndefined"
  shows "helpInv None sk (''__choicehs__'' @ sk @ ''__'' @ ident @ ''__'' @ string_of_nat i) Boolean_js
           (applyChoiceEffects env ident props i s)"
  unfolding applyChoiceEffects_def Let_def
  by (intro inv_steps inv_chs_sets [where c = c] inv_followers hsKey_digit assms)

lemma ace_first:
  assumes "helpInv (Some 0) sk (''__choicehs__'' @ sk @ ''__'' @ ident @ ''__'' @ string_of_nat i)
             (\<lambda>v. \<not> Boolean_js v) s"
    and "choiceProp props i ''helpscore'' = JNum 10"
  shows "helpInv (Some 10) sk (''__choicehs__'' @ sk @ ''__'' @ ident @ ''__'' @ string_of_nat i) Boolean_js
           (applyChoiceEffects env ident props i s)"
  unfolding applyChoiceEffects_def Let_def
  by (intro inv_steps inv_chs_first inv_followers hsKey_digit assms)

lemma ace_absent:
  assumes "helpInv c sk (''__choicehs__'' @ sk @ ''__'' @ ident @ ''__'' @ string_of_nat i) (\<lambda>v. True) s"
    and "choiceProp props i ''helpscore'' = JUndefined"
  shows "helpInv c sk (''__choicehs__'' @ sk @ ''__'' @ ident @ ''__'' @ string_of_nat i) (\<lambda>v. True)
           (applyChoiceEffects env ident props i s)"
  unfolding applyChoiceEffects_def Let_def
  by (intro inv_steps inv_chs_absent inv_followers hsKey_digit assms)

lemma applyChoiceEffects_help_idem:
  "helpScore (gameState (applyChoiceEffects env ident props i (applyChoiceEffects env ident props i s)))
     = helpScore (gameState (applyChoiceEffects env ident props i s))"
proof (cases "choiceProp props i ''helpscore'' = JUndefined")
  case True
  have a: "helpInv (Some (helpScore (gameState s))) (thisSceneKey (world s))
             (''__choicehs__'' @ thisSceneKey (world s) @ ''__'' @ ident @ ''__'' @ string_of_nat i) (\<lambda>v. True) s"
    by (simp add: helpInv_def)
  note b = ace_absent [OF a True, of env]
  note c = ace_absent [OF b True, of env]
  from b c show ?thesis by (simp add: helpInv_def)
next
  case False
  have a: "helpInv None (thisSceneKey (world s))
             (''__choicehs__'' @ thisSceneKey (world s) @ ''__'' @ ident @ ''__'' @ string_of_nat i) (\<lambda>v. True) s"
    by (simp add: helpInv_def)
  note b = ace_sets [OF a False, of env]
  then have c: "helpInv (Some (helpScore (gameState (applyChoiceEffects env ident props i s))))
             (thisSceneKey (world s))
             (''__choicehs__'' @ thisSceneKey (world s) @ ''__'' @ ident @ ''__'' @ string_of_nat i) Boolean_js
             (applyChoiceEffects env ident props i s)"
    by (simp add: helpInv_def)
  from ace_held [OF c, of env props] show ?thesis by (simp add: helpInv_def)
qed

lemma applyChoiceEffects_help_scenario:
  assumes "helpScore (gameState s) = 0" "choiceProp props i ''helpscore'' = JNum 10"
    "\<not> Boolean_js (getAnyFlag (''__choicehs__'' @ thisSceneKey (world s) @ ''__'' @ ident @ ''__'' @ string_of_nat i)
                     (gameState s))"
  shows "helpScore (gameState (applyChoiceEffects env ident props i (applyChoiceEffects env ident props i s))) = 10"
proof -
  have a: "helpInv (Some 0) (thisSceneKey (world s))
             (''__choicehs__'' @ thisSceneKey (world s) @ ''__'' @ ident @ ''__'' @ string_of_nat i)
             (\<lambda>v. \<not> Boolean_js v) s"
    using assms by (simp add: helpInv_def)
  from ace_first [OF a assms(2), of env]
  have "helpScore (gameState (applyChoiceEffects env ident props i s)) = 10" by (simp add: helpInv_def)
  then show ?thesis by (simp only: applyChoiceEffects_help_idem)
qed

text \<open>
  Claim C1 (a second invocation of the action of an interaction marked \<open>once\<close> leaves
  GameState unchanged) fails for an interaction with more than one dialogue line: \<open>once\<close>
  takes effect with the interaction effects, which are applied when the final line
  completes. The chest below shows its first line on the first use; the second use counts
  again and shows the second line.
\<close>

theorem once_interaction_second_use_counterexample:
  "getp (parseProps exampleOnceObject) ''once'' = JBool True \<and>
   startedScripts exampleOnceFirstUse = [[Say [] ''It is stuck.'', End]] \<and>
   counts (gameState exampleOnceFirstUse) ''chest'' = Some 1 \<and>
   counts (gameState (runTiledInteraction exampleAudioEnv exampleOnceObject exampleOnceFirstUse)) ''chest'' = Some 2 \<and>
   gameState (runTiledInteraction exampleAudioEnv exampleOnceObject exampleOnceFirstUse)
     \<noteq> gameState exampleOnceFirstUse"
proof -
  have a: "counts (gameState exampleOnceFirstUse) ''chest'' = Some 1"
    unfolding chest_first_use chest_first by simp
  have b: "counts (gameState (runTiledInteraction exampleAudioEnv exampleOnceObject exampleOnceFirstUse)) ''chest'' = Some 2"
    using chest_second by simp
  have c: "gameState (runTiledInteraction exampleAudioEnv exampleOnceObject exampleOnceFirstUse)
     \<noteq> gameState exampleOnceFirstUse"
  proof
    assume "gameState (runTiledInteraction exampleAudioEnv exampleOnceObject exampleOnceFirstUse)
       = gameState exampleOnceFirstUse"
    then have "counts (gameState (runTiledInteraction exampleAudioEnv exampleOnceObject exampleOnceFirstUse)) ''chest''
       = counts (gameState exampleOnceFirstUse) ''chest''" by simp
    then show False using a b by simp
  qed
  have d: "getp (parseProps exampleOnceObject) ''once'' = JBool True"
    unfolding ex_once_props by (simp add: getp_def)
  have e: "startedScripts exampleOnceFirstUse = [[Say [] ''It is stuck.'', End]]"
    unfolding chest_first_use chest_first by (simp add: startedScripts_def exampleInterScene_def)
  show ?thesis using a b c d e by blast
qed

text \<open>
  Claim C1 as amended. Running the line-level \<open>addhelp\<close> action of a line twice leaves the
  state as running it once does, and applying the effects of a choice twice leaves the help
  score as applying them once does; from help score 0 and with the guard flag not yet set,
  a \<open>+10\<close> of either kind applied twice gives 10. For an interaction marked \<open>once\<close> (and
  without \<open>removeInteraction\<close>): after the completion callback that applies its effects has
  run, a further invocation of the interaction leaves the whole state unchanged.
\<close>

theorem once_guarded_effects_apply_once:
  "runClosure env (LineAddHelp ident k amt) (runClosure env (LineAddHelp ident k amt) s)
     = runClosure env (LineAddHelp ident k amt) s \<and>
   helpScore (gameState (applyChoiceEffects env ident props i (applyChoiceEffects env ident props i s)))
     = helpScore (gameState (applyChoiceEffects env ident props i s)) \<and>
   (helpScore (gameState s) = 0 \<and>
    getAnyFlag (flagKey ''__line_effect_once''
                  [JStr (thisSceneKey (world s)), JStr ident, JStr k, JStr ''addhelp'', JStr []])
               (gameState s) \<noteq> JBool True \<longrightarrow>
      helpScore (gameState (runClosure env (LineAddHelp ident k 10)
                              (runClosure env (LineAddHelp ident k 10) s))) = 10) \<and>
   (helpScore (gameState s) = 0 \<and> choiceProp props i ''helpscore'' = JNum 10 \<and>
    \<not> Boolean_js (getAnyFlag (''__choicehs__'' @ thisSceneKey (world s) @ ''__'' @ ident @ ''__'' @ string_of_nat i)
                     (gameState s)) \<longrightarrow>
      helpScore (gameState (applyChoiceEffects env ident props i (applyChoiceEffects env ident props i s))) = 10) \<and>
   (getp (parseProps obj) ''once'' = JBool True \<and>
    splitCsv (getp (parseProps obj) ''removeinteraction'') = [] \<and>
    oid = str (nullish (getp (parseProps obj) ''id'') (JStr (obj_name obj))) \<and> oid \<noteq> [] \<longrightarrow>
      runTiledInteraction env obj (runCompletion env (Complete True oid (parseProps obj) d) s)
        = runCompletion env (Complete True oid (parseProps obj) d) s)"
proof (intro conjI impI)
  show "runClosure env (LineAddHelp ident k amt) (runClosure env (LineAddHelp ident k amt) s)
          = runClosure env (LineAddHelp ident k amt) s"
    by (rule lineAddHelp_idem)
next
  show "helpScore (gameState (applyChoiceEffects env ident props i (applyChoiceEffects env ident props i s)))
     = helpScore (gameState (applyChoiceEffects env ident props i s))"
    by (rule applyChoiceEffects_help_idem)
next
  assume "helpScore (gameState s) = 0 \<and>
    getAnyFlag (flagKey ''__line_effect_once''
                  [JStr (thisSceneKey (world s)), JStr ident, JStr k, JStr ''addhelp'', JStr []])
               (gameState s) \<noteq> JBool True"
  then have "helpScore (gameState (runClosure env (LineAddHelp ident k 10) s)) = 10"
    by (simp add: runOnceGuard_def Let_def onGS_def setAnyFlag_def addHelp_def)
  then show "helpScore (gameState (runClosure env (LineAddHelp ident k 10)
                              (runClosure env (LineAddHelp ident k 10) s))) = 10"
    by (simp only: lineAddHelp_idem)
next
  assume a: "helpScore (gameState s) = 0 \<and> choiceProp props i ''helpscore'' = JNum 10 \<and>
    \<not> Boolean_js (getAnyFlag (''__choicehs__'' @ thisSceneKey (world s) @ ''__'' @ ident @ ''__'' @ string_of_nat i)
                     (gameState s))"
  then show "helpScore (gameState (applyChoiceEffects env ident props i (applyChoiceEffects env ident props i s))) = 10"
    by (intro applyChoiceEffects_help_scenario) simp_all
next
  assume a: "getp (parseProps obj) ''once'' = JBool True \<and>
    splitCsv (getp (parseProps obj) ''removeinteraction'') = [] \<and>
    oid = str (nullish (getp (parseProps obj) ''id'') (JStr (obj_name obj))) \<and> oid \<noteq> []"
  then have e: "oid = str (nullish (getp (parseProps obj) ''id'') (JStr (obj_name obj)))"
    and ne: "oid \<noteq> []" by blast+
  have "trim oid = oid" unfolding e by (simp add: str_def trim_idem)
  with ne have t: "trim oid \<noteq> []" by simp
  have "isInteractionDisabled oid (gameState (runCompletion env (Complete True oid (parseProps obj) d) s))"
    using a t by (intro completion_disables) simp_all
  then show "runTiledInteraction env obj (runCompletion env (Complete True oid (parseProps obj) d) s)
        = runCompletion env (Complete True oid (parseProps obj) d) s"
    using a by (intro disabled_noop) simp
qed

theorem once_guarded_effects_witness:
  "helpScore (gameState (runClosure exampleAudioEnv (LineAddHelp ''chest'' ''dialogue'' 10)
      (runClosure exampleAudioEnv (LineAddHelp ''chest'' ''dialogue'' 10) exampleInterScene))) = 10 \<and>
   helpScore (gameState (applyChoiceEffects exampleAudioEnv ''chest'' [''choice1helpscore'' \<mapsto> JNum 10] 1
      (applyChoiceEffects exampleAudioEnv ''chest'' [''choice1helpscore'' \<mapsto> JNum 10] 1 exampleInterScene))) = 10 \<and>
   runTiledInteraction exampleAudioEnv exampleOnceObject
      (runCompletion exampleAudioEnv (Complete True ''chest'' (parseProps exampleOnceObject) False) exampleOnceFirstUse)
     = runCompletion exampleAudioEnv (Complete True ''chest'' (parseProps exampleOnceObject) False) exampleOnceFirstUse"
proof -
  note T = once_guarded_effects_apply_once [of exampleAudioEnv "''chest''" "''dialogue''" 10 exampleInterScene
      "[''choice1helpscore'' \<mapsto> JNum 10]" 1 exampleOnceObject "''chest''" False]
  note U = once_guarded_effects_apply_once [of exampleAudioEnv "''chest''" "''dialogue''" 10 exampleOnceFirstUse
      "[''choice1helpscore'' \<mapsto> JNum 10]" 1 exampleOnceObject "''chest''" False]
  have p1: "helpScore (gameState exampleInterScene) = 0 \<and>
    getAnyFlag (flagKey ''__line_effect_once''
                  [JStr (thisSceneKey (world exampleInterScene)), JStr ''chest'', JStr ''dialogue'',
                   JStr ''addhelp'', JStr []])
               (gameState exampleInterScene) \<noteq> JBool True"
    by (simp add: exampleInterScene_def initialGameState_def flagKey_def getAnyFlag_def getp_def)
  have p2: "helpScore (gameState exampleInterScene) = 0 \<and>
    choiceProp [''choice1helpscore'' \<mapsto> JNum 10] 1 ''helpscore'' = JNum 10 \<and>
    \<not> Boolean_js (getAnyFlag (''__choicehs__'' @ thisSceneKey (world exampleInterScene) @ ''__'' @ ''chest''
                                 @ ''__'' @ string_of_nat 1)
                     (gameState exampleInterScene))"
    by (simp add: exampleInterScene_def initialGameState_def getAnyFlag_def getp_def choiceProp_def
          string_of_nat.simps digit_char_def)
  have p3: "getp (parseProps exampleOnceObject) ''once'' = JBool True \<and>
    splitCsv (getp (parseProps exampleOnceObject) ''removeinteraction'') = [] \<and>
    ''chest'' = str (nullish (getp (parseProps exampleOnceObject) ''id'') (JStr (obj_name exampleOnceObject))) \<and>
    ''chest'' \<noteq> []"
    unfolding ex_once_props by (simp add: js_eval)
  show ?thesis
    using T [THEN conjunct2, THEN conjunct2, THEN conjunct1, THEN mp, OF p1]
      T [THEN conjunct2, THEN conjunct2, THEN conjunct2, THEN conjunct1, THEN mp, OF p2]
      U [THEN conjunct2, THEN conjunct2, THEN conjunct2, THEN conjunct2, THEN mp, OF p3]
    by simp
qed

end
